(* ===== verification/LP_Prelude.thy ===== *)
theory LP_Prelude
  imports Main "HOL-Library.AList" "HOL-Library.Sublist"
begin

text \<open>
  What the components share: JavaScript's strings, numbers and dates as far as the sources
  use them, the errors of \<^verbatim>\<open>src/src/shared/domain/DomainError.ts\<close> (and the two error
  classes of the consumer), insertion-ordered maps, results that may throw, and two generic
  interfaces: a system of operations that keeps an invariant, and a keyed repository.

  Strings are lists of 8-bit code units. Case conversion acts on the ASCII letters and
  \<open>trim\<close> strips the white space of that range. A JavaScript \<open>Map\<close> is an association
  list in insertion order: \<^const>\<open>AList.update\<close> keeps the position of an existing key,
  as \<open>Map.set\<close> does.
\<close>

section \<open>Collections of facts\<close>

named_theorems ctor_defs \<open>definitions of the constructors of the domain classes\<close>
named_theorems op_defs \<open>definitions of the operations of the domain classes\<close>

section \<open>Strings\<close>

definition js_space :: "char \<Rightarrow> bool" where
  "js_space c \<longleftrightarrow> c \<in> {CHR 0x09, CHR 0x0A, CHR 0x0B, CHR 0x0C, CHR 0x0D, CHR '' '', CHR 0xA0}"

definition trim :: "string \<Rightarrow> string" where
  "trim s = rev (dropWhile js_space (rev (dropWhile js_space s)))"

text \<open>The guard \<open>!s || s.trim().length === 0\<close> of the constructors.\<close>

definition blank :: "string \<Rightarrow> bool" where
  "blank s \<longleftrightarrow> s = [] \<or> trim s = []"

definition upper_char :: "char \<Rightarrow> char" where
  "upper_char c = (let n = of_char c :: nat in
     if 97 \<le> n \<and> n \<le> 122 then char_of (n - 32) else c)"

definition lower_char :: "char \<Rightarrow> char" where
  "lower_char c = (let n = of_char c :: nat in
     if 65 \<le> n \<and> n \<le> 90 then char_of (n + 32) else c)"

definition toUpperCase :: "string \<Rightarrow> string" where
  "toUpperCase s = map upper_char s"

definition toLowerCase :: "string \<Rightarrow> string" where
  "toLowerCase s = map lower_char s"

definition str_includes :: "string \<Rightarrow> string \<Rightarrow> bool" where
  "str_includes s t \<longleftrightarrow> sublist t s"

lemma str_includes_code [code]: "str_includes s t \<longleftrightarrow> (\<exists>n \<in> set [0..<Suc (length s)]. prefix t (drop n s))"
proof
  assume "str_includes s t"
  then obtain ps ss where "s = ps @ t @ ss" by (auto simp: str_includes_def sublist_def)
  then show "\<exists>n \<in> set [0..<Suc (length s)]. prefix t (drop n s)"
    by (intro bexI[of _ "length ps"]) (auto simp: less_Suc_eq_le)
next
  assume "\<exists>n \<in> set [0..<Suc (length s)]. prefix t (drop n s)"
  then obtain n where "prefix t (drop n s)" by blast
  then show "str_includes s t"
    unfolding str_includes_def
    by (meson prefix_imp_sublist sublist_drop sublist_order.order.trans)
qed

lemma dropWhile_dropWhile [simp]: "dropWhile P (dropWhile P xs) = dropWhile P xs"
  by (induction xs) auto

lemma dropWhile_rev_dropWhile:
  "dropWhile P (rev (dropWhile P (rev (dropWhile P xs)))) = rev (dropWhile P (rev (dropWhile P xs)))"
proof (cases "dropWhile P xs")
  case Nil
  show ?thesis unfolding Nil by simp
next
  case (Cons y ys)
  then have "\<not> P y" by (metis dropWhile_eq_Cons_conv)
  then show ?thesis by (simp add: Cons dropWhile_append)
qed

lemma trim_trim [simp]: "trim (trim s) = trim s"
  by (simp add: trim_def dropWhile_rev_dropWhile)

lemma blank_iff: "blank s \<longleftrightarrow> trim s = []"
  by (auto simp: blank_def trim_def)

lemma blank_trim [simp]: "blank (trim s) = blank s"
  by (simp add: blank_iff)

lemma trim_eq_Nil_iff: "trim s = [] \<longleftrightarrow> (\<forall>c \<in> set s. js_space c)"
proof
  assume "trim s = []"
  then have all: "\<forall>c \<in> set (dropWhile js_space s). js_space c"
    by (simp add: trim_def dropWhile_eq_Nil_conv)
  have "dropWhile js_space s = []"
  proof (rule ccontr)
    assume ne: "dropWhile js_space s \<noteq> []"
    then have "\<not> js_space (hd (dropWhile js_space s))" by (rule hd_dropWhile)
    moreover have "hd (dropWhile js_space s) \<in> set (dropWhile js_space s)" using ne by (rule hd_in_set)
    ultimately show False using all by blast
  qed
  then show "\<forall>c \<in> set s. js_space c" by (simp add: dropWhile_eq_Nil_conv)
next
  assume "\<forall>c \<in> set s. js_space c"
  then show "trim s = []" by (auto simp: trim_def dest: set_dropWhileD)
qed

lemma not_blankD: "\<not> blank s \<Longrightarrow> s \<noteq> []"
  by (auto simp: blank_def)

lemma of_char_upper_char:
  "(of_char (upper_char c) :: nat) =
     (if 97 \<le> (of_char c :: nat) \<and> (of_char c :: nat) \<le> 122 then of_char c - 32 else of_char c)"
proof -
  have "(of_char c :: nat) < 256" by simp
  then have "(of_char c - 32 :: nat) mod 256 = of_char c - 32" by (intro mod_less) linarith
  then show ?thesis by (simp add: upper_char_def Let_def)
qed

lemma upper_char_idem [simp]: "upper_char (upper_char c) = upper_char c"
  unfolding upper_char_def [of "upper_char c"] Let_def of_char_upper_char by auto

lemma js_space_upper_char [simp]: "js_space (upper_char c) = js_space c"
proof (cases "97 \<le> (of_char c :: nat) \<and> (of_char c :: nat) \<le> 122")
  case True
  have "(of_char (upper_char c) :: nat) = of_char c - 32" using True by (simp add: of_char_upper_char)
  with True have "65 \<le> (of_char (upper_char c) :: nat)" "(of_char (upper_char c) :: nat) \<le> 90" by auto
  with True show ?thesis by (auto simp: js_space_def)
next
  case False
  then show ?thesis by (auto simp: upper_char_def Let_def)
qed

lemma toUpperCase_idem [simp]: "toUpperCase (toUpperCase s) = toUpperCase s"
  by (simp add: toUpperCase_def)

lemma blank_toUpperCase [simp]: "blank (toUpperCase s) = blank s"
  by (simp add: blank_iff trim_eq_Nil_iff toUpperCase_def)

text \<open>
  An optional string is \<^term>\<open>None\<close> for \<open>undefined\<close>; the empty string is falsy too.
  \<open>js_or\<close> is the operator \<open>||\<close>, and \<open>or_default\<close> is \<open>s || literal\<close>.
\<close>

fun truthy :: "string option \<Rightarrow> bool" where
  "truthy None = False"
| "truthy (Some s) = (s \<noteq> [])"

definition js_or :: "string option \<Rightarrow> string option \<Rightarrow> string option" where
  "js_or a b = (if truthy a then a else b)"

definition or_default :: "string option \<Rightarrow> string \<Rightarrow> string" where
  "or_default a d = (case a of Some s \<Rightarrow> if s = [] then d else s | None \<Rightarrow> d)"

lemma truthy_js_or [simp]: "truthy (js_or a b) \<longleftrightarrow> truthy a \<or> truthy b"
  by (simp add: js_or_def)

lemma truthyE: "truthy a \<Longrightarrow> (\<And>s. a = Some s \<Longrightarrow> s \<noteq> [] \<Longrightarrow> thesis) \<Longrightarrow> thesis"
  by (cases a) auto

section \<open>Numbers\<close>

text \<open>
  A number that reaches a constructor is an integer, or anything else: a fraction, \<open>NaN\<close>
  or an infinity. All the code does with the latter is to reject it (\<open>Number.isInteger\<close>)
  and to print it, so it is given by what \<open>String(x)\<close> prints.
\<close>

datatype jsnum = JInt int | JNonInt string

fun isInteger :: "jsnum \<Rightarrow> bool" where
  "isInteger (JInt _) = True"
| "isInteger (JNonInt _) = False"

definition digit :: "nat \<Rightarrow> char" where
  "digit n = char_of (48 + n)"

fun show_nat :: "nat \<Rightarrow> string" where
  "show_nat n = (if n < 10 then [digit n] else show_nat (n div 10) @ [digit (n mod 10)])"

declare show_nat.simps [simp del]

definition show_int :: "int \<Rightarrow> string" where
  "show_int i = (if i < 0 then CHR ''-'' # show_nat (nat (- i)) else show_nat (nat i))"

fun show_num :: "jsnum \<Rightarrow> string" where
  "show_num (JInt i) = show_int i"
| "show_num (JNonInt s) = s"

text \<open>Reading the digits back: the printed form of a natural number determines it.\<close>

definition digit_val :: "char \<Rightarrow> nat" where
  "digit_val c = of_char c - 48"

definition read_nat :: "string \<Rightarrow> nat" where
  "read_nat s = foldl (\<lambda>acc c. 10 * acc + digit_val c) 0 s"

lemma digit_val_digit [simp]: "n < 10 \<Longrightarrow> digit_val (digit n) = n"
  by (simp add: digit_val_def digit_def)

lemma read_show_nat [simp]: "read_nat (show_nat n) = n"
proof (induction n rule: show_nat.induct)
  case (1 n)
  show ?case
  proof (cases "n < 10")
    case True
    then show ?thesis by (simp add: show_nat.simps [of n] read_nat_def)
  next
    case False
    with "1.IH" have "read_nat (show_nat (n div 10)) = n div 10" by simp
    with False show ?thesis by (simp add: show_nat.simps [of n] read_nat_def)
  qed
qed

lemma show_nat_inject [simp]: "show_nat m = show_nat n \<longleftrightarrow> m = n"
  by (metis read_show_nat)

text \<open>
  For evaluation the same functions on binary integers: natural numbers are unary there.
\<close>

lemma char_of_int: "char_of (int n) = char_of n"
  by (rule char_of_nat)

lemma of_char_int: "(of_char c :: int) = int (of_char c)"
  by (rule of_nat_of_char [symmetric])

lemma char_nat_le [code_unfold]:
  "(numeral k \<le> (of_char c :: nat)) = (numeral k \<le> (of_char c :: int))"
  "((of_char c :: nat) \<le> numeral k) = ((of_char c :: int) \<le> numeral k)"
  "((of_char c :: nat) < numeral k) = ((of_char c :: int) < numeral k)"
  unfolding of_char_int by auto

lemma upper_char_code [code]:
  "upper_char c = (let i = of_char c :: int in if 97 \<le> i \<and> i \<le> 122 then char_of (i - 32) else c)"
proof -
  have "char_of (int (of_char c) - 32) = char_of (of_char c - 32 :: nat)" if "97 \<le> (of_char c :: nat)"
    using char_of_int [of "of_char c - 32"] that by (simp add: of_nat_diff)
  then show ?thesis unfolding upper_char_def of_char_int Let_def by auto
qed

lemma lower_char_code [code]:
  "lower_char c = (let i = of_char c :: int in if 65 \<le> i \<and> i \<le> 90 then char_of (i + 32) else c)"
  using char_of_int [of "of_char c + 32"] unfolding lower_char_def of_char_int Let_def by auto

function show_dec :: "int \<Rightarrow> string" where
  "show_dec i = (if i < 10 then [char_of (48 + max 0 i)] else show_dec (i div 10) @ [char_of (48 + i mod 10)])"
  by auto
termination by (relation "measure nat") auto

declare show_dec.simps [simp del]

lemma show_dec: "show_dec i = show_nat (nat i)"
proof (induction i rule: show_dec.induct)
  case (1 i)
  have dig: "char_of (48 + int n) = digit n" for n using char_of_int [of "48 + n"] by (simp add: digit_def)
  show ?case
  proof (cases "i < 10")
    case True
    then show ?thesis using dig [of "nat i"] by (simp add: show_dec.simps [of i] show_nat.simps [of "nat i"] max_def)
  next
    case False
    then have "nat i div 10 = nat (i div 10)" "int (nat i mod 10) = i mod 10" by (simp_all add: nat_div_distrib zmod_int)
    then show ?thesis
      using False "1.IH" dig [of "nat i mod 10"] by (simp add: show_dec.simps [of i] show_nat.simps [of "nat i"])
  qed
qed

lemma show_nat_code [code]: "show_nat n = show_dec (int n)"
  by (simp add: show_dec)

lemma show_int_code [code]: "show_int i = (if i < 0 then CHR ''-'' # show_dec (- i) else show_dec i)"
  by (simp add: show_int_def show_dec)

section \<open>Dates\<close>

text \<open>
  A valid \<open>Date\<close> is its epoch milliseconds. \<open>toISOString\<close> is the proleptic Gregorian
  calendar in UTC: days since the epoch are split into 400-year eras that begin in March.
\<close>

type_synonym date = int

definition civil :: "int \<Rightarrow> int \<times> int \<times> int" where
  "civil days =
     (let z = days + 719468;
          era = z div 146097;
          doe = z mod 146097;
          yoe = (doe - doe div 1460 + doe div 36524 - doe div 146096) div 365;
          doy = doe - (365 * yoe + yoe div 4 - yoe div 100);
          mp = (5 * doy + 2) div 153;
          d = doy - (153 * mp + 2) div 5 + 1;
          m = (if mp < 10 then mp + 3 else mp - 9);
          y = yoe + era * 400 + (if m \<le> 2 then 1 else 0)
      in (y, m, d))"

definition pad :: "nat \<Rightarrow> int \<Rightarrow> string" where
  "pad w n = (let s = show_nat (nat n) in replicate (w - length s) (CHR ''0'') @ s)"

lemma pad_code [code]: "pad w n = (let s = show_dec n in replicate (w - length s) (CHR ''0'') @ s)"
  by (simp add: pad_def show_dec)

definition iso_year :: "int \<Rightarrow> string" where
  "iso_year y = (if y < 0 then CHR ''-'' # pad 6 (- y)
     else if 9999 < y then CHR ''+'' # pad 6 y else pad 4 y)"

definition toISOString :: "date \<Rightarrow> string" where
  "toISOString t =
     (let (y, m, d) = civil (t div 86400000); r = t mod 86400000
      in iso_year y @ ''-'' @ pad 2 m @ ''-'' @ pad 2 d @ ''T'' @
         pad 2 (r div 3600000) @ '':'' @ pad 2 (r div 60000 mod 60) @ '':'' @
         pad 2 (r div 1000 mod 60) @ ''.'' @ pad 3 (r mod 1000) @ ''Z'')"

section \<open>Errors\<close>

text \<open>
  One constructor per error class the sources throw, with the arguments of its constructor.
  \<open>DatabaseError\<close> is what the Postgres driver raises for a violated constraint or a
  value that does not fit its column.
\<close>

datatype js_error =
    Error string
  | InvalidTimeWindowError string
  | InvalidMoneyError string
  | InvalidCapacityError string
  | EmptyTicketTypesError
  | InvalidStateTransitionError string string
  | InsufficientInventoryError string
  | ReservationExpiredError string
  | PrematureExpirationError string
  | TransientError string
  | PermanentPoisonError string
  | DatabaseError string

fun message :: "js_error \<Rightarrow> string" where
  "message (Error m) = m"
| "message (InvalidTimeWindowError m) = m"
| "message (InvalidMoneyError m) = m"
| "message (InvalidCapacityError m) = m"
| "message EmptyTicketTypesError =
     ''Event must have at least one ticket type before scheduling or publishing''"
| "message (InvalidStateTransitionError fromStatus toStatus) =
     ''Cannot transition event status from '' @ fromStatus @ '' to '' @ toStatus"
| "message (InsufficientInventoryError m) = m"
| "message (ReservationExpiredError m) = m"
| "message (PrematureExpirationError m) = m"
| "message (TransientError m) = m"
| "message (PermanentPoisonError m) = m"
| "message (DatabaseError m) = m"

text \<open>\<open>err instanceof DomainError\<close>.\<close>

fun is_DomainError :: "js_error \<Rightarrow> bool" where
  "is_DomainError (InvalidTimeWindowError _) = True"
| "is_DomainError (InvalidMoneyError _) = True"
| "is_DomainError (InvalidCapacityError _) = True"
| "is_DomainError EmptyTicketTypesError = True"
| "is_DomainError (InvalidStateTransitionError _ _) = True"
| "is_DomainError (InsufficientInventoryError _) = True"
| "is_DomainError (ReservationExpiredError _) = True"
| "is_DomainError (PrematureExpirationError _) = True"
| "is_DomainError _ = False"

section \<open>Results that may throw\<close>

type_synonym 'a result = "js_error + 'a"

fun rbind :: "'a result \<Rightarrow> ('a \<Rightarrow> 'b result) \<Rightarrow> 'b result" where
  "rbind (Inl e) f = Inl e"
| "rbind (Inr x) f = f x"

text \<open>
  A method that mutates its object may throw after some of the mutations: its outcome is
  the optional error and the object as it is left.
\<close>

type_synonym 's outcome = "js_error option \<times> 's"

lemma rbind_eq_Inr [simp]: "rbind m f = Inr y \<longleftrightarrow> (\<exists>x. m = Inr x \<and> f x = Inr y)"
  by (cases m) auto

lemma rbind_eq_Inl: "rbind m f = Inl e \<longleftrightarrow> m = Inl e \<or> (\<exists>x. m = Inr x \<and> f x = Inl e)"
  by (cases m) auto

section \<open>Insertion-ordered maps\<close>

type_synonym ('k, 'v) jsmap = "('k \<times> 'v) list"

lemma map_of_update [simp]: "map_of (AList.update k v m) = (map_of m)(k \<mapsto> v)"
  by (rule update_conv')

lemma map_of_delete [simp]: "map_of (AList.delete k m) = (map_of m)(k := None)"
  by (rule delete_conv')

lemma distinct_keys_update [simp]:
  "distinct (map fst m) \<Longrightarrow> distinct (map fst (AList.update k v m))"
  by (rule distinct_update)

lemma AList_update_new: "k \<notin> fst ` set m \<Longrightarrow> AList.update k v m = m @ [(k, v)]"
  by (induction m) auto

lemma fold_update_new:
  "distinct (map fst acc @ map f xs) \<Longrightarrow>
     fold (\<lambda>x. AList.update (f x) (g x)) xs acc = acc @ map (\<lambda>x. (f x, g x)) xs"
proof (induction xs arbitrary: acc)
  case Nil
  then show ?case by simp
next
  case (Cons x xs)
  have "AList.update (f x) (g x) acc = acc @ [(f x, g x)]"
    using Cons.prems by (intro AList_update_new) auto
  with Cons show ?case by simp
qed

lemma find_append: "find P (xs @ ys) = (case find P xs of None \<Rightarrow> find P ys | Some x \<Rightarrow> Some x)"
  by (induction xs) auto

section \<open>The clock\<close>

text \<open>
  \<^verbatim>\<open>src/src/shared/domain/Clock.ts\<close>. The operations of the model take the instant their clock
  shows as an argument, so \<open>SystemClock\<close> is any argument at all; \<open>TestClock\<close> stands still until
  it is moved.
\<close>

record testClock =
  currentTime :: date

definition new_TestClock :: "date option \<Rightarrow> testClock" where
  "new_TestClock initialTime = \<lparr>currentTime = (case initialTime of None \<Rightarrow> 1790856000000 | Some t \<Rightarrow> t)\<rparr>"

definition clock_now :: "testClock \<Rightarrow> date" where
  "clock_now c = currentTime c"

definition setNow :: "date \<Rightarrow> testClock \<Rightarrow> testClock" where
  "setNow d c = c\<lparr>currentTime := d\<rparr>"

definition advanceByMs :: "int \<Rightarrow> testClock \<Rightarrow> testClock" where
  "advanceByMs ms c = c\<lparr>currentTime := currentTime c + ms\<rparr>"

definition advanceByMinutes :: "int \<Rightarrow> testClock \<Rightarrow> testClock" where
  "advanceByMinutes minutes c = advanceByMs (minutes * 60 * 1000) c"

lemma advance_advance:
  "advanceByMs a (advanceByMs b c) = advanceByMs (a + b) c"
  "advanceByMinutes m (advanceByMinutes n c) = advanceByMinutes (m + n) c"
  by (simp_all add: advanceByMs_def advanceByMinutes_def algebra_simps)

section \<open>Interfaces shared by the components\<close>

text \<open>
  Operations whose every single step relates the state before to the state after by a
  preorder (an invariant kept, a log that only grows, fields that never change): so does
  every sequence of them.
\<close>

locale related_steps =
  fixes step :: "'op \<Rightarrow> 's \<Rightarrow> 's"
    and rel :: "'s \<Rightarrow> 's \<Rightarrow> bool"
  assumes rel_refl: "rel s s"
    and rel_trans: "rel s t \<Longrightarrow> rel t u \<Longrightarrow> rel s u"
    and rel_step: "rel s (step a s)"
begin

lemma run_rel: "rel s (fold step as s)"
proof (induction as arbitrary: s)
  case Nil
  show ?case by (simp add: rel_refl)
next
  case (Cons a as)
  have "rel s (step a s)" by (rule rel_step)
  also have "rel (step a s) (fold step as (step a s))" by (rule Cons.IH)
  finally (rel_trans) show ?case by simp
qed

lemma run_append_rel: "rel (fold step as s) (fold step (as @ bs) s)"
  using run_rel [of "fold step as s" bs] by simp

end

locale invariant_steps =
  fixes step :: "'op \<Rightarrow> 's \<Rightarrow> 's"
    and inv :: "'s \<Rightarrow> bool"
  assumes inv_step: "inv s \<Longrightarrow> inv (step a s)"
begin

sublocale keep: related_steps step "\<lambda>s t. inv s \<longrightarrow> inv t"
  by unfold_locales (auto intro: inv_step)

lemma run_inv: "inv s \<Longrightarrow> inv (fold step as s)"
  using keep.run_rel by blast

end

text \<open>
  A repository keyed by an identifier of the stored object, as the two in-memory
  repositories of the order module are: \<open>save\<close> makes the object the one found under its
  key and touches no other key.
\<close>

locale keyed_repository =
  fixes key_of :: "'v \<Rightarrow> 'k"
    and save :: "'v \<Rightarrow> 'r \<Rightarrow> 'r"
    and findById :: "'k \<Rightarrow> 'r \<Rightarrow> 'v option"
  assumes find_save: "findById k (save v r) = (if k = key_of v then Some v else findById k r)"
begin

lemma find_save_same: "findById (key_of v) (save v r) = Some v"
  by (simp add: find_save)

lemma find_save_other: "k \<noteq> key_of v \<Longrightarrow> findById k (save v r) = findById k r"
  by (simp add: find_save)

lemma save_twice: "key_of v = key_of w \<Longrightarrow> findById k (save w (save v r)) = findById k (save w r)"
  by (simp add: find_save)

lemma save_comm:
  "key_of v \<noteq> key_of w \<Longrightarrow> findById k (save w (save v r)) = findById k (save v (save w r))"
  by (simp add: find_save)

lemma save_keeps_all:
  assumes "\<And>k v. findById k r = Some v \<Longrightarrow> P k v" and "P (key_of w) w"
    and "findById k (save w r) = Some v"
  shows "P k v"
  using assms by (auto simp: find_save split: if_splits)

end

end
