(* ===== verification/LP_Inventory.thy ===== *)
theory LP_Inventory
  imports LP_Prelude
begin

text \<open>
  The inventory domain, \<^verbatim>\<open>src/src/modules/inventory/domain\<close>: the \<open>InventoryPool\<close>
  aggregate that divides a ticket type's capacity into available, reserved and sold, and the
  \<open>Reservation\<close> entity with its state machine. The pool is refined against a seat-level
  specification in which every single seat is available, reserved or sold.
\<close>

section \<open>InventoryPool\<close>

record inventoryPool =
  pool_ticketTypeId :: string
  totalCapacity :: int
  availableQuantity :: int
  reservedQuantity :: int
  soldQuantity :: int

definition new_InventoryPool :: "string \<Rightarrow> jsnum \<Rightarrow> inventoryPool result" where [ctor_defs]:
  "new_InventoryPool ticketTypeId capacity =
     (if blank ticketTypeId then Inl (Error ''TicketType ID cannot be empty'')
      else case capacity of
        JNonInt s \<Rightarrow> Inl (InvalidCapacityError
          (''Total capacity must be a positive integer > 0. Received: '' @ show_num capacity))
      | JInt n \<Rightarrow>
          if n \<le> 0 then Inl (InvalidCapacityError
            (''Total capacity must be a positive integer > 0. Received: '' @ show_num capacity))
          else Inr \<lparr>pool_ticketTypeId = ticketTypeId, totalCapacity = n, availableQuantity = n,
                    reservedQuantity = 0, soldQuantity = 0\<rparr>)"

text \<open>
  The private check at the end of each mutator. It throws after the quantities were changed,
  so a mutator's outcome pairs the error with the pool as it was left.
\<close>

definition assertCapacityInvariant :: "inventoryPool \<Rightarrow> js_error option" where
  "assertCapacityInvariant p =
     (if availableQuantity p + reservedQuantity p + soldQuantity p \<noteq> totalCapacity p
      then Some (Error ''Capacity invariant violated! Total capacity does not equal Available + Reserved + Sold.'')
      else None)"

definition reserve :: "jsnum \<Rightarrow> inventoryPool \<Rightarrow> inventoryPool outcome" where [op_defs]:
  "reserve quantity p =
     (case quantity of
        JNonInt _ \<Rightarrow> (Some (Error ''Reserve quantity must be a positive integer''), p)
      | JInt n \<Rightarrow>
          if n \<le> 0 then (Some (Error ''Reserve quantity must be a positive integer''), p)
          else if availableQuantity p < n then
            (Some (InsufficientInventoryError (''Cannot reserve '' @ show_int n @ '' tickets. Only '' @
               show_int (availableQuantity p) @ '' available.'')), p)
          else let p' = p\<lparr>availableQuantity := availableQuantity p - n,
                          reservedQuantity := reservedQuantity p + n\<rparr>
               in (assertCapacityInvariant p', p'))"

definition release :: "jsnum \<Rightarrow> inventoryPool \<Rightarrow> inventoryPool outcome" where [op_defs]:
  "release quantity p =
     (case quantity of
        JNonInt _ \<Rightarrow> (Some (Error ''Release quantity must be a positive integer''), p)
      | JInt n \<Rightarrow>
          if n \<le> 0 then (Some (Error ''Release quantity must be a positive integer''), p)
          else if reservedQuantity p < n then
            (Some (Error (''Cannot release '' @ show_int n @ '' tickets. Only '' @
               show_int (reservedQuantity p) @ '' reserved.'')), p)
          else let p' = p\<lparr>reservedQuantity := reservedQuantity p - n,
                          availableQuantity := availableQuantity p + n\<rparr>
               in (assertCapacityInvariant p', p'))"

definition fulfill :: "jsnum \<Rightarrow> inventoryPool \<Rightarrow> inventoryPool outcome" where [op_defs]:
  "fulfill quantity p =
     (case quantity of
        JNonInt _ \<Rightarrow> (Some (Error ''Fulfill quantity must be a positive integer''), p)
      | JInt n \<Rightarrow>
          if n \<le> 0 then (Some (Error ''Fulfill quantity must be a positive integer''), p)
          else if reservedQuantity p < n then
            (Some (Error (''Cannot fulfill '' @ show_int n @ '' tickets. Only '' @
               show_int (reservedQuantity p) @ '' reserved.'')), p)
          else let p' = p\<lparr>reservedQuantity := reservedQuantity p - n,
                          soldQuantity := soldQuantity p + n\<rparr>
               in (assertCapacityInvariant p', p'))"

datatype pool_op = Reserve jsnum | Release jsnum | Fulfill jsnum

fun pool_call :: "pool_op \<Rightarrow> inventoryPool \<Rightarrow> inventoryPool outcome" where
  "pool_call (Reserve q) p = reserve q p"
| "pool_call (Release q) p = release q p"
| "pool_call (Fulfill q) p = fulfill q p"

definition pool_step :: "pool_op \<Rightarrow> inventoryPool \<Rightarrow> inventoryPool" where
  "pool_step a p = snd (pool_call a p)"

section \<open>The capacity invariant\<close>

definition wf_pool :: "inventoryPool \<Rightarrow> bool" where
  "wf_pool p \<longleftrightarrow>
     0 < totalCapacity p \<and> 0 \<le> availableQuantity p \<and> 0 \<le> reservedQuantity p \<and> 0 \<le> soldQuantity p \<and>
     availableQuantity p + reservedQuantity p + soldQuantity p = totalCapacity p"

lemma new_InventoryPool_wf: "new_InventoryPool i cap = Inr p \<Longrightarrow> wf_pool p"
  by (auto simp: ctor_defs wf_pool_def split: if_splits jsnum.splits)

lemma assert_wf [simp]: "wf_pool p \<Longrightarrow> assertCapacityInvariant p = None"
  by (simp add: wf_pool_def assertCapacityInvariant_def)

text \<open>The amount an operation asks for, when it is one the guards accept.\<close>

fun op_quantity :: "pool_op \<Rightarrow> int option" where
  "op_quantity (Reserve (JInt n)) = (if 0 < n then Some n else None)"
| "op_quantity (Release (JInt n)) = (if 0 < n then Some n else None)"
| "op_quantity (Fulfill (JInt n)) = (if 0 < n then Some n else None)"
| "op_quantity _ = None"

text \<open>Where the operation takes tickets from.\<close>

fun op_source :: "pool_op \<Rightarrow> inventoryPool \<Rightarrow> int" where
  "op_source (Reserve _) p = availableQuantity p"
| "op_source (Release _) p = reservedQuantity p"
| "op_source (Fulfill _) p = reservedQuantity p"

fun op_effect :: "pool_op \<Rightarrow> int \<Rightarrow> inventoryPool \<Rightarrow> inventoryPool" where
  "op_effect (Reserve _) n p =
     p\<lparr>availableQuantity := availableQuantity p - n, reservedQuantity := reservedQuantity p + n\<rparr>"
| "op_effect (Release _) n p =
     p\<lparr>reservedQuantity := reservedQuantity p - n, availableQuantity := availableQuantity p + n\<rparr>"
| "op_effect (Fulfill _) n p =
     p\<lparr>reservedQuantity := reservedQuantity p - n, soldQuantity := soldQuantity p + n\<rparr>"

lemma op_effect_wf:
  "wf_pool p \<Longrightarrow> 0 < n \<Longrightarrow> n \<le> op_source a p \<Longrightarrow> wf_pool (op_effect a n p)"
  by (cases a) (auto simp: wf_pool_def)

text \<open>On a well-formed pool the assertion never fires: a call either has its effect and
  returns, or throws and changes nothing.\<close>

lemma pool_call_cases:
  assumes "wf_pool p"
  obtains (ok) n where "op_quantity a = Some n" "0 < n" "n \<le> op_source a p"
      "pool_call a p = (None, op_effect a n p)"
  | (refused) err where "\<forall>n. op_quantity a = Some n \<longrightarrow> op_source a p < n"
      "pool_call a p = (Some err, p)"
proof (cases "op_quantity a")
  case None
  then have "\<exists>err. pool_call a p = (Some err, p)"
    by (cases a rule: op_quantity.cases) (auto simp: op_defs split: if_splits)
  with None refused show ?thesis by auto
next
  case (Some n)
  then have n: "0 < n" by (cases a rule: op_quantity.cases) (auto split: if_splits)
  show ?thesis
  proof (cases "n \<le> op_source a p")
    case True
    then have "assertCapacityInvariant (op_effect a n p) = None"
      using op_effect_wf [OF assms n] by simp
    then have "pool_call a p = (None, op_effect a n p)"
      using Some True by (cases a rule: op_quantity.cases) (auto simp: op_defs Let_def split: if_splits)
    with Some n True ok show ?thesis by blast
  next
    case False
    then have "\<exists>err. pool_call a p = (Some err, p)"
      using Some by (cases a rule: op_quantity.cases) (auto simp: op_defs split: if_splits)
    with Some False refused show ?thesis by auto
  qed
qed

lemma pool_step_wf: "wf_pool p \<Longrightarrow> wf_pool (pool_step a p)"
  by (rule pool_call_cases [of p a]) (auto simp: pool_step_def op_effect_wf)

interpretation pool_inv: invariant_steps pool_step wf_pool
  by unfold_locales (rule pool_step_wf)

lemma pool_step_capacity [simp]: "totalCapacity (pool_step a p) = totalCapacity p"
  by (cases a) (auto simp: pool_step_def op_defs Let_def split: jsnum.splits)

lemma pool_run_capacity [simp]: "totalCapacity (fold pool_step as p) = totalCapacity p"
  by (induction as arbitrary: p) auto

section \<open>The seat-level specification\<close>

text \<open>
  What a pool promises: each of its seats is available, reserved or sold, an operation moves
  as many seats as it was asked to from one state to another, and one that cannot be served
  in full is refused and moves none. Which seats move is not determined.
\<close>

datatype seat = Available | Reserved | Sold

type_synonym seating = "nat \<Rightarrow> seat"

definition seats_in :: "nat \<Rightarrow> seat \<Rightarrow> seating \<Rightarrow> nat set" where
  "seats_in cap st f = {i. i < cap \<and> f i = st}"

definition move_seats :: "nat set \<Rightarrow> seat \<Rightarrow> seating \<Rightarrow> seating" where
  "move_seats S st f = (\<lambda>i. if i \<in> S then st else f i)"

fun op_from :: "pool_op \<Rightarrow> seat" where
  "op_from (Reserve _) = Available"
| "op_from (Release _) = Reserved"
| "op_from (Fulfill _) = Reserved"

fun op_to :: "pool_op \<Rightarrow> seat" where
  "op_to (Reserve _) = Reserved"
| "op_to (Release _) = Available"
| "op_to (Fulfill _) = Sold"

inductive seat_step :: "nat \<Rightarrow> pool_op \<Rightarrow> seating \<Rightarrow> seating \<Rightarrow> bool" for cap where
  moved: "op_quantity a = Some n \<Longrightarrow> S \<subseteq> seats_in cap (op_from a) f \<Longrightarrow> int (card S) = n \<Longrightarrow>
    seat_step cap a f (move_seats S (op_to a) f)"
| refused: "(\<forall>n. op_quantity a = Some n \<longrightarrow> int (card (seats_in cap (op_from a) f)) < n) \<Longrightarrow>
    seat_step cap a f f"

inductive seat_run :: "nat \<Rightarrow> pool_op list \<Rightarrow> seating \<Rightarrow> seating \<Rightarrow> bool" for cap where
  run_Nil: "seat_run cap [] f f"
| run_Cons: "seat_step cap a f g \<Longrightarrow> seat_run cap as g h \<Longrightarrow> seat_run cap (a # as) f h"

text \<open>The pool's counters count seats.\<close>

definition counts :: "inventoryPool \<Rightarrow> seating \<Rightarrow> bool" where
  "counts p f \<longleftrightarrow>
     (let cap = nat (totalCapacity p) in
      availableQuantity p = int (card (seats_in cap Available f)) \<and>
      reservedQuantity p = int (card (seats_in cap Reserved f)) \<and>
      soldQuantity p = int (card (seats_in cap Sold f)))"

lemma finite_seats_in [simp]: "finite (seats_in cap st f)"
  by (simp add: seats_in_def)

lemma seats_in_move_from:
  "S \<subseteq> seats_in cap a f \<Longrightarrow> a \<noteq> b \<Longrightarrow> seats_in cap a (move_seats S b f) = seats_in cap a f - S"
  by (auto simp: seats_in_def move_seats_def)

lemma seats_in_move_to:
  "S \<subseteq> seats_in cap a f \<Longrightarrow> seats_in cap b (move_seats S b f) = seats_in cap b f \<union> S"
  by (auto simp: seats_in_def move_seats_def)

lemma seats_in_move_other:
  "S \<subseteq> seats_in cap a f \<Longrightarrow> c \<noteq> a \<Longrightarrow> c \<noteq> b \<Longrightarrow>
     seats_in cap c (move_seats S b f) = seats_in cap c f"
  by (auto simp: seats_in_def move_seats_def)

lemma card_move_from:
  assumes "S \<subseteq> seats_in cap a f" "a \<noteq> b"
  shows "int (card (seats_in cap a (move_seats S b f))) = int (card (seats_in cap a f)) - int (card S)"
  using assms by (simp add: seats_in_move_from card_Diff_subset finite_subset of_nat_diff card_mono)

lemma card_move_to:
  assumes "S \<subseteq> seats_in cap a f" "a \<noteq> b"
  shows "int (card (seats_in cap b (move_seats S b f))) = int (card (seats_in cap b f)) + int (card S)"
proof -
  have "seats_in cap b f \<inter> S = {}" using assms by (auto simp: seats_in_def)
  moreover have "finite S" using assms(1) finite_subset by fastforce
  ultimately show ?thesis using assms(1) by (simp add: seats_in_move_to card_Un_disjoint)
qed

lemma op_source_counts:
  "counts p f \<Longrightarrow> op_source a p = int (card (seats_in (nat (totalCapacity p)) (op_from a) f))"
  by (cases a) (auto simp: counts_def Let_def)

lemma op_effect_counts:
  assumes "counts p f" "S \<subseteq> seats_in (nat (totalCapacity p)) (op_from a) f" "int (card S) = n"
  shows "counts (op_effect a n p) (move_seats S (op_to a) f)"
  using assms
  by (cases a) (auto simp: counts_def Let_def card_move_from card_move_to seats_in_move_other)

lemma pool_step_simulates:
  assumes "wf_pool p" "counts p f"
  obtains g where "seat_step (nat (totalCapacity p)) a f g" "counts (pool_step a p) g"
proof (rule pool_call_cases [OF assms(1), of a])
  fix n
  assume n: "op_quantity a = Some n" "0 < n" "n \<le> op_source a p"
    and call: "pool_call a p = (None, op_effect a n p)"
  have "nat n \<le> card (seats_in (nat (totalCapacity p)) (op_from a) f)"
    using n(3) by (simp add: op_source_counts [OF assms(2)])
  then obtain S where S: "S \<subseteq> seats_in (nat (totalCapacity p)) (op_from a) f" "card S = nat n"
    by (rule obtain_subset_with_card_n)
  then have "seat_step (nat (totalCapacity p)) a f (move_seats S (op_to a) f)"
    using n by (intro seat_step.moved [of a n]) auto
  moreover have "counts (pool_step a p) (move_seats S (op_to a) f)"
    using op_effect_counts [OF assms(2) S(1), of n] S(2) n(2) call by (simp add: pool_step_def)
  ultimately show thesis by (rule that)
next
  fix err
  assume "\<forall>n. op_quantity a = Some n \<longrightarrow> op_source a p < n" "pool_call a p = (Some err, p)"
  then have "seat_step (nat (totalCapacity p)) a f f" "counts (pool_step a p) f"
    using assms(2) by (auto simp: op_source_counts pool_step_def intro: seat_step.refused)
  then show thesis by (rule that)
qed

lemma pool_run_simulates:
  assumes "wf_pool p" "counts p f"
  shows "\<exists>g. seat_run (nat (totalCapacity p)) as f g \<and> counts (fold pool_step as p) g"
  using assms
proof (induction as arbitrary: p f)
  case Nil
  then show ?case by (auto intro: run_Nil)
next
  case (Cons a as)
  obtain g where g: "seat_step (nat (totalCapacity p)) a f g" "counts (pool_step a p) g"
    by (rule pool_step_simulates [OF Cons.prems])
  have "\<exists>h. seat_run (nat (totalCapacity (pool_step a p))) as g h \<and> counts (fold pool_step as (pool_step a p)) h"
    using pool_step_wf [OF Cons.prems(1)] g(2) by (rule Cons.IH)
  with g(1) show ?case by (auto intro: run_Cons)
qed

lemma seat_step_sold: "seat_step cap a f g \<Longrightarrow> seats_in cap Sold f \<subseteq> seats_in cap Sold g"
  by (cases a; erule seat_step.cases) (auto simp: seats_in_def move_seats_def)

lemma seat_run_sold: "seat_run cap as f g \<Longrightarrow> seats_in cap Sold f \<subseteq> seats_in cap Sold g"
  by (induction rule: seat_run.induct) (auto dest: seat_step_sold)

section \<open>Reservation\<close>

datatype ReservationStatus = PENDING | PAYMENT_PENDING | CONFIRMED | EXPIRED | CANCELLED

fun reservation_status_str :: "ReservationStatus \<Rightarrow> string" where
  "reservation_status_str ReservationStatus.PENDING = ''PENDING''"
| "reservation_status_str ReservationStatus.PAYMENT_PENDING = ''PAYMENT_PENDING''"
| "reservation_status_str ReservationStatus.CONFIRMED = ''CONFIRMED''"
| "reservation_status_str ReservationStatus.EXPIRED = ''EXPIRED''"
| "reservation_status_str ReservationStatus.CANCELLED = ''CANCELLED''"

record reservation =
  res_id :: string
  res_userId :: string
  res_ticketTypeId :: string
  res_quantity :: int
  res_createdAt :: date
  res_expiresAt :: date
  res_status :: ReservationStatus

definition new_Reservation ::
    "string \<Rightarrow> string \<Rightarrow> string \<Rightarrow> jsnum \<Rightarrow> date \<Rightarrow> date \<Rightarrow> ReservationStatus \<Rightarrow> reservation result"
    where [ctor_defs]:
  "new_Reservation i userId ticketTypeId quantity createdAt expiresAt status =
     (if blank i then Inl (Error ''Reservation ID cannot be empty'')
      else if blank userId then Inl (Error ''User ID cannot be empty'')
      else if blank ticketTypeId then Inl (Error ''TicketType ID cannot be empty'')
      else case quantity of
        JNonInt _ \<Rightarrow> Inl (Error ''Quantity must be a positive integer'')
      | JInt n \<Rightarrow>
          if n \<le> 0 then Inl (Error ''Quantity must be a positive integer'')
          else if expiresAt \<le> createdAt then Inl (Error ''createdAt must be strictly before expiresAt'')
          else Inr \<lparr>res_id = i, res_userId = userId, res_ticketTypeId = ticketTypeId,
                    res_quantity = n, res_createdAt = createdAt, res_expiresAt = expiresAt,
                    res_status = status\<rparr>)"

definition reservation_create ::
    "string \<Rightarrow> string \<Rightarrow> string \<Rightarrow> jsnum \<Rightarrow> date \<Rightarrow> int \<Rightarrow> reservation result" where [ctor_defs]:
  "reservation_create i userId ticketTypeId quantity now ttlMinutes =
     new_Reservation i userId ticketTypeId quantity now (now + ttlMinutes * 60 * 1000)
       ReservationStatus.PENDING"

text \<open>The transitions. Each throws before it changes the status; \<open>now\<close> is what
  \<open>clock.now()\<close> returns.\<close>

definition transition_error :: "reservation \<Rightarrow> ReservationStatus \<Rightarrow> js_error" where
  "transition_error r target =
     InvalidStateTransitionError (reservation_status_str (res_status r)) (reservation_status_str target)"

definition expired_error :: "date \<Rightarrow> reservation \<Rightarrow> js_error" where
  "expired_error now r = ReservationExpiredError
     (''Reservation expired at '' @ toISOString (res_expiresAt r) @ ''. Current time is '' @ toISOString now)"

definition startPayment :: "date \<Rightarrow> reservation \<Rightarrow> reservation result" where [op_defs]:
  "startPayment now r =
     (if res_status r \<noteq> ReservationStatus.PENDING
      then Inl (transition_error r ReservationStatus.PAYMENT_PENDING)
      else if res_expiresAt r < now then Inl (expired_error now r)
      else Inr (r\<lparr>res_status := ReservationStatus.PAYMENT_PENDING\<rparr>))"

definition revertPaymentDecline :: "reservation \<Rightarrow> reservation result" where [op_defs]:
  "revertPaymentDecline r =
     (if res_status r \<noteq> ReservationStatus.PAYMENT_PENDING
      then Inl (transition_error r ReservationStatus.PENDING)
      else Inr (r\<lparr>res_status := ReservationStatus.PENDING\<rparr>))"

definition confirm_reservation :: "date \<Rightarrow> reservation \<Rightarrow> reservation result" where [op_defs]:
  "confirm_reservation now r =
     (if res_status r \<noteq> ReservationStatus.PENDING \<and> res_status r \<noteq> ReservationStatus.PAYMENT_PENDING
      then Inl (transition_error r ReservationStatus.CONFIRMED)
      else if res_expiresAt r < now then Inl (expired_error now r)
      else Inr (r\<lparr>res_status := ReservationStatus.CONFIRMED\<rparr>))"

definition expire_reservation :: "date \<Rightarrow> reservation \<Rightarrow> reservation result" where [op_defs]:
  "expire_reservation now r =
     (if res_status r \<noteq> ReservationStatus.PENDING \<and> res_status r \<noteq> ReservationStatus.PAYMENT_PENDING
      then Inl (transition_error r ReservationStatus.EXPIRED)
      else if now \<le> res_expiresAt r then Inl (PrematureExpirationError
        (''Cannot expire reservation before '' @ toISOString (res_expiresAt r) @
         ''. Current time is '' @ toISOString now))
      else Inr (r\<lparr>res_status := ReservationStatus.EXPIRED\<rparr>))"

definition cancel_reservation :: "reservation \<Rightarrow> reservation result" where [op_defs]:
  "cancel_reservation r =
     (if res_status r \<noteq> ReservationStatus.PENDING \<and> res_status r \<noteq> ReservationStatus.PAYMENT_PENDING
      then Inl (transition_error r ReservationStatus.CANCELLED)
      else Inr (r\<lparr>res_status := ReservationStatus.CANCELLED\<rparr>))"

datatype res_op = StartPayment | RevertPaymentDecline | Confirm | Expire | CancelReservation

fun res_call :: "date \<Rightarrow> res_op \<Rightarrow> reservation \<Rightarrow> reservation result" where
  "res_call now StartPayment r = startPayment now r"
| "res_call now RevertPaymentDecline r = revertPaymentDecline r"
| "res_call now Confirm r = confirm_reservation now r"
| "res_call now Expire r = expire_reservation now r"
| "res_call now CancelReservation r = cancel_reservation r"

text \<open>
  A sequence of timed calls on one reservation: the calls that returned, and the reservation
  at the end. A call that throws changes nothing.
\<close>

fun res_run :: "(date \<times> res_op) list \<Rightarrow> reservation \<Rightarrow> (date \<times> res_op) list \<times> reservation" where
  "res_run [] r = ([], r)"
| "res_run ((now, a) # as) r =
     (case res_call now a r of
        Inl _ \<Rightarrow> res_run as r
      | Inr r' \<Rightarrow> let (done_calls, r'') = res_run as r' in ((now, a) # done_calls, r''))"

definition active :: "reservation \<Rightarrow> bool" where
  "active r \<longleftrightarrow> res_status r \<in> {ReservationStatus.PENDING, ReservationStatus.PAYMENT_PENDING}"

definition resolving :: "date \<times> res_op \<Rightarrow> bool" where
  "resolving call \<longleftrightarrow> snd call \<in> {Confirm, Expire, CancelReservation}"

lemma new_Reservation_Inr:
  "new_Reservation i u t q c x st = Inr r \<longleftrightarrow>
     (\<exists>n. q = JInt n \<and> 0 < n \<and> \<not> blank i \<and> \<not> blank u \<and> \<not> blank t \<and> c < x \<and>
       r = \<lparr>res_id = i, res_userId = u, res_ticketTypeId = t, res_quantity = n,
            res_createdAt = c, res_expiresAt = x, res_status = st\<rparr>)"
  by (auto simp: ctor_defs split: jsnum.splits)

lemma res_call_only_status: "res_call now a r = Inr r' \<Longrightarrow> \<exists>st. r' = r\<lparr>res_status := st\<rparr>"
  by (cases a) (auto simp: op_defs split: if_splits)

lemma res_run_frame: "\<exists>st. snd (res_run as r) = r\<lparr>res_status := st\<rparr>"
proof (induction as r rule: res_run.induct)
  case (1 r)
  show ?case by (rule exI [of _ "res_status r"]) simp
next
  case (2 now a as r)
  show ?case
  proof (cases "res_call now a r")
    case (Inl e)
    with "2.IH"(1) show ?thesis by simp
  next
    case (Inr r')
    from "2.IH"(2) [OF Inr] obtain st where "snd (res_run as r') = r'\<lparr>res_status := st\<rparr>" by blast
    moreover from res_call_only_status [OF Inr] obtain st' where "r' = r\<lparr>res_status := st'\<rparr>" by blast
    ultimately show ?thesis using Inr by (auto simp: Let_def split: prod.splits)
  qed
qed

lemma res_run_inactive: "\<not> active r \<Longrightarrow> res_run as r = ([], r)"
proof (induction as)
  case (Cons x as)
  then have "\<exists>e. res_call (fst x) (snd x) r = Inl e"
    by (cases "snd x") (auto simp: op_defs active_def)
  with Cons show ?case by (cases x) auto
qed simp

text \<open>What a returning call on an active reservation does.\<close>

lemma res_call_active:
  assumes "active r" "res_call now a r = Inr r'"
  shows "if resolving (now, a)
     then (a = Confirm \<longrightarrow> res_status r' = ReservationStatus.CONFIRMED \<and> now \<le> res_expiresAt r) \<and>
          (a = Expire \<longrightarrow> res_status r' = ReservationStatus.EXPIRED \<and> res_expiresAt r < now) \<and>
          (a = CancelReservation \<longrightarrow> res_status r' = ReservationStatus.CANCELLED)
     else active r'"
  using assms by (cases a) (auto simp: op_defs active_def resolving_def split: if_splits)

text \<open>How the calls that returned relate to the final status.\<close>

definition resolution :: "date \<Rightarrow> (date \<times> res_op) list \<Rightarrow> ReservationStatus \<Rightarrow> bool" where
  "resolution expiry calls st \<longleftrightarrow>
     (case filter resolving calls of
        [] \<Rightarrow> st = ReservationStatus.PENDING \<or> st = ReservationStatus.PAYMENT_PENDING
      | [(now, Confirm)] \<Rightarrow> st = ReservationStatus.CONFIRMED \<and> now \<le> expiry
      | [(now, Expire)] \<Rightarrow> st = ReservationStatus.EXPIRED \<and> expiry < now
      | [(now, CancelReservation)] \<Rightarrow> st = ReservationStatus.CANCELLED
      | _ \<Rightarrow> False)"

lemma resolution_skip: "\<not> resolving c \<Longrightarrow> resolution x (c # cs) st = resolution x cs st"
  by (simp add: resolution_def)

lemma res_run_resolution:
  "active r \<Longrightarrow> resolution (res_expiresAt r) (fst (res_run as r)) (res_status (snd (res_run as r)))"
proof (induction as r rule: res_run.induct)
  case (1 r)
  then show ?case by (auto simp: resolution_def active_def)
next
  case (2 now a as r)
  show ?case
  proof (cases "res_call now a r")
    case (Inl e)
    with "2.IH"(1) "2.prems" show ?thesis by simp
  next
    case (Inr r')
    note act = res_call_active [OF "2.prems" Inr]
    obtain st where r': "r' = r\<lparr>res_status := st\<rparr>" using res_call_only_status [OF Inr] by blast
    show ?thesis
    proof (cases "resolving (now, a)")
      case True
      with act have "\<not> active r'" by (auto simp: active_def resolving_def)
      then have "res_run as r' = ([], r')" by (rule res_run_inactive)
      with Inr True act show ?thesis
        by (auto simp: resolution_def resolving_def)
    next
      case False
      with act have "active r'" by simp
      then have "resolution (res_expiresAt r') (fst (res_run as r')) (res_status (snd (res_run as r')))"
        by (rule "2.IH"(2) [OF Inr])
      with Inr False r' show ?thesis by (simp add: resolution_skip Let_def split_beta)
    qed
  qed
qed

section \<open>Properties\<close>

text \<open>
  C27: the capacity invariant (domain rule 1). However the three mutators are called on a new
  pool, with whatever quantities, the counters stay non-negative and sum to the total
  capacity, which never changes, and a call that throws leaves the pool as it was: the
  assertion \<open>assertCapacityInvariant\<close> never fires.
\<close>

theorem pool_calls_keep_capacity:
  assumes "new_InventoryPool i capacity = Inr p" and "p' = fold pool_step as p"
  shows "wf_pool p' \<and> totalCapacity p' = totalCapacity p \<and>
    (\<forall>a err. fst (pool_call a p') = Some err \<longrightarrow> snd (pool_call a p') = p')"
proof -
  have wf: "wf_pool p'"
    using pool_inv.run_inv [OF new_InventoryPool_wf [OF assms(1)]] assms(2) by simp
  have "snd (pool_call a p') = p'" if "fst (pool_call a p') = Some err" for a err
    using wf by (rule pool_call_cases [of p' a]) (use that in auto)
  with wf assms(2) show ?thesis by simp
qed

theorem pool_calls_keep_capacity_witness:
  "wf_pool (fold pool_step [Reserve (JInt 3), Fulfill (JInt 2), Release (JInt 5), Release (JInt 1)]
     \<lparr>pool_ticketTypeId = ''vip'', totalCapacity = 10, availableQuantity = 10,
      reservedQuantity = 0, soldQuantity = 0\<rparr>)"
proof -
  have "new_InventoryPool ''vip'' (JInt 10) =
      Inr \<lparr>pool_ticketTypeId = ''vip'', totalCapacity = 10, availableQuantity = 10,
        reservedQuantity = 0, soldQuantity = 0\<rparr>" by code_simp
  from pool_calls_keep_capacity [OF this refl] show ?thesis by blast
qed

text \<open>
  C4: the pool refines the seat-level specification: for every sequence of calls on a new
  pool there is a run of the specification over individual seats, all available at first,
  whose seats the counters count; each served call moved exactly as many seats as it was
  asked to and each refused one moved none, and a seat that is sold stays sold.
\<close>

theorem pool_refines_seats:
  assumes "new_InventoryPool i capacity = Inr p"
  shows "\<exists>g. seat_run (nat (totalCapacity p)) as (\<lambda>_. Available) g \<and> counts (fold pool_step as p) g \<and>
    (\<forall>bs. \<exists>h. seat_run (nat (totalCapacity p)) bs g h \<and> counts (fold pool_step (as @ bs) p) h \<and>
      seats_in (nat (totalCapacity p)) Sold g \<subseteq> seats_in (nat (totalCapacity p)) Sold h)"
proof -
  have wf: "wf_pool p" using assms by (rule new_InventoryPool_wf)
  have "counts p (\<lambda>_. Available)"
    using assms by (auto simp: ctor_defs counts_def seats_in_def split: if_splits jsnum.splits)
  from pool_run_simulates [OF wf this] obtain g
    where g: "seat_run (nat (totalCapacity p)) as (\<lambda>_. Available) g" "counts (fold pool_step as p) g"
    by blast
  have "\<exists>h. seat_run (nat (totalCapacity p)) bs g h \<and> counts (fold pool_step (as @ bs) p) h" for bs
    using pool_run_simulates [OF pool_inv.run_inv [OF wf] g(2), of bs] by simp
  with g show ?thesis using seat_run_sold by blast
qed

theorem pool_refines_seats_witness:
  "\<exists>g. seat_run 10 [Reserve (JInt 3), Fulfill (JInt 2)] (\<lambda>_. Available) g \<and>
     counts \<lparr>pool_ticketTypeId = ''vip'', totalCapacity = 10, availableQuantity = 7,
       reservedQuantity = 1, soldQuantity = 2\<rparr> g"
proof -
  have "new_InventoryPool ''vip'' (JInt 10) =
      Inr \<lparr>pool_ticketTypeId = ''vip'', totalCapacity = 10, availableQuantity = 10,
        reservedQuantity = 0, soldQuantity = 0\<rparr>" by code_simp
  from pool_refines_seats [OF this, of "[Reserve (JInt 3), Fulfill (JInt 2)]"]
  show ?thesis by (auto simp: pool_step_def op_defs assertCapacityInvariant_def)
qed

text \<open>
  C28: a hold is resolved at most once, and in time. Among the calls that return in any run on
  a fresh reservation, at most one confirms, expires or cancels it; the reservation ends
  \<open>CONFIRMED\<close> exactly by a confirmation no later than \<open>expiresAt\<close>, \<open>EXPIRED\<close> exactly by
  an expiry strictly after it, and stays active without such a call. Nothing but the status
  changes.
\<close>

theorem reservation_resolved_once:
  assumes "reservation_create i u t q now ttl = Inr r" and "(calls, r') = res_run as r"
  shows "resolution (now + ttl * 60 * 1000) calls (res_status r') \<and>
    r' = r\<lparr>res_status := res_status r'\<rparr> \<and> length (filter resolving calls) \<le> 1"
proof -
  have r: "active r" "res_expiresAt r = now + ttl * 60 * 1000"
    using assms(1) by (auto simp: reservation_create_def new_Reservation_Inr active_def)
  have res: "resolution (now + ttl * 60 * 1000) calls (res_status r')"
    using res_run_resolution [OF r(1), of as] r(2) assms(2) by (metis fst_conv snd_conv)
  obtain st where "r' = r\<lparr>res_status := st\<rparr>"
    using res_run_frame [of as r] assms(2) by (metis snd_conv)
  then have "r' = r\<lparr>res_status := res_status r'\<rparr>" by simp
  with res show ?thesis by (auto simp: resolution_def split: list.splits prod.splits res_op.splits)
qed

theorem reservation_resolved_once_witness:
  "resolution (0 + 10 * 60 * 1000) [(5, StartPayment), (600000, Confirm)] ReservationStatus.CONFIRMED"
proof -
  let ?r = "\<lparr>res_id = ''r'', res_userId = ''u'', res_ticketTypeId = ''t'', res_quantity = 2,
    res_createdAt = 0, res_expiresAt = 600000, res_status = ReservationStatus.PENDING\<rparr>"
  have "reservation_create ''r'' ''u'' ''t'' (JInt 2) 0 10 = Inr ?r" by code_simp
  moreover have "([(5, StartPayment), (600000, Confirm)], ?r\<lparr>res_status := ReservationStatus.CONFIRMED\<rparr>) =
      res_run [(5, StartPayment), (600000, Expire), (600000, Confirm), (700000, Expire)] ?r" by code_simp
  ultimately have "resolution (0 + 10 * 60 * 1000) [(5, StartPayment), (600000, Confirm)]
      (res_status (?r\<lparr>res_status := ReservationStatus.CONFIRMED\<rparr>))"
    by (rule reservation_resolved_once [THEN conjunct1])
  then show ?thesis by simp
qed

text \<open>
  Confirmation and expiry exclude each other. At every instant exactly one of
  \<open>confirm\<close> and \<open>expire\<close> returns on an active reservation: \<open>confirm\<close> up to and
  including \<open>expiresAt\<close>, \<open>expire\<close> afterwards; on any other reservation both throw.
\<close>

theorem confirm_expire_exclusive:
  "((\<exists>r'. confirm_reservation now r = Inr r') \<longleftrightarrow> active r \<and> now \<le> res_expiresAt r) \<and>
   ((\<exists>r'. expire_reservation now r = Inr r') \<longleftrightarrow> active r \<and> res_expiresAt r < now)"
  by (auto simp: op_defs active_def)

end
