(* ===== verification/LP_Catalog.thy ===== *)
theory LP_Catalog
  imports LP_Prelude
begin

text \<open>
  The catalog domain, \<^verbatim>\<open>src/src/modules/catalog/domain\<close>: the value objects \<open>Money\<close>
  and \<open>TimeWindow\<close>, the \<open>TicketType\<close> entity and the \<open>Event\<close> aggregate with its
  life cycle. A constructor that throws is an \<^term>\<open>Inl\<close>; a method that throws does so
  before it changes the object. The field prefixes (\<open>tt_\<close>, \<open>ev_\<close>) keep the fields of
  different classes apart.
\<close>

section \<open>Money\<close>

record money =
  amountCents :: int
  currency :: string

definition new_Money :: "jsnum \<Rightarrow> string \<Rightarrow> money result" where [ctor_defs]:
  "new_Money amt cur =
     (case amt of
        JNonInt s \<Rightarrow> Inl (InvalidMoneyError
          (''Money amount must be a non-negative integer in cents. Received: '' @ show_num amt))
      | JInt n \<Rightarrow>
          if n < 0 then Inl (InvalidMoneyError
            (''Money amount must be a non-negative integer in cents. Received: '' @ show_num amt))
          else if blank cur then Inl (InvalidMoneyError ''Currency string must be provided'')
          else Inr \<lparr>amountCents = n, currency = toUpperCase cur\<rparr>)"

definition money_equals :: "money \<Rightarrow> money \<Rightarrow> bool" where
  "money_equals m other \<longleftrightarrow> amountCents m = amountCents other \<and> currency m = currency other"

definition wf_money :: "money \<Rightarrow> bool" where
  "wf_money m \<longleftrightarrow> 0 \<le> amountCents m \<and> \<not> blank (currency m) \<and> toUpperCase (currency m) = currency m"

section \<open>TimeWindow\<close>

text \<open>A missing \<open>Date\<close> and an invalid one (\<open>getTime()\<close> is \<open>NaN\<close>) are both \<^term>\<open>None\<close>.\<close>

record timeWindow =
  startAt :: date
  endAt :: date

fun new_TimeWindow :: "date option \<Rightarrow> date option \<Rightarrow> timeWindow result" where
  "new_TimeWindow (Some s) (Some e) =
     (if e \<le> s then Inl (InvalidTimeWindowError
        (''startAt ('' @ toISOString s @ '') must be strictly before endAt ('' @ toISOString e @ '')''))
      else Inr \<lparr>startAt = s, endAt = e\<rparr>)"
| "new_TimeWindow _ _ = Inl (InvalidTimeWindowError ''Invalid Date instances provided to TimeWindow'')"

definition isActiveAt :: "timeWindow \<Rightarrow> date \<Rightarrow> bool" where
  "isActiveAt w t \<longleftrightarrow> startAt w \<le> t \<and> t \<le> endAt w"

definition timeWindow_equals :: "timeWindow \<Rightarrow> timeWindow \<Rightarrow> bool" where
  "timeWindow_equals w other \<longleftrightarrow> startAt w = startAt other \<and> endAt w = endAt other"

definition wf_timeWindow :: "timeWindow \<Rightarrow> bool" where
  "wf_timeWindow w \<longleftrightarrow> startAt w < endAt w"

section \<open>TicketType\<close>

record ticketType =
  tt_id :: string
  tt_eventId :: string
  tt_name :: string
  tt_price :: money
  tt_capacity :: int

definition new_TicketType ::
    "string \<Rightarrow> string \<Rightarrow> string \<Rightarrow> money \<Rightarrow> jsnum \<Rightarrow> ticketType result" where [ctor_defs]:
  "new_TicketType i eventId name price capacity =
     (if blank i then Inl (Error ''TicketType ID cannot be empty'')
      else if blank name then Inl (Error ''TicketType name cannot be empty'')
      else case capacity of
        JNonInt s \<Rightarrow> Inl (InvalidCapacityError
          (''TicketType capacity must be a positive integer > 0. Received: '' @ show_num capacity))
      | JInt n \<Rightarrow>
          if n \<le> 0 then Inl (InvalidCapacityError
            (''TicketType capacity must be a positive integer > 0. Received: '' @ show_num capacity))
          else Inr \<lparr>tt_id = i, tt_eventId = eventId, tt_name = trim name, tt_price = price,
                    tt_capacity = n\<rparr>)"

definition wf_ticketType :: "string \<Rightarrow> ticketType \<Rightarrow> bool" where
  "wf_ticketType eventId tt \<longleftrightarrow>
     \<not> blank (tt_id tt) \<and> tt_eventId tt = eventId \<and> \<not> blank (tt_name tt) \<and>
     trim (tt_name tt) = tt_name tt \<and> wf_money (tt_price tt) \<and> 0 < tt_capacity tt"

section \<open>Event\<close>

datatype EventStatus = DRAFT | SCHEDULED | LIVE | ENDED | CANCELLED

fun event_status_str :: "EventStatus \<Rightarrow> string" where
  "event_status_str EventStatus.DRAFT = ''DRAFT''"
| "event_status_str EventStatus.SCHEDULED = ''SCHEDULED''"
| "event_status_str EventStatus.LIVE = ''LIVE''"
| "event_status_str EventStatus.ENDED = ''ENDED''"
| "event_status_str EventStatus.CANCELLED = ''CANCELLED''"

record event =
  ev_id :: string
  ev_organizerId :: string
  ev_title :: string
  ev_saleWindow :: timeWindow
  ev_status :: EventStatus
  ev_ticketTypes :: "(string, ticketType) jsmap"

definition new_Event ::
    "string \<Rightarrow> string \<Rightarrow> string \<Rightarrow> timeWindow \<Rightarrow> EventStatus \<Rightarrow> event result" where [ctor_defs]:
  "new_Event i organizerId title saleWindow status =
     (if blank i then Inl (Error ''Event ID cannot be empty'')
      else if blank organizerId then Inl (Error ''Organizer ID cannot be empty'')
      else if blank title then Inl (Error ''Event title cannot be empty'')
      else Inr \<lparr>ev_id = i, ev_organizerId = organizerId, ev_title = trim title,
                ev_saleWindow = saleWindow, ev_status = status, ev_ticketTypes = []\<rparr>)"

definition event_create :: "string \<Rightarrow> string \<Rightarrow> string \<Rightarrow> timeWindow \<Rightarrow> event result" where [ctor_defs]:
  "event_create i organizerId title saleWindow =
     new_Event i organizerId title saleWindow EventStatus.DRAFT"

text \<open>The getter \<open>ticketTypes\<close>: the values of the map, in insertion order.\<close>

definition ticketTypes_of :: "event \<Rightarrow> ticketType list" where
  "ticketTypes_of e = map snd (ev_ticketTypes e)"

definition addTicketType ::
    "string \<Rightarrow> string \<Rightarrow> money \<Rightarrow> jsnum \<Rightarrow> event \<Rightarrow> (ticketType \<times> event) result" where [op_defs]:
  "addTicketType ticketTypeId name price capacity e =
     (if ev_status e \<noteq> EventStatus.DRAFT
      then Inl (Error (''Cannot add ticket type to event when status is '' @ event_status_str (ev_status e)))
      else rbind (new_TicketType ticketTypeId (ev_id e) name price capacity) (\<lambda>tt.
        Inr (tt, e\<lparr>ev_ticketTypes := AList.update ticketTypeId tt (ev_ticketTypes e)\<rparr>)))"

definition schedule :: "event \<Rightarrow> event result" where [op_defs]:
  "schedule e =
     (if ev_status e \<noteq> EventStatus.DRAFT
      then Inl (InvalidStateTransitionError (event_status_str (ev_status e)) ''SCHEDULED'')
      else if ev_ticketTypes e = [] then Inl EmptyTicketTypesError
      else Inr (e\<lparr>ev_status := EventStatus.SCHEDULED\<rparr>))"

definition publish :: "event \<Rightarrow> event result" where [op_defs]:
  "publish e =
     (if ev_status e \<noteq> EventStatus.DRAFT \<and> ev_status e \<noteq> EventStatus.SCHEDULED
      then Inl (InvalidStateTransitionError (event_status_str (ev_status e)) ''LIVE'')
      else if ev_ticketTypes e = [] then Inl EmptyTicketTypesError
      else Inr (e\<lparr>ev_status := EventStatus.LIVE\<rparr>))"

definition cancel_event :: "event \<Rightarrow> event result" where [op_defs]:
  "cancel_event e =
     (if ev_status e = EventStatus.CANCELLED \<or> ev_status e = EventStatus.ENDED
      then Inl (InvalidStateTransitionError (event_status_str (ev_status e)) ''CANCELLED'')
      else Inr (e\<lparr>ev_status := EventStatus.CANCELLED\<rparr>))"

text \<open>
  A caller's sequence of method calls on one event: a call that throws leaves the object as
  it was, and the caller goes on.
\<close>

datatype event_op = AddTicketType string string money jsnum | Schedule | Publish | CancelEvent

fun event_call :: "event_op \<Rightarrow> event \<Rightarrow> event result" where
  "event_call (AddTicketType i name price capacity) e =
     rbind (addTicketType i name price capacity e) (\<lambda>(_, e'). Inr e')"
| "event_call Schedule e = schedule e"
| "event_call Publish e = publish e"
| "event_call CancelEvent e = cancel_event e"

definition event_step :: "event_op \<Rightarrow> event \<Rightarrow> event" where
  "event_step a e = (case event_call a e of Inl _ \<Rightarrow> e | Inr e' \<Rightarrow> e')"

section \<open>Well-formed events\<close>

definition wf_event :: "event \<Rightarrow> bool" where
  "wf_event e \<longleftrightarrow>
     \<not> blank (ev_id e) \<and> \<not> blank (ev_organizerId e) \<and>
     \<not> blank (ev_title e) \<and> trim (ev_title e) = ev_title e \<and>
     wf_timeWindow (ev_saleWindow e) \<and>
     distinct (map fst (ev_ticketTypes e)) \<and>
     (\<forall>(k, tt) \<in> set (ev_ticketTypes e). k = tt_id tt \<and> wf_ticketType (ev_id e) tt) \<and>
     (ev_status e \<in> {EventStatus.SCHEDULED, EventStatus.LIVE} \<longrightarrow> ev_ticketTypes e \<noteq> []) \<and>
     ev_status e \<noteq> EventStatus.ENDED"

text \<open>The prices a caller passes in are \<open>Money\<close> objects, so they are well formed.\<close>

fun wf_event_op :: "event_op \<Rightarrow> bool" where
  "wf_event_op (AddTicketType _ _ price _) = wf_money price"
| "wf_event_op _ = True"

lemma new_Money_Inr [simp]:
  "new_Money amt cur = Inr m \<longleftrightarrow>
     (\<exists>n. amt = JInt n \<and> 0 \<le> n \<and> \<not> blank cur \<and> m = \<lparr>amountCents = n, currency = toUpperCase cur\<rparr>)"
  by (auto simp: ctor_defs split: jsnum.splits)

lemma new_Money_wf: "new_Money amt cur = Inr m \<Longrightarrow> wf_money m"
  by (auto simp: wf_money_def)

lemma new_TimeWindow_Inr:
  "new_TimeWindow s e = Inr w \<longleftrightarrow>
     (\<exists>s' e'. s = Some s' \<and> e = Some e' \<and> s' < e' \<and> w = \<lparr>startAt = s', endAt = e'\<rparr>)"
  by (cases "(s, e)" rule: new_TimeWindow.cases) auto

lemma new_TicketType_Inr:
  "new_TicketType i eid name price cap = Inr tt \<longleftrightarrow>
     (\<exists>n. cap = JInt n \<and> 0 < n \<and> \<not> blank i \<and> \<not> blank name \<and>
       tt = \<lparr>tt_id = i, tt_eventId = eid, tt_name = trim name, tt_price = price, tt_capacity = n\<rparr>)"
  by (auto simp: ctor_defs split: jsnum.splits)

lemma event_create_wf:
  "event_create i org title w = Inr e \<Longrightarrow> wf_timeWindow w \<Longrightarrow> wf_event e"
  by (auto simp: ctor_defs wf_event_def split: if_splits)

lemma set_AList_update_subset:
  "set (AList.update k v m) \<subseteq> insert (k, v) (set m)"
  by (induction m) auto

lemma addTicketType_wf:
  assumes "wf_event e" "wf_money price" and ok: "addTicketType i name price cap e = Inr (tt, e')"
  shows "wf_event e'"
proof -
  have tt: "tt_id tt = i" "wf_ticketType (ev_id e) tt"
    and e': "e' = e\<lparr>ev_ticketTypes := AList.update i tt (ev_ticketTypes e)\<rparr>"
    using ok assms(2) by (auto simp: op_defs new_TicketType_Inr wf_ticketType_def split: if_splits)
  show ?thesis
    using assms(1) tt set_AList_update_subset [of i tt "ev_ticketTypes e"]
    unfolding wf_event_def e' by (auto simp: update_nonempty)
qed

lemma event_call_wf:
  "wf_event e \<Longrightarrow> wf_event_op a \<Longrightarrow> event_call a e = Inr e' \<Longrightarrow> wf_event e'"
proof (cases a)
  case (AddTicketType i name price cap)
  assume "wf_event e" "wf_event_op a" "event_call a e = Inr e'"
  with AddTicketType show ?thesis by (auto intro: addTicketType_wf)
qed (auto simp: op_defs wf_event_def split: if_splits)

interpretation event_wf: invariant_steps "\<lambda>a e. if wf_event_op a then event_step a e else e" wf_event
  by unfold_locales (auto simp: event_step_def split: sum.splits intro: event_call_wf)

lemma fold_filter_ops:
  "\<forall>a \<in> set as. P a \<Longrightarrow> fold (\<lambda>a s. if P a then f a s else s) as s = fold f as s"
  by (induction as arbitrary: s) auto

lemma wf_event_has_capacity:
  assumes "wf_event e" and "ev_status e \<in> {EventStatus.SCHEDULED, EventStatus.LIVE}"
  shows "\<exists>tt \<in> set (ticketTypes_of e). 0 < tt_capacity tt"
proof -
  from assms obtain k tt tts where "ev_ticketTypes e = (k, tt) # tts"
    by (cases "ev_ticketTypes e") (auto simp: wf_event_def)
  with assms(1) show ?thesis by (auto simp: wf_event_def wf_ticketType_def ticketTypes_of_def)
qed

section \<open>The life cycle\<close>

fun status_rank :: "EventStatus \<Rightarrow> nat" where
  "status_rank EventStatus.DRAFT = 0"
| "status_rank EventStatus.SCHEDULED = 1"
| "status_rank EventStatus.LIVE = 2"
| "status_rank EventStatus.ENDED = 3"
| "status_rank EventStatus.CANCELLED = 3"

text \<open>What no sequence of calls undoes: identity, the direction of the life cycle, and the
  ticket types once the event has left \<open>DRAFT\<close>.\<close>

definition lifecycle_le :: "event \<Rightarrow> event \<Rightarrow> bool" where
  "lifecycle_le e e' \<longleftrightarrow>
     ev_id e' = ev_id e \<and> ev_organizerId e' = ev_organizerId e \<and> ev_title e' = ev_title e \<and>
     ev_saleWindow e' = ev_saleWindow e \<and>
     status_rank (ev_status e) \<le> status_rank (ev_status e') \<and>
     (ev_status e \<noteq> EventStatus.DRAFT \<longrightarrow> ev_ticketTypes e' = ev_ticketTypes e) \<and>
     (ev_status e \<in> {EventStatus.CANCELLED, EventStatus.ENDED} \<longrightarrow> e' = e)"

lemma lifecycle_le_trans: "lifecycle_le s t \<Longrightarrow> lifecycle_le t u \<Longrightarrow> lifecycle_le s u"
  by (cases "ev_status s"; cases "ev_status t"; cases "ev_status u")
    (auto simp: lifecycle_le_def)

lemma event_step_lifecycle: "lifecycle_le e (event_step a e)"
  by (cases a; cases "ev_status e")
    (auto simp: event_step_def op_defs lifecycle_le_def rbind_eq_Inl split: sum.splits)

lemma lifecycle_le_refl: "lifecycle_le e e"
  by (simp add: lifecycle_le_def)

interpretation event_life: related_steps event_step lifecycle_le
proof unfold_locales
  fix s t u :: event and a
  show "lifecycle_le s s" by (rule lifecycle_le_refl)
  show "lifecycle_le s t \<Longrightarrow> lifecycle_le t u \<Longrightarrow> lifecycle_le s u" by (rule lifecycle_le_trans)
  show "lifecycle_le s (event_step a s)" by (rule event_step_lifecycle)
qed

section \<open>Properties\<close>

text \<open>
  However the methods of an event are called after \<open>Event.create\<close>, and whichever of
  the calls throw, the event stays well formed; in particular it is \<open>SCHEDULED\<close> or
  \<open>LIVE\<close> only with at least one ticket type of positive capacity and a sale window that
  opens before it closes (domain rule 3), its ticket types are filed under their own
  identifiers, and \<open>ENDED\<close> is never reached.
\<close>

theorem event_calls_keep_wf:
  assumes "event_create i org title w = Inr e" and "wf_timeWindow w"
    and "\<forall>a \<in> set as. wf_event_op a" and "e' = fold event_step as e"
  shows "wf_event e' \<and> ev_status e' \<noteq> EventStatus.ENDED \<and>
    (ev_status e' \<in> {EventStatus.SCHEDULED, EventStatus.LIVE} \<longrightarrow>
      (\<exists>tt \<in> set (ticketTypes_of e'). 0 < tt_capacity tt) \<and> wf_timeWindow (ev_saleWindow e'))"
proof -
  have "wf_event e" using assms(1,2) by (rule event_create_wf)
  then have "wf_event (fold (\<lambda>a e. if wf_event_op a then event_step a e else e) as e)"
    by (rule event_wf.run_inv)
  with assms(3,4) have "wf_event e'" by (simp add: fold_filter_ops)
  then show ?thesis using wf_event_has_capacity by (auto simp: wf_event_def)
qed

theorem event_calls_keep_wf_witness:
  "wf_event (fold event_step
     [AddTicketType ''t1'' ''VIP'' \<lparr>amountCents = 5000, currency = ''USD''\<rparr> (JInt 10), Publish]
     \<lparr>ev_id = ''e1'', ev_organizerId = ''o1'', ev_title = ''Gig'',
      ev_saleWindow = \<lparr>startAt = 0, endAt = 10\<rparr>, ev_status = EventStatus.DRAFT, ev_ticketTypes = []\<rparr>)"
proof -
  have "event_create ''e1'' ''o1'' ''Gig'' \<lparr>startAt = 0, endAt = 10\<rparr> =
      Inr \<lparr>ev_id = ''e1'', ev_organizerId = ''o1'', ev_title = ''Gig'',
        ev_saleWindow = \<lparr>startAt = 0, endAt = 10\<rparr>, ev_status = EventStatus.DRAFT, ev_ticketTypes = []\<rparr>"
    by code_simp
  moreover have "wf_timeWindow \<lparr>startAt = 0, endAt = 10\<rparr>" by code_simp
  moreover have "\<forall>a \<in> set [AddTicketType ''t1'' ''VIP'' \<lparr>amountCents = 5000, currency = ''USD''\<rparr> (JInt 10),
      Publish]. wf_event_op a" by code_simp
  ultimately show ?thesis using event_calls_keep_wf [OF _ _ _ refl] by blast
qed

text \<open>
  The life cycle of an event only moves forward: no sequence of calls takes it back to
  an earlier status, changes its identity, title or sale window, changes its ticket types
  once it has left \<open>DRAFT\<close>, or changes it at all once it is \<open>CANCELLED\<close>.
\<close>

theorem event_lifecycle_forward:
  "lifecycle_le (fold event_step as e) (fold event_step (as @ bs) e)"
  by (rule event_life.run_append_rel)

end
