(* ===== verification/LP_Events.thy ===== *)
theory LP_Events
  imports LP_Prelude
begin

text \<open>
  The event envelope and the in-memory broker of \<^verbatim>\<open>src/src/shared/events\<close>. The payload
  type is a parameter of the envelope, as in the source. The broker's subscribers run later
  (\<open>setImmediate\<close>) and their errors are swallowed, so publishing queues one delivery per
  handler; a handler is given by its name.
\<close>

section \<open>DomainEvent\<close>

record eventMetadata =
  md_correlationId :: "string option"
  md_causationId :: "string option"
  md_idempotencyKey :: "string option"
  md_userId :: "string option"

record 'd domainEvent =
  evt_eventId :: string
  evt_eventType :: string
  evt_aggregateId :: string
  evt_version :: int
  evt_occurredAt :: string
  evt_producer :: string
  evt_data :: 'd
  evt_metadata :: "eventMetadata option"

section \<open>InMemoryMessageBroker\<close>

type_synonym handler = string

record 'd broker =
  handlers :: "(string, handler list) jsmap"
  publishedMessages :: "(string \<times> 'd domainEvent) list"
  isDown :: bool
  failCount :: int
  scheduled :: "(handler \<times> 'd domainEvent) list"

text \<open>\<open>publish\<close> is an async method: a thrown error is a rejected promise.\<close>

definition broker_publish :: "string \<Rightarrow> 'd domainEvent \<Rightarrow> 'd broker \<Rightarrow> 'd broker outcome" where [op_defs]:
  "broker_publish topic ev b =
     (if isDown b then
        (Some (Error (''[MessageBroker Error]: Broker is down / connection refused for topic '' @ topic)), b)
      else if 0 < failCount b then
        (Some (Error (''[MessageBroker Error]: Simulated transient broker timeout on topic '' @ topic)),
         b\<lparr>failCount := failCount b - 1\<rparr>)
      else
        (None,
         b\<lparr>publishedMessages := publishedMessages b @ [(topic, ev)],
           scheduled := scheduled b @
             map (\<lambda>h. (h, ev)) (case map_of (handlers b) topic of None \<Rightarrow> [] | Some hs \<Rightarrow> hs)\<rparr>))"

definition broker_subscribe :: "string \<Rightarrow> handler \<Rightarrow> 'd broker \<Rightarrow> 'd broker" where [op_defs]:
  "broker_subscribe topic h b =
     (let existing = (case map_of (handlers b) topic of None \<Rightarrow> [] | Some hs \<Rightarrow> hs)
      in b\<lparr>handlers := AList.update topic (existing @ [h]) (handlers b)\<rparr>)"

definition getMessagesForTopic :: "string \<Rightarrow> 'd broker \<Rightarrow> 'd domainEvent list" where
  "getMessagesForTopic topic b = map snd (filter (\<lambda>m. fst m = topic) (publishedMessages b))"

definition broker_clear :: "'d broker \<Rightarrow> 'd broker" where
  "broker_clear b = b\<lparr>publishedMessages := [], handlers := [], isDown := False, failCount := 0\<rparr>"

end
