(* ===== verification/LP_Order.thy ===== *)
theory LP_Order
  imports LP_Catalog LP_Events
begin

text \<open>
  The order domain, \<^verbatim>\<open>src/src/modules/order/domain\<close>: the \<open>Order\<close> aggregate with its
  audit trails, the in-memory order repository and the \<open>OrderConfirmed\<close> event factory.
  The argument \<open>sys\<close> of a mutator is what \<open>new Date()\<close> returns for \<open>_updatedAt\<close>.
\<close>

section \<open>Order\<close>

datatype OrderStatus =
    CREATED | PAYMENT_PENDING | CONFIRMED | PAYMENT_DECLINED | EXPIRED | CANCELLED
  | REFUND_REQUIRED | COMPENSATION_PENDING | CANCELLED_REFUNDED

fun order_status_str :: "OrderStatus \<Rightarrow> string" where
  "order_status_str OrderStatus.CREATED = ''CREATED''"
| "order_status_str OrderStatus.PAYMENT_PENDING = ''PAYMENT_PENDING''"
| "order_status_str OrderStatus.CONFIRMED = ''CONFIRMED''"
| "order_status_str OrderStatus.PAYMENT_DECLINED = ''PAYMENT_DECLINED''"
| "order_status_str OrderStatus.EXPIRED = ''EXPIRED''"
| "order_status_str OrderStatus.CANCELLED = ''CANCELLED''"
| "order_status_str OrderStatus.REFUND_REQUIRED = ''REFUND_REQUIRED''"
| "order_status_str OrderStatus.COMPENSATION_PENDING = ''COMPENSATION_PENDING''"
| "order_status_str OrderStatus.CANCELLED_REFUNDED = ''CANCELLED_REFUNDED''"

datatype AttemptStatus = AttemptPending | AttemptSuccess | AttemptDeclined | AttemptTimeout | AttemptFailed

record paymentAttempt =
  pa_attemptNumber :: nat
  pa_idempotencyKey :: string
  pa_status :: AttemptStatus
  pa_providerTransactionId :: "string option"
  pa_failureReason :: "string option"
  pa_timestamp :: date

datatype CompensationStatus = CompensationPending | CompensationSuccess | CompensationFailed

record compensationAttempt =
  ca_attemptNumber :: nat
  ca_idempotencyKey :: string
  ca_status :: CompensationStatus
  ca_refundTransactionId :: "string option"
  ca_failureReason :: "string option"
  ca_timestamp :: date

record order =
  ord_id :: string
  ord_userId :: string
  ord_reservationId :: string
  ord_ticketTypeId :: string
  ord_quantity :: int
  ord_totalAmount :: money
  ord_status :: OrderStatus
  ord_providerTransactionId :: "string option"
  ord_refundTransactionId :: "string option"
  ord_confirmedAt :: "date option"
  ord_paymentAttempts :: "paymentAttempt list"
  ord_compensationAttempts :: "compensationAttempt list"
  ord_createdAt :: date
  ord_updatedAt :: date

definition new_Order ::
    "string \<Rightarrow> string \<Rightarrow> string \<Rightarrow> string \<Rightarrow> jsnum \<Rightarrow> money \<Rightarrow> OrderStatus \<Rightarrow> string option \<Rightarrow>
     date option \<Rightarrow> paymentAttempt list \<Rightarrow> date \<Rightarrow> date \<Rightarrow> order result" where [ctor_defs]:
  "new_Order i userId reservationId ticketTypeId quantity totalAmount status providerTransactionId
     confirmedAt paymentAttempts createdAt updatedAt =
     (if blank i then Inl (Error ''Order ID cannot be empty'')
      else if blank userId then Inl (Error ''User ID cannot be empty'')
      else if blank reservationId then Inl (Error ''Reservation ID cannot be empty'')
      else if blank ticketTypeId then Inl (Error ''TicketType ID cannot be empty'')
      else case quantity of
        JNonInt _ \<Rightarrow> Inl (Error ''Quantity must be a positive integer'')
      | JInt n \<Rightarrow>
          if n \<le> 0 then Inl (Error ''Quantity must be a positive integer'')
          else Inr \<lparr>ord_id = i, ord_userId = userId, ord_reservationId = reservationId,
                    ord_ticketTypeId = ticketTypeId, ord_quantity = n, ord_totalAmount = totalAmount,
                    ord_status = status, ord_providerTransactionId = providerTransactionId,
                    ord_refundTransactionId = None, ord_confirmedAt = confirmedAt,
                    ord_paymentAttempts = paymentAttempts, ord_compensationAttempts = [],
                    ord_createdAt = createdAt, ord_updatedAt = updatedAt\<rparr>)"

definition recordPaymentAttempt :: "date \<Rightarrow> paymentAttempt \<Rightarrow> order \<Rightarrow> order" where [op_defs]:
  "recordPaymentAttempt sys attempt o1 =
     o1\<lparr>ord_paymentAttempts := ord_paymentAttempts o1 @ [attempt], ord_updatedAt := sys\<rparr>"

definition order_transition_error :: "order \<Rightarrow> OrderStatus \<Rightarrow> js_error" where
  "order_transition_error o1 target =
     InvalidStateTransitionError (order_status_str (ord_status o1)) (order_status_str target)"

text \<open>\<open>confirm\<close> returns whether it changed the order. The transaction identifier may be
  \<open>undefined\<close> at run time: its callers pass an optional field with \<open>!\<close>.\<close>

definition confirm_order :: "date \<Rightarrow> string option \<Rightarrow> date \<Rightarrow> order \<Rightarrow> (bool \<times> order) result" where [op_defs]:
  "confirm_order sys providerTransactionId timestamp o1 =
     (if ord_status o1 = OrderStatus.CONFIRMED then Inr (False, o1)
      else if ord_status o1 \<noteq> OrderStatus.PAYMENT_PENDING \<and> ord_status o1 \<noteq> OrderStatus.CREATED \<and>
              ord_status o1 \<noteq> OrderStatus.PAYMENT_DECLINED
      then Inl (order_transition_error o1 OrderStatus.CONFIRMED)
      else Inr (True, o1\<lparr>ord_status := OrderStatus.CONFIRMED,
                         ord_providerTransactionId := providerTransactionId,
                         ord_confirmedAt := Some timestamp, ord_updatedAt := sys\<rparr>))"

definition markPaymentDeclined :: "date \<Rightarrow> string \<Rightarrow> order \<Rightarrow> order result" where [op_defs]:
  "markPaymentDeclined sys reason o1 =
     (if ord_status o1 \<noteq> OrderStatus.PAYMENT_PENDING
      then Inl (order_transition_error o1 OrderStatus.PAYMENT_DECLINED)
      else Inr (o1\<lparr>ord_status := OrderStatus.PAYMENT_DECLINED, ord_updatedAt := sys\<rparr>))"

definition retryPayment :: "date \<Rightarrow> order \<Rightarrow> order result" where [op_defs]:
  "retryPayment sys o1 =
     (if ord_status o1 \<noteq> OrderStatus.PAYMENT_DECLINED
      then Inl (order_transition_error o1 OrderStatus.PAYMENT_PENDING)
      else Inr (o1\<lparr>ord_status := OrderStatus.PAYMENT_PENDING, ord_updatedAt := sys\<rparr>))"

definition markRefundRequired :: "date \<Rightarrow> string \<Rightarrow> string \<Rightarrow> order \<Rightarrow> order" where [op_defs]:
  "markRefundRequired sys providerTransactionId reason o1 =
     o1\<lparr>ord_status := OrderStatus.REFUND_REQUIRED,
        ord_providerTransactionId := Some providerTransactionId, ord_updatedAt := sys\<rparr>"

definition expire_order :: "date \<Rightarrow> order \<Rightarrow> order result" where [op_defs]:
  "expire_order sys o1 =
     (if ord_status o1 = OrderStatus.CONFIRMED
      then Inl (order_transition_error o1 OrderStatus.EXPIRED)
      else Inr (o1\<lparr>ord_status := OrderStatus.EXPIRED, ord_updatedAt := sys\<rparr>))"

definition recordCompensationAttempt :: "date \<Rightarrow> compensationAttempt \<Rightarrow> order \<Rightarrow> order" where [op_defs]:
  "recordCompensationAttempt sys attempt o1 =
     o1\<lparr>ord_compensationAttempts := ord_compensationAttempts o1 @ [attempt], ord_updatedAt := sys\<rparr>"

definition markCompensationPending :: "date \<Rightarrow> string \<Rightarrow> order \<Rightarrow> order" where [op_defs]:
  "markCompensationPending sys reason o1 =
     o1\<lparr>ord_status := OrderStatus.COMPENSATION_PENDING, ord_updatedAt := sys\<rparr>"

definition markCompensated :: "date \<Rightarrow> string option \<Rightarrow> order \<Rightarrow> order" where [op_defs]:
  "markCompensated sys refundTransactionId o1 =
     o1\<lparr>ord_status := OrderStatus.CANCELLED_REFUNDED,
        ord_refundTransactionId := refundTransactionId, ord_updatedAt := sys\<rparr>"

definition cancel_order :: "date \<Rightarrow> order \<Rightarrow> order result" where [op_defs]:
  "cancel_order sys o1 =
     (if ord_status o1 = OrderStatus.CONFIRMED
      then Inl (order_transition_error o1 OrderStatus.CANCELLED)
      else Inr (o1\<lparr>ord_status := OrderStatus.CANCELLED, ord_updatedAt := sys\<rparr>))"

text \<open>Every method of an order, as a call; a call that throws changes nothing.\<close>

datatype order_op =
    RecordPaymentAttempt paymentAttempt
  | ConfirmOrder "string option" date
  | MarkPaymentDeclined string
  | RetryPayment
  | MarkRefundRequired string string
  | ExpireOrder
  | RecordCompensationAttempt compensationAttempt
  | MarkCompensationPending string
  | MarkCompensated "string option"
  | CancelOrder

fun order_call :: "date \<Rightarrow> order_op \<Rightarrow> order \<Rightarrow> order result" where
  "order_call sys (RecordPaymentAttempt a) o1 = Inr (recordPaymentAttempt sys a o1)"
| "order_call sys (ConfirmOrder txn t) o1 = rbind (confirm_order sys txn t o1) (\<lambda>(_, o2). Inr o2)"
| "order_call sys (MarkPaymentDeclined reason) o1 = markPaymentDeclined sys reason o1"
| "order_call sys RetryPayment o1 = retryPayment sys o1"
| "order_call sys (MarkRefundRequired txn reason) o1 = Inr (markRefundRequired sys txn reason o1)"
| "order_call sys ExpireOrder o1 = expire_order sys o1"
| "order_call sys (RecordCompensationAttempt a) o1 = Inr (recordCompensationAttempt sys a o1)"
| "order_call sys (MarkCompensationPending reason) o1 = Inr (markCompensationPending sys reason o1)"
| "order_call sys (MarkCompensated ref) o1 = Inr (markCompensated sys ref o1)"
| "order_call sys CancelOrder o1 = cancel_order sys o1"

definition order_step :: "date \<times> order_op \<Rightarrow> order \<Rightarrow> order" where
  "order_step c o1 = (case order_call (fst c) (snd c) o1 of Inl _ \<Rightarrow> o1 | Inr o2 \<Rightarrow> o2)"

section \<open>InMemoryOrderRepository\<close>

type_synonym order_repo = "(string, order) jsmap"

definition save_order :: "order \<Rightarrow> order_repo \<Rightarrow> order_repo" where
  "save_order o1 repo = AList.update (ord_id o1) o1 repo"

definition find_order :: "string \<Rightarrow> order_repo \<Rightarrow> order option" where
  "find_order i repo = map_of repo i"

fun findByReservationId :: "string \<Rightarrow> order_repo \<Rightarrow> order option" where
  "findByReservationId rid [] = None"
| "findByReservationId rid ((_, o1) # repo) =
     (if ord_reservationId o1 = rid then Some o1 else findByReservationId rid repo)"

fun findByProviderTransactionId :: "string \<Rightarrow> order_repo \<Rightarrow> order option" where
  "findByProviderTransactionId txn [] = None"
| "findByProviderTransactionId txn ((_, o1) # repo) =
     (if ord_providerTransactionId o1 = Some txn then Some o1
      else if \<exists>a \<in> set (ord_paymentAttempts o1). pa_providerTransactionId a = Some txn then Some o1
      else findByProviderTransactionId txn repo)"

definition clear_orders :: "order_repo \<Rightarrow> order_repo" where
  "clear_orders repo = []"

interpretation order_store: keyed_repository ord_id save_order find_order
  by unfold_locales (simp add: find_order_def save_order_def)

section \<open>OrderConfirmed events\<close>

definition ORDER_CONFIRMED_EVENT_TYPE :: string where
  "ORDER_CONFIRMED_EVENT_TYPE = ''order.confirmed''"

text \<open>The payload of version 1, and the two fields version 2 adds (absent in version 1).\<close>

record orderConfirmedPayload =
  oc_orderId :: string
  oc_userId :: string
  oc_reservationId :: string
  oc_ticketTypeId :: string
  oc_quantity :: int
  oc_totalAmountCents :: int
  oc_currency :: string
  oc_confirmedAt :: string
  oc_providerTransactionId :: string
  oc_v2 :: "(string option \<times> string option) option"

record orderConfirmedOptions =
  opt_version :: "int option"
  opt_customerEmail :: "string option"
  opt_ticketTierName :: "string option"
  opt_correlationId :: "string option"
  opt_causationId :: "string option"

definition createOrderConfirmedEvent ::
    "string \<Rightarrow> order \<Rightarrow> orderConfirmedOptions \<Rightarrow> orderConfirmedPayload domainEvent result" where
  "createOrderConfirmedEvent uuid o1 opts =
     (case (ord_confirmedAt o1, ord_providerTransactionId o1) of
        (Some t, Some txn) \<Rightarrow>
          if txn = [] then Inl (Error (''Cannot emit OrderConfirmed event for order '' @ ord_id o1 @ '' without confirmation''))
          else
            let version = (case opt_version opts of Some v \<Rightarrow> if v = 0 then 1 else v | None \<Rightarrow> 1)
            in Inr \<lparr>evt_eventId = uuid, evt_eventType = ORDER_CONFIRMED_EVENT_TYPE,
                    evt_aggregateId = ord_id o1, evt_version = version,
                    evt_occurredAt = toISOString t, evt_producer = ''launchpad.order-service'',
                    evt_data = \<lparr>oc_orderId = ord_id o1, oc_userId = ord_userId o1,
                      oc_reservationId = ord_reservationId o1, oc_ticketTypeId = ord_ticketTypeId o1,
                      oc_quantity = ord_quantity o1,
                      oc_totalAmountCents = amountCents (ord_totalAmount o1),
                      oc_currency = currency (ord_totalAmount o1),
                      oc_confirmedAt = toISOString t, oc_providerTransactionId = txn,
                      oc_v2 = (if version = 2 then Some (opt_customerEmail opts, opt_ticketTierName opts)
                               else None)\<rparr>,
                    evt_metadata = Some \<lparr>md_correlationId = opt_correlationId opts,
                      md_causationId = opt_causationId opts, md_idempotencyKey = None,
                      md_userId = Some (ord_userId o1)\<rparr>\<rparr>
      | _ \<Rightarrow> Inl (Error (''Cannot emit OrderConfirmed event for order '' @ ord_id o1 @ '' without confirmation'')))"

section \<open>What no call on an order undoes\<close>

definition same_identity :: "order \<Rightarrow> order \<Rightarrow> bool" where
  "same_identity o1 o2 \<longleftrightarrow>
     ord_id o2 = ord_id o1 \<and> ord_userId o2 = ord_userId o1 \<and>
     ord_reservationId o2 = ord_reservationId o1 \<and> ord_ticketTypeId o2 = ord_ticketTypeId o1 \<and>
     ord_quantity o2 = ord_quantity o1 \<and> ord_totalAmount o2 = ord_totalAmount o1 \<and>
     ord_createdAt o2 = ord_createdAt o1"

definition audit_grows :: "order \<Rightarrow> order \<Rightarrow> bool" where
  "audit_grows o1 o2 \<longleftrightarrow>
     prefix (ord_paymentAttempts o1) (ord_paymentAttempts o2) \<and>
     prefix (ord_compensationAttempts o1) (ord_compensationAttempts o2)"

definition order_le :: "order \<Rightarrow> order \<Rightarrow> bool" where
  "order_le o1 o2 \<longleftrightarrow> same_identity o1 o2 \<and> audit_grows o1 o2 \<and>
     (ord_confirmedAt o1 \<noteq> None \<longrightarrow> ord_confirmedAt o2 \<noteq> None)"

lemma order_le_refl [simp]: "order_le o1 o1"
  by (simp add: order_le_def same_identity_def audit_grows_def)

lemma order_le_trans: "order_le o1 o2 \<Longrightarrow> order_le o2 o3 \<Longrightarrow> order_le o1 o3"
  unfolding order_le_def same_identity_def audit_grows_def
  using prefix_order.order_trans by (metis (no_types, lifting))

lemma order_step_le: "order_le o1 (order_step c o1)"
  by (cases "snd c")
    (auto simp: order_step_def op_defs order_le_def same_identity_def audit_grows_def
      split: sum.splits if_splits)

interpretation order_life: related_steps order_step order_le
proof unfold_locales
  fix s t u :: order and a
  show "order_le s s" by simp
  show "order_le s t \<Longrightarrow> order_le t u \<Longrightarrow> order_le s u" by (rule order_le_trans)
  show "order_le s (order_step a s)" by (rule order_step_le)
qed

section \<open>An order is confirmed at most once\<close>

text \<open>The statuses from which \<open>confirm\<close> has an effect. Once left for any other, they are
  never entered again.\<close>

definition open_order :: "order \<Rightarrow> bool" where
  "open_order o1 \<longleftrightarrow>
     ord_status o1 \<in> {OrderStatus.CREATED, OrderStatus.PAYMENT_PENDING, OrderStatus.PAYMENT_DECLINED}"

text \<open>The calls of a run in which \<open>confirm\<close> returned \<open>true\<close>.\<close>

fun effective_confirmations :: "(date \<times> order_op) list \<Rightarrow> order \<Rightarrow> (date \<times> order_op) list" where
  "effective_confirmations [] o1 = []"
| "effective_confirmations (c # cs) o1 =
     (case snd c of
        ConfirmOrder txn t \<Rightarrow>
          (case confirm_order (fst c) txn t o1 of
             Inr (True, _) \<Rightarrow> c # effective_confirmations cs (order_step c o1)
           | _ \<Rightarrow> effective_confirmations cs (order_step c o1))
      | _ \<Rightarrow> effective_confirmations cs (order_step c o1))"

lemma confirm_order_True:
  "confirm_order sys txn t o1 = Inr (True, o2) \<longleftrightarrow> open_order o1 \<and>
     o2 = o1\<lparr>ord_status := OrderStatus.CONFIRMED, ord_providerTransactionId := txn,
             ord_confirmedAt := Some t, ord_updatedAt := sys\<rparr>"
  by (auto simp: op_defs open_order_def)

lemma order_step_closed:
  "\<not> open_order o1 \<Longrightarrow> \<not> open_order (order_step c o1) \<and> ord_confirmedAt (order_step c o1) = ord_confirmedAt o1"
  by (cases "snd c") (auto simp: order_step_def op_defs open_order_def split: sum.splits if_splits)

lemma order_run_closed:
  "\<not> open_order o1 \<Longrightarrow> \<not> open_order (fold order_step cs o1) \<and>
     ord_confirmedAt (fold order_step cs o1) = ord_confirmedAt o1 \<and> effective_confirmations cs o1 = []"
proof (induction cs arbitrary: o1)
  case (Cons c cs)
  have "effective_confirmations (c # cs) o1 = effective_confirmations cs (order_step c o1)"
    using Cons.prems by (auto simp: confirm_order_True split: order_op.splits sum.splits bool.splits)
  with Cons.IH [of "order_step c o1"] order_step_closed [OF Cons.prems] show ?case by simp
qed simp

lemma order_step_open:
  "open_order o1 \<Longrightarrow> \<exists>sys txn t o2. c = (sys, ConfirmOrder txn t) \<and> confirm_order sys txn t o1 = Inr (True, o2)
     \<or> (\<forall>txn t. snd c \<noteq> ConfirmOrder txn t) \<and> ord_confirmedAt (order_step c o1) = ord_confirmedAt o1"
  by (cases c; cases "snd c") (auto simp: order_step_def op_defs open_order_def split: sum.splits if_splits)

lemma effective_confirmations_once:
  "length (effective_confirmations cs o1) \<le> 1 \<and>
   (open_order o1 \<and> ord_confirmedAt o1 = None \<longrightarrow>
      ord_confirmedAt (fold order_step cs o1) =
        (case effective_confirmations cs o1 of [] \<Rightarrow> None
         | c # _ \<Rightarrow> (case snd c of ConfirmOrder _ t \<Rightarrow> Some t | _ \<Rightarrow> None)))"
proof (induction cs arbitrary: o1)
  case (Cons c cs)
  show ?case
  proof (cases "open_order o1")
    case False
    then show ?thesis using order_run_closed [OF False, of "c # cs"] by simp
  next
    case True
    then consider (conf) sys txn t o2 where "c = (sys, ConfirmOrder txn t)" "confirm_order sys txn t o1 = Inr (True, o2)"
      | (other) "\<forall>txn t. snd c \<noteq> ConfirmOrder txn t" "ord_confirmedAt (order_step c o1) = ord_confirmedAt o1"
      using order_step_open [of o1 c] by blast
    then show ?thesis
    proof cases
      case conf
      then have st: "order_step c o1 = o2" by (simp add: order_step_def)
      have "\<not> open_order o2" "ord_confirmedAt o2 = Some t"
        using conf(2) by (auto simp: confirm_order_True, simp add: open_order_def)
      then show ?thesis using order_run_closed [of o2 cs] conf st by simp
    next
      case other
      then have eff: "effective_confirmations (c # cs) o1 = effective_confirmations cs (order_step c o1)"
        by (auto split: order_op.splits)
      show ?thesis
      proof (cases "open_order (order_step c o1)")
        case True
        then show ?thesis using Cons.IH [of "order_step c o1"] eff other(2) by auto
      next
        case False
        then show ?thesis using order_run_closed [OF False, of cs] eff other(2) by simp
      qed
    qed
  qed
qed simp

section \<open>Properties\<close>

text \<open>
  C30: identity and audit trails of an order (domain rule 10). No sequence of calls changes
  the identifiers, the quantity, the amount or the creation time of an order, removes or
  rewrites an entry of its payment or compensation trail, or forgets that it was confirmed.
\<close>

theorem order_identity_and_audit:
  "order_le (fold order_step as o1) (fold order_step (as @ bs) o1)"
  by (rule order_life.run_append_rel)

text \<open>
  C29: the single-confirmation invariant of the order aggregate. However its methods are
  called, \<open>confirm\<close> returns \<open>true\<close> at most once in the life of an order, and for an
  order that starts open and unconfirmed \<open>confirmedAt\<close> is the timestamp of that call,
  whatever happens afterwards.
\<close>

theorem order_confirmed_at_most_once:
  "length (effective_confirmations cs o1) \<le> 1 \<and>
   (open_order o1 \<and> ord_confirmedAt o1 = None \<longrightarrow>
      ord_confirmedAt (fold order_step cs o1) =
        (case effective_confirmations cs o1 of [] \<Rightarrow> None
         | c # _ \<Rightarrow> (case snd c of ConfirmOrder _ t \<Rightarrow> Some t | _ \<Rightarrow> None)))"
  by (rule effective_confirmations_once)

definition sample_order :: order where
  "sample_order = \<lparr>ord_id = ''o'', ord_userId = ''u'', ord_reservationId = ''r'', ord_ticketTypeId = ''t'',
     ord_quantity = 1, ord_totalAmount = \<lparr>amountCents = 500, currency = ''USD''\<rparr>,
     ord_status = OrderStatus.PAYMENT_PENDING, ord_providerTransactionId = None, ord_refundTransactionId = None,
     ord_confirmedAt = None, ord_paymentAttempts = [], ord_compensationAttempts = [],
     ord_createdAt = 1, ord_updatedAt = 1\<rparr>"

definition sample_calls :: "(date \<times> order_op) list" where
  "sample_calls = [(2, MarkPaymentDeclined ''no funds''), (3, ConfirmOrder (Some ''t1'') 30),
     (4, ConfirmOrder (Some ''t2'') 40), (5, MarkRefundRequired ''t1'' ''late''), (6, ConfirmOrder (Some ''t3'') 60)]"

theorem order_confirmed_at_most_once_witness:
  "length (effective_confirmations sample_calls sample_order) \<le> 1 \<and>
   ord_confirmedAt (fold order_step sample_calls sample_order) = Some 30"
proof -
  have e: "effective_confirmations sample_calls sample_order = [(3, ConfirmOrder (Some ''t1'') 30)]" by code_simp
  have "open_order sample_order \<and> ord_confirmedAt sample_order = None" by code_simp
  with order_confirmed_at_most_once [of sample_calls sample_order] show ?thesis unfolding e by simp
qed

end
