(* ===== verification/LP_Payment.thy ===== *)
theory LP_Payment
  imports LP_Catalog
begin

text \<open>
  The payment module, \<^verbatim>\<open>src/src/modules/payment\<close>: the gateway port with its request and
  result types, the fake adapter that implements it, the payment transaction and the use case
  that charges through the port. The diagnostic \<open>rawResponse\<close> of a result, which no code
  reads, is left out, and so is the simulated latency. The payment method token and the
  customer's email are passed on unread.
\<close>

section \<open>The gateway port\<close>

record chargeRequest =
  ch_paymentId :: string
  ch_orderId :: string
  ch_idempotencyKey :: string
  ch_amount :: money
  ch_customerEmail :: "string option"
  ch_paymentMethodToken :: string

datatype ChargeStatus = SUCCESS | DECLINED | TIMEOUT | FAILED

record chargeResult =
  cr_status :: ChargeStatus
  cr_transactionId :: "string option"
  cr_declineCode :: "string option"
  cr_errorMessage :: "string option"

record refundRequest =
  rf_refundId :: string
  rf_transactionId :: string
  rf_orderId :: string
  rf_amount :: money
  rf_reason :: "string option"
  rf_idempotencyKey :: string

datatype RefundStatus = RefundSuccess | RefundFailed | RefundTimeout

record refundResult =
  rr_status :: RefundStatus
  rr_refundTransactionId :: "string option"
  rr_errorMessage :: "string option"

text \<open>
  An implementation of the port over its own state; a rejected promise is an \<^term>\<open>Inl\<close>.
\<close>

type_synonym 'g charge_fn = "chargeRequest \<Rightarrow> 'g \<Rightarrow> chargeResult result \<times> 'g"
type_synonym 'g refund_fn = "refundRequest \<Rightarrow> 'g \<Rightarrow> refundResult result \<times> 'g"

text \<open>
  What the callers rely on, beyond the types: a call resolves (failures are reported in
  \<open>status\<close>), and a successful result carries the transaction identifier its callers
  read with \<open>!\<close>.
\<close>

locale payment_gateway =
  fixes charge :: "'g charge_fn" and refund :: "'g refund_fn"
  assumes charge_resolves: "\<exists>res. fst (charge req g) = Inr res"
    and charge_success_txn:
      "fst (charge req g) = Inr res \<Longrightarrow> cr_status res = ChargeStatus.SUCCESS \<Longrightarrow> truthy (cr_transactionId res)"
    and refund_resolves: "\<exists>res. fst (refund rreq g) = Inr res"
    and refund_success_txn:
      "fst (refund rreq g) = Inr rres \<Longrightarrow> rr_status rres = RefundSuccess \<Longrightarrow> truthy (rr_refundTransactionId rres)"
begin

lemma chargeE:
  obtains res g' where "charge req g = (Inr res, g')"
    "cr_status res = ChargeStatus.SUCCESS \<longrightarrow> truthy (cr_transactionId res)"
proof -
  obtain r g' where c: "charge req g = (r, g')" by fastforce
  obtain res where "r = Inr res" using charge_resolves [of req g] c by auto
  with c that charge_success_txn [of req g res] show thesis by auto
qed

lemma refundE:
  obtains res g' where "refund req g = (Inr res, g')"
    "rr_status res = RefundSuccess \<longrightarrow> truthy (rr_refundTransactionId res)"
proof -
  obtain r g' where c: "refund req g = (r, g')" by fastforce
  obtain res where "r = Inr res" using refund_resolves [of req g] c by auto
  with c that refund_success_txn [of req g res] show thesis by auto
qed

end

section \<open>FakePaymentAdapter\<close>

datatype FakeAdapterMode = ModeSuccess | ModeDeclined | ModeTimeout | ModeMalformed

text \<open>\<open>fa_draws\<close> counts the calls of \<open>randomUUID\<close>; the supply of identifiers is a
  parameter of the operations that draw one.\<close>

record fakeAdapter =
  fa_mode :: FakeAdapterMode
  fa_latencyMs :: int
  fa_declineCode :: string
  fa_declineMessage :: string
  fa_processedCharges :: "chargeRequest list"
  fa_processedRefunds :: "refundRequest list"
  fa_refundFailCount :: int
  fa_draws :: nat

definition new_FakeAdapter :: "FakeAdapterMode \<Rightarrow> fakeAdapter" where
  "new_FakeAdapter initialMode =
     \<lparr>fa_mode = initialMode, fa_latencyMs = 0, fa_declineCode = ''card_declined'',
      fa_declineMessage = ''Your card has insufficient funds'', fa_processedCharges = [],
      fa_processedRefunds = [], fa_refundFailCount = 0, fa_draws = 0\<rparr>"

definition setMode :: "FakeAdapterMode \<Rightarrow> fakeAdapter \<Rightarrow> fakeAdapter" where
  "setMode m a = a\<lparr>fa_mode := m\<rparr>"

definition setLatencyMs :: "int \<Rightarrow> fakeAdapter \<Rightarrow> fakeAdapter" where
  "setLatencyMs ms a = a\<lparr>fa_latencyMs := ms\<rparr>"

definition setDecline :: "string \<Rightarrow> string \<Rightarrow> fakeAdapter \<Rightarrow> fakeAdapter" where
  "setDecline code msg a =
     a\<lparr>fa_mode := ModeDeclined, fa_declineCode := code, fa_declineMessage := msg\<rparr>"

definition simulateSuccess :: "fakeAdapter \<Rightarrow> fakeAdapter" where
  "simulateSuccess a = setMode ModeSuccess a"

definition simulateDecline :: "string \<Rightarrow> string \<Rightarrow> fakeAdapter \<Rightarrow> fakeAdapter" where
  "simulateDecline code msg a = setDecline code msg a"

definition simulateTimeout :: "fakeAdapter \<Rightarrow> fakeAdapter" where
  "simulateTimeout a = setMode ModeTimeout a"

definition simulateMalformed :: "fakeAdapter \<Rightarrow> fakeAdapter" where
  "simulateMalformed a = setMode ModeMalformed a"

definition failNextRefunds :: "int \<Rightarrow> fakeAdapter \<Rightarrow> fakeAdapter" where
  "failNextRefunds n a = a\<lparr>fa_refundFailCount := n\<rparr>"

definition clearHistory :: "fakeAdapter \<Rightarrow> fakeAdapter" where
  "clearHistory a =
     a\<lparr>fa_processedCharges := [], fa_processedRefunds := [], fa_refundFailCount := 0\<rparr>"

definition fake_refund :: "(nat \<Rightarrow> string) \<Rightarrow> fakeAdapter refund_fn" where
  "fake_refund uuids req a =
     (let a1 = a\<lparr>fa_processedRefunds := fa_processedRefunds a @ [req]\<rparr> in
      if 0 < fa_refundFailCount a1 then
        (Inr \<lparr>rr_status = RefundFailed, rr_refundTransactionId = None,
              rr_errorMessage = Some ''Simulated payment network connection failure during refund''\<rparr>,
         a1\<lparr>fa_refundFailCount := fa_refundFailCount a1 - 1\<rparr>)
      else
        (Inr \<lparr>rr_status = RefundSuccess,
              rr_refundTransactionId = Some (''ref_fake_'' @ uuids (fa_draws a1)), rr_errorMessage = None\<rparr>,
         a1\<lparr>fa_draws := Suc (fa_draws a1)\<rparr>))"

definition fake_charge :: "(nat \<Rightarrow> string) \<Rightarrow> fakeAdapter charge_fn" where
  "fake_charge uuids req a =
     (let a1 = a\<lparr>fa_processedCharges := fa_processedCharges a @ [req]\<rparr> in
      case fa_mode a1 of
        ModeSuccess \<Rightarrow>
          (Inr \<lparr>cr_status = ChargeStatus.SUCCESS,
                cr_transactionId = Some (''txn_fake_'' @ uuids (fa_draws a1)),
                cr_declineCode = None, cr_errorMessage = None\<rparr>,
           a1\<lparr>fa_draws := Suc (fa_draws a1)\<rparr>)
      | ModeDeclined \<Rightarrow>
          (Inr \<lparr>cr_status = ChargeStatus.DECLINED, cr_transactionId = None,
                cr_declineCode = Some (fa_declineCode a1), cr_errorMessage = Some (fa_declineMessage a1)\<rparr>, a1)
      | ModeTimeout \<Rightarrow>
          (Inr \<lparr>cr_status = ChargeStatus.TIMEOUT, cr_transactionId = None, cr_declineCode = None,
                cr_errorMessage = Some ''Gateway timed out waiting for upstream acquiring bank''\<rparr>, a1)
      | ModeMalformed \<Rightarrow>
          (Inr \<lparr>cr_status = ChargeStatus.FAILED, cr_transactionId = None, cr_declineCode = None,
                cr_errorMessage = Some ''Malformed vendor payload: Missing required status field''\<rparr>, a1))"

interpretation fake: payment_gateway "fake_charge uuids" "fake_refund uuids" for uuids
  by unfold_locales
    (auto simp: fake_charge_def fake_refund_def Let_def split: FakeAdapterMode.splits if_splits)

section \<open>PaymentTransaction\<close>

datatype PaymentTransactionStatus =
    TxnPending | TxnAuthorized | TxnCaptured | TxnDeclined | TxnTimeout | TxnFailed

record paymentTransaction =
  pt_id :: string
  pt_orderId :: string
  pt_amount :: money
  pt_idempotencyKey :: string
  pt_status :: PaymentTransactionStatus
  pt_providerTransactionId :: "string option"
  pt_failureReason :: "string option"
  pt_createdAt :: date
  pt_updatedAt :: date

definition new_PaymentTransaction ::
    "date \<Rightarrow> string \<Rightarrow> string \<Rightarrow> money \<Rightarrow> string \<Rightarrow> paymentTransaction" where
  "new_PaymentTransaction sys i orderId amount idempotencyKey =
     \<lparr>pt_id = i, pt_orderId = orderId, pt_amount = amount, pt_idempotencyKey = idempotencyKey,
      pt_status = TxnPending, pt_providerTransactionId = None, pt_failureReason = None,
      pt_createdAt = sys, pt_updatedAt = sys\<rparr>"

definition markCaptured :: "date \<Rightarrow> string option \<Rightarrow> paymentTransaction \<Rightarrow> paymentTransaction" where [op_defs]:
  "markCaptured sys txn t = t\<lparr>pt_status := TxnCaptured, pt_providerTransactionId := txn, pt_updatedAt := sys\<rparr>"

definition markDeclined :: "date \<Rightarrow> string \<Rightarrow> paymentTransaction \<Rightarrow> paymentTransaction" where [op_defs]:
  "markDeclined sys reason t =
     t\<lparr>pt_status := TxnDeclined, pt_failureReason := Some reason, pt_updatedAt := sys\<rparr>"

definition markTimeout :: "date \<Rightarrow> paymentTransaction \<Rightarrow> paymentTransaction" where [op_defs]:
  "markTimeout sys t =
     t\<lparr>pt_status := TxnTimeout,
       pt_failureReason := Some ''Payment provider timed out with ambiguous outcome'', pt_updatedAt := sys\<rparr>"

definition markFailed :: "date \<Rightarrow> string \<Rightarrow> paymentTransaction \<Rightarrow> paymentTransaction" where [op_defs]:
  "markFailed sys err t =
     t\<lparr>pt_status := TxnFailed, pt_failureReason := Some err, pt_updatedAt := sys\<rparr>"

section \<open>ProcessPaymentUseCase\<close>

record processPaymentCommand =
  pc_paymentId :: string
  pc_orderId :: string
  pc_amountCents :: jsnum
  pc_currency :: "string option"
  pc_paymentMethodToken :: string
  pc_idempotencyKey :: string
  pc_customerEmail :: "string option"

record useCaseResult =
  uc_transaction :: paymentTransaction
  uc_success :: bool
  uc_errorCode :: "string option"
  uc_errorMessage :: "string option"

definition charge_request :: "processPaymentCommand \<Rightarrow> money \<Rightarrow> chargeRequest" where
  "charge_request cmd m =
     \<lparr>ch_paymentId = pc_paymentId cmd, ch_orderId = pc_orderId cmd,
      ch_idempotencyKey = pc_idempotencyKey cmd, ch_amount = m,
      ch_customerEmail = pc_customerEmail cmd, ch_paymentMethodToken = pc_paymentMethodToken cmd\<rparr>"

definition use_case_result :: "date \<Rightarrow> chargeResult \<Rightarrow> paymentTransaction \<Rightarrow> useCaseResult" where
  "use_case_result sys res t =
     (case cr_status res of
        ChargeStatus.SUCCESS \<Rightarrow>
          \<lparr>uc_transaction = markCaptured sys (cr_transactionId res) t, uc_success = True,
           uc_errorCode = None, uc_errorMessage = None\<rparr>
      | ChargeStatus.DECLINED \<Rightarrow>
          \<lparr>uc_transaction = markDeclined sys (or_default (cr_errorMessage res) ''Card declined'') t,
           uc_success = False,
           uc_errorCode = Some (or_default (cr_declineCode res) ''PAYMENT_DECLINED''),
           uc_errorMessage = cr_errorMessage res\<rparr>
      | ChargeStatus.TIMEOUT \<Rightarrow>
          \<lparr>uc_transaction = markTimeout sys t, uc_success = False,
           uc_errorCode = Some ''PAYMENT_TIMEOUT'',
           uc_errorMessage = Some (or_default (cr_errorMessage res) ''Payment provider timed out'')\<rparr>
      | ChargeStatus.FAILED \<Rightarrow>
          \<lparr>uc_transaction = markFailed sys (or_default (cr_errorMessage res) ''Provider processing error'') t,
           uc_success = False, uc_errorCode = Some ''PAYMENT_FAILED'',
           uc_errorMessage = Some (or_default (cr_errorMessage res) ''Provider failed to process payment'')\<rparr>)"

definition execute_payment ::
    "'g charge_fn \<Rightarrow> date \<Rightarrow> processPaymentCommand \<Rightarrow> 'g \<Rightarrow> useCaseResult result \<times> 'g" where
  "execute_payment charge sys cmd g =
     (case new_Money (pc_amountCents cmd) (or_default (pc_currency cmd) ''USD'') of
        Inl err \<Rightarrow> (Inl err, g)
      | Inr m \<Rightarrow>
          (case charge (charge_request cmd m) g of
             (Inl err, g') \<Rightarrow> (Inl err, g')
           | (Inr res, g') \<Rightarrow>
               (Inr (use_case_result sys res
                  (new_PaymentTransaction sys (pc_paymentId cmd) (pc_orderId cmd) m (pc_idempotencyKey cmd))), g')))"

lemma use_case_result_sound:
  assumes "cr_status res = ChargeStatus.SUCCESS \<longrightarrow> truthy (cr_transactionId res)"
  shows "uc_success (use_case_result sys res t) \<longleftrightarrow> cr_status res = ChargeStatus.SUCCESS"
    and "uc_success (use_case_result sys res t) \<longleftrightarrow>
      pt_status (uc_transaction (use_case_result sys res t)) = TxnCaptured"
    and "uc_success (use_case_result sys res t) \<Longrightarrow>
      pt_providerTransactionId (uc_transaction (use_case_result sys res t)) = cr_transactionId res"
    and "pt_amount (uc_transaction (use_case_result sys res t)) = pt_amount t"
    and "uc_errorCode (use_case_result sys res t) = None \<longleftrightarrow> uc_success (use_case_result sys res t)"
  by (auto simp: use_case_result_def op_defs split: ChargeStatus.splits)

lemma fake_charge_log:
  "fa_processedCharges (snd (fake_charge uuids req a)) = fa_processedCharges a @ [req]"
  by (auto simp: fake_charge_def Let_def split: FakeAdapterMode.splits)

lemma fake_refund_fails:
  "0 < fa_refundFailCount a \<Longrightarrow> \<exists>res a'. fake_refund uuids req a = (Inr res, a') \<and>
     rr_status res = RefundFailed \<and> fa_refundFailCount a' = fa_refundFailCount a - 1"
  by (simp add: fake_refund_def Let_def)

lemma fake_refund_succeeds:
  "fa_refundFailCount a \<le> 0 \<Longrightarrow> \<exists>res a'. fake_refund uuids req a = (Inr res, a') \<and>
     rr_status res = RefundSuccess \<and> truthy (rr_refundTransactionId res) \<and>
     fa_refundFailCount a' = fa_refundFailCount a"
  by (simp add: fake_refund_def Let_def)

section \<open>Properties\<close>

text \<open>
  C31: the payment use case over any gateway that keeps the port's contract. An invalid amount
  throws before the gateway is called; otherwise the gateway is charged once, with the
  command's amount and idempotency key, and the result is a success exactly when the gateway
  reported one, with the transaction captured under the provider's identifier; every other
  report gives a transaction that is not captured and an error code.
\<close>

theorem execute_payment_correct:
  assumes "payment_gateway charge refund"
  shows "case new_Money (pc_amountCents cmd) (or_default (pc_currency cmd) ''USD'') of
      Inl err \<Rightarrow> execute_payment charge sys cmd g = (Inl err, g)
    | Inr m \<Rightarrow> \<exists>res g' u. charge (charge_request cmd m) g = (Inr res, g') \<and>
        execute_payment charge sys cmd g = (Inr u, g') \<and>
        uc_success u = (cr_status res = ChargeStatus.SUCCESS) \<and>
        uc_success u = (pt_status (uc_transaction u) = TxnCaptured) \<and>
        uc_success u = (uc_errorCode u = None) \<and>
        (uc_success u \<longrightarrow> truthy (pt_providerTransactionId (uc_transaction u))) \<and>
        pt_amount (uc_transaction u) = m"
proof (cases "new_Money (pc_amountCents cmd) (or_default (pc_currency cmd) ''USD'')")
  case (Inl err)
  then show ?thesis by (simp add: execute_payment_def)
next
  case (Inr m)
  obtain res g' where ch: "charge (charge_request cmd m) g = (Inr res, g')"
    "cr_status res = ChargeStatus.SUCCESS \<longrightarrow> truthy (cr_transactionId res)"
    by (rule payment_gateway.chargeE [OF assms])
  note s = use_case_result_sound [OF ch(2), of sys
    "new_PaymentTransaction sys (pc_paymentId cmd) (pc_orderId cmd) m (pc_idempotencyKey cmd)"]
  show ?thesis
    unfolding Inr sum.case
    by (rule exI [of _ res], rule exI [of _ g'], rule exI)
      (use s ch in \<open>auto simp: execute_payment_def Inr new_PaymentTransaction_def simp del: new_Money_Inr\<close>)
qed

theorem execute_payment_correct_witness:
  "\<exists>u a. execute_payment (fake_charge (\<lambda>_. ''1'')) 7
      \<lparr>pc_paymentId = ''p'', pc_orderId = ''o'', pc_amountCents = JInt 500, pc_currency = None,
       pc_paymentMethodToken = ''tok'', pc_idempotencyKey = ''k'', pc_customerEmail = None\<rparr>
      (new_FakeAdapter ModeSuccess) = (Inr u, a) \<and> uc_success u"
  using execute_payment_correct [OF fake.payment_gateway_axioms [of "\<lambda>_. ''1''"], where
      cmd = "\<lparr>pc_paymentId = ''p'', pc_orderId = ''o'', pc_amountCents = JInt 500, pc_currency = None,
       pc_paymentMethodToken = ''tok'', pc_idempotencyKey = ''k'', pc_customerEmail = None\<rparr>"
      and g = "new_FakeAdapter ModeSuccess" and sys = 7]
  by (auto simp: new_Money_def or_default_def blank_def trim_def js_space_def fake_charge_def
      new_FakeAdapter_def)

end
