(* ===== verification/LP_Workflow.thy ===== *)
theory LP_Workflow
  imports LP_Inventory LP_Order LP_Payment
begin

text \<open>
  The checkout saga, \<^verbatim>\<open>src/src/modules/order/application/OrderPaymentWorkflow.ts\<close>, over the
  two in-memory repositories and any payment gateway.

  The repositories hold references: a handler that has fetched an order and mutates it has
  already changed what the repository returns, whether or not it later calls \<open>save\<close>, and
  an exception does not undo it. So a mutation is an update of the store at once
  (\<open>put_order\<close>, \<open>put_reservation\<close>), and every handler returns the store as it is left,
  with its result or with the error it throws.

  What the outside world answers during one call is an argument: the gateway's two functions
  over its state, and a record with the ticket issuer (an instance of \<open>Error\<close> it throws, or
  none), the readings of the injected clock (every \<open>clock.now()\<close> of a handler has a number
  of its own), the system clock behind \<open>new Date()\<close>, and the identifiers \<open>randomUUID\<close>
  returns. The ticket issuer is taken not to modify the order it is given. A handler runs to
  its end before the next one starts: interleavings at its \<open>await\<close>s are not modelled.
\<close>

section \<open>State, environment, results\<close>

type_synonym reservation_repo = "(string, reservation) jsmap"

definition save_reservation :: "reservation \<Rightarrow> reservation_repo \<Rightarrow> reservation_repo" where
  "save_reservation r repo = AList.update (res_id r) r repo"

definition find_reservation :: "string \<Rightarrow> reservation_repo \<Rightarrow> reservation option" where
  "find_reservation i repo = map_of repo i"

definition clear_reservations :: "reservation_repo \<Rightarrow> reservation_repo" where
  "clear_reservations repo = []"

interpretation reservation_store: keyed_repository res_id save_reservation find_reservation
  by unfold_locales (simp add: find_reservation_def save_reservation_def)

record 'g workflow =
  wf_orders :: order_repo
  wf_reservations :: reservation_repo
  wf_gateway :: 'g
  wf_processedWebhookEvents :: "string set"

record env =
  env_ticketIssuer :: "order \<Rightarrow> js_error option"
  env_clock :: "nat \<Rightarrow> date"
  env_sys :: date
  env_uuid :: "nat \<Rightarrow> string"

definition put_order :: "order \<Rightarrow> 'g workflow \<Rightarrow> 'g workflow" where
  "put_order o1 w = w\<lparr>wf_orders := save_order o1 (wf_orders w)\<rparr>"

definition put_reservation :: "reservation \<Rightarrow> 'g workflow \<Rightarrow> 'g workflow" where
  "put_reservation r w = w\<lparr>wf_reservations := save_reservation r (wf_reservations w)\<rparr>"

record initiateCheckoutCommand =
  ic_reservationId :: string
  ic_totalAmount :: money

record paymentCommand =
  pp_orderId :: string
  pp_paymentMethodToken :: string
  pp_idempotencyKey :: string
  pp_customerEmail :: "string option"

text \<open>Optional flags of a result are \<^term>\<open>False\<close> when absent.\<close>

record paymentResult =
  pr_success :: bool
  pr_status :: OrderStatus
  pr_transactionId :: "string option"
  pr_recoverable :: bool
  pr_timeout :: bool
  pr_alreadyProcessed :: bool
  pr_message :: "string option"

datatype WebhookStatus = WebhookSuccess | WebhookDeclined | WebhookFailed

record webhookPayload =
  wh_eventId :: string
  wh_orderId :: string
  wh_providerTransactionId :: string
  wh_status :: WebhookStatus
  wh_errorMessage :: "string option"

datatype WebhookOutcome =
    OutcomeConfirmed | DuplicateIgnored | OutcomeDeclined | RefundTriggered | IgnoredAfterConfirmation

record webhookResult =
  wr_handled :: bool
  wr_outcome :: WebhookOutcome
  wr_status :: OrderStatus
  wr_message :: string
  wr_refundInitiated :: bool

datatype CompensationOutcome = Compensated | CompensationFailure | AlreadyCompensated

fun compensation_outcome_str :: "CompensationOutcome \<Rightarrow> string" where
  "compensation_outcome_str Compensated = ''COMPENSATED''"
| "compensation_outcome_str CompensationFailure = ''COMPENSATION_FAILED''"
| "compensation_outcome_str AlreadyCompensated = ''ALREADY_COMPENSATED''"

record compensationResult =
  cp_handled :: bool
  cp_outcome :: CompensationOutcome
  cp_status :: OrderStatus
  cp_refundTransactionId :: "string option"
  cp_errorMessage :: "string option"

section \<open>initiateCheckout\<close>

definition initiateCheckout ::
    "env \<Rightarrow> initiateCheckoutCommand \<Rightarrow> 'g workflow \<Rightarrow> order result \<times> 'g workflow" where
  "initiateCheckout env cmd w =
     (case find_reservation (ic_reservationId cmd) (wf_reservations w) of
        None \<Rightarrow> (Inl (Error (''Reservation not found: '' @ ic_reservationId cmd)), w)
      | Some r \<Rightarrow>
          if res_status r \<noteq> ReservationStatus.PENDING then
            (Inl (Error (''Cannot checkout reservation with status: '' @
               reservation_status_str (res_status r))), w)
          else case startPayment (env_clock env 0) r of
            Inl err \<Rightarrow> (Inl err, w)
          | Inr r' \<Rightarrow>
              let w1 = put_reservation r' w in
              (case new_Order (env_uuid env 0) (res_userId r') (res_id r') (res_ticketTypeId r')
                      (JInt (res_quantity r')) (ic_totalAmount cmd) OrderStatus.PAYMENT_PENDING
                      None None [] (env_sys env) (env_sys env) of
                 Inl err \<Rightarrow> (Inl err, w1)
               | Inr o1 \<Rightarrow> (Inr o1, put_order o1 w1)))"

section \<open>compensateOrder and retryCompensation\<close>

definition refund_key :: "order \<Rightarrow> nat \<Rightarrow> string" where
  "refund_key o1 n = ''refund_'' @ ord_id o1 @ ''_'' @ show_nat n"

text \<open>\<open>providerTxnId || order.providerTransactionId || (first successful attempt)?.providerTransactionId\<close>\<close>

definition charged_txn :: "string option \<Rightarrow> order \<Rightarrow> string option" where
  "charged_txn providerTxnId o1 =
     js_or (js_or providerTxnId (ord_providerTransactionId o1))
       (case find (\<lambda>a. pa_status a = AttemptSuccess) (ord_paymentAttempts o1) of
          None \<Rightarrow> None
        | Some a \<Rightarrow> pa_providerTransactionId a)"

text \<open>Step 1, releasing the hold: \<open>reservation.cancel()\<close> may throw.\<close>

definition release_hold :: "order \<Rightarrow> 'g workflow \<Rightarrow> 'g workflow outcome" where
  "release_hold o1 w =
     (case find_reservation (ord_reservationId o1) (wf_reservations w) of
        None \<Rightarrow> (None, w)
      | Some r \<Rightarrow>
          if res_status r \<noteq> ReservationStatus.CANCELLED \<and> res_status r \<noteq> ReservationStatus.EXPIRED
          then (case cancel_reservation r of
                  Inl err \<Rightarrow> (Some err, w)
                | Inr r' \<Rightarrow> (None, put_reservation r' w))
          else (None, w))"

text \<open>Step 2, the refund through the port, and the outcome it leads to.\<close>

definition refund_order ::
    "'g refund_fn \<Rightarrow> env \<Rightarrow> order \<Rightarrow> string \<Rightarrow> string \<Rightarrow> 'g workflow \<Rightarrow>
     compensationResult result \<times> 'g workflow" where
  "refund_order refund env o1 txnId reason w =
     (let n = length (ord_compensationAttempts o1) + 1;
          key = refund_key o1 n
      in case refund \<lparr>rf_refundId = env_uuid env 1, rf_transactionId = txnId, rf_orderId = ord_id o1,
              rf_amount = ord_totalAmount o1, rf_reason = Some reason, rf_idempotencyKey = key\<rparr>
              (wf_gateway w) of
           (Inl err, g) \<Rightarrow> (Inl err, w\<lparr>wf_gateway := g\<rparr>)
         | (Inr res, g) \<Rightarrow>
             let w1 = w\<lparr>wf_gateway := g\<rparr> in
             if rr_status res = RefundSuccess then
               (Inr \<lparr>cp_handled = True, cp_outcome = Compensated,
                     cp_status = OrderStatus.CANCELLED_REFUNDED,
                     cp_refundTransactionId = rr_refundTransactionId res, cp_errorMessage = None\<rparr>,
                put_order (markCompensated (env_sys env) (rr_refundTransactionId res)
                  (recordCompensationAttempt (env_sys env)
                    \<lparr>ca_attemptNumber = n, ca_idempotencyKey = key, ca_status = CompensationSuccess,
                     ca_refundTransactionId = rr_refundTransactionId res, ca_failureReason = None,
                     ca_timestamp = env_clock env 3\<rparr> o1)) w1)
             else
               (Inr \<lparr>cp_handled = True, cp_outcome = CompensationFailure,
                     cp_status = OrderStatus.COMPENSATION_PENDING, cp_refundTransactionId = None,
                     cp_errorMessage = rr_errorMessage res\<rparr>,
                put_order (markCompensationPending (env_sys env)
                  (or_default (rr_errorMessage res) ''Refund failed at provider'')
                  (recordCompensationAttempt (env_sys env)
                    \<lparr>ca_attemptNumber = n, ca_idempotencyKey = key, ca_status = CompensationFailed,
                     ca_refundTransactionId = None,
                     ca_failureReason = Some (or_default (rr_errorMessage res) ''Refund failed at provider''),
                     ca_timestamp = env_clock env 3\<rparr> o1)) w1))"

definition compensateOrder ::
    "'g refund_fn \<Rightarrow> env \<Rightarrow> string \<Rightarrow> string option \<Rightarrow> string \<Rightarrow> 'g workflow \<Rightarrow>
     compensationResult result \<times> 'g workflow" where
  "compensateOrder refund env orderId providerTxnId reason w =
     (case find_order orderId (wf_orders w) of
        None \<Rightarrow> (Inl (Error (''Order not found for compensation: '' @ orderId)), w)
      | Some o1 \<Rightarrow>
          if ord_status o1 = OrderStatus.CANCELLED_REFUNDED then
            (Inr \<lparr>cp_handled = True, cp_outcome = AlreadyCompensated,
                  cp_status = OrderStatus.CANCELLED_REFUNDED,
                  cp_refundTransactionId = ord_refundTransactionId o1, cp_errorMessage = None\<rparr>, w)
          else case release_hold o1 w of
            (Some err, w1) \<Rightarrow> (Inl err, w1)
          | (None, w1) \<Rightarrow>
              if \<not> truthy (charged_txn providerTxnId o1) then
                (case cancel_order (env_sys env) o1 of
                   Inl err \<Rightarrow> (Inl err, w1)
                 | Inr o2 \<Rightarrow>
                     (Inr \<lparr>cp_handled = True, cp_outcome = Compensated, cp_status = OrderStatus.CANCELLED,
                           cp_refundTransactionId = None, cp_errorMessage = None\<rparr>, put_order o2 w1))
              else refund_order refund env o1 (the (charged_txn providerTxnId o1)) reason w1)"

definition retryCompensation ::
    "'g refund_fn \<Rightarrow> env \<Rightarrow> string \<Rightarrow> 'g workflow \<Rightarrow> compensationResult result \<times> 'g workflow" where
  "retryCompensation refund env orderId w =
     (case find_order orderId (wf_orders w) of
        None \<Rightarrow> (Inl (Error (''Order not found for retry compensation: '' @ orderId)), w)
      | Some o1 \<Rightarrow>
          if ord_status o1 \<noteq> OrderStatus.COMPENSATION_PENDING then
            (Inl (Error (''Cannot retry compensation for order with status: '' @
               order_status_str (ord_status o1))), w)
          else compensateOrder refund env orderId None ''Retry compensation'' w)"

section \<open>processPayment\<close>

text \<open>Marking an order declined and handing the hold back to the buyer while it lasts; both
  the declined and the failed branch, and the webhook, do this.\<close>

definition decline_order ::
    "env \<Rightarrow> string \<Rightarrow> reservation \<Rightarrow> order \<Rightarrow> 'g workflow \<Rightarrow> 'g workflow outcome" where
  "decline_order env reason r o1 w =
     (case markPaymentDeclined (env_sys env) reason o1 of
        Inl err \<Rightarrow> (Some err, w)
      | Inr o2 \<Rightarrow>
          let w1 = put_order o2 w in
          if env_clock env 1 \<le> res_expiresAt r then
            (case revertPaymentDecline r of
               Inl err \<Rightarrow> (Some err, w1)
             | Inr r' \<Rightarrow> (None, put_reservation r' w1))
          else (None, w1))"

text \<open>The \<open>try\<close> block after a successful charge: ticket issuance, then the two
  confirmations, in this order.\<close>

definition fulfil_order ::
    "env \<Rightarrow> string option \<Rightarrow> reservation \<Rightarrow> order \<Rightarrow> 'g workflow \<Rightarrow> 'g workflow outcome" where
  "fulfil_order env txn r o1 w =
     (case env_ticketIssuer env o1 of
        Some err \<Rightarrow> (Some err, w)
      | None \<Rightarrow>
          (case confirm_order (env_sys env) txn (env_clock env 1) o1 of
             Inl err \<Rightarrow> (Some err, w)
           | Inr (_, o2) \<Rightarrow>
               let w1 = put_order o2 w in
               (case confirm_reservation (env_clock env 2) r of
                  Inl err \<Rightarrow> (Some err, w1)
                | Inr r' \<Rightarrow> (None, put_reservation r' w1))))"

definition attempt_of ::
    "env \<Rightarrow> paymentCommand \<Rightarrow> order \<Rightarrow> AttemptStatus \<Rightarrow> string option \<Rightarrow> string option \<Rightarrow> paymentAttempt" where
  "attempt_of env cmd o1 st txn reason =
     \<lparr>pa_attemptNumber = length (ord_paymentAttempts o1) + 1, pa_idempotencyKey = pp_idempotencyKey cmd,
      pa_status = st, pa_providerTransactionId = txn, pa_failureReason = reason,
      pa_timestamp = env_clock env 0\<rparr>"

definition payment_result ::
    "bool \<Rightarrow> OrderStatus \<Rightarrow> string option \<Rightarrow> bool \<Rightarrow> bool \<Rightarrow> bool \<Rightarrow> string option \<Rightarrow> paymentResult" where
  "payment_result success status txn recoverable timeout alreadyProcessed msg =
     \<lparr>pr_success = success, pr_status = status, pr_transactionId = txn, pr_recoverable = recoverable,
      pr_timeout = timeout, pr_alreadyProcessed = alreadyProcessed, pr_message = msg\<rparr>"

text \<open>What follows the charge, by the status it reports. \<open>o1\<close> is the order and \<open>w\<close> the
  store after the charge.\<close>

definition after_charge ::
    "'g refund_fn \<Rightarrow> env \<Rightarrow> paymentCommand \<Rightarrow> chargeResult \<Rightarrow> reservation \<Rightarrow> order \<Rightarrow> 'g workflow \<Rightarrow>
     paymentResult result \<times> 'g workflow" where
  "after_charge refund env cmd res r o1 w =
     (case cr_status res of
        ChargeStatus.SUCCESS \<Rightarrow>
          let o2 = recordPaymentAttempt (env_sys env)
                (attempt_of env cmd o1 AttemptSuccess (cr_transactionId res) None) o1
          in (case fulfil_order env (cr_transactionId res) r o2 (put_order o2 w) of
               (None, w2) \<Rightarrow>
                 (Inr (payment_result True OrderStatus.CONFIRMED (cr_transactionId res) False False False None), w2)
             | (Some err, w2) \<Rightarrow>
                 (case compensateOrder refund env (ord_id o1) (cr_transactionId res) (message err) w2 of
                    (Inl err', w3) \<Rightarrow> (Inl err', w3)
                  | (Inr cres, w3) \<Rightarrow>
                      (Inr (payment_result False (cp_status cres) None False False False
                         (Some (''Post-payment fulfillment failed: '' @ message err @ ''. Compensation: '' @
                            compensation_outcome_str (cp_outcome cres)))), w3)))
      | ChargeStatus.DECLINED \<Rightarrow>
          let reason = or_default (cr_errorMessage res) ''Card declined'';
              o2 = recordPaymentAttempt (env_sys env)
                (attempt_of env cmd o1 AttemptDeclined None (Some reason)) o1
          in (case decline_order env reason r o2 (put_order o2 w) of
               (Some err, w2) \<Rightarrow> (Inl err, w2)
             | (None, w2) \<Rightarrow>
                 (Inr (payment_result False OrderStatus.PAYMENT_DECLINED None True False False
                    (Some (or_default (cr_errorMessage res) ''Payment card was declined''))), w2))
      | ChargeStatus.TIMEOUT \<Rightarrow>
          let o2 = recordPaymentAttempt (env_sys env)
                (attempt_of env cmd o1 AttemptTimeout None
                  (Some (or_default (cr_errorMessage res) ''Gateway timeout''))) o1
          in (Inr (payment_result False OrderStatus.PAYMENT_PENDING None False True False
                (Some ''Payment request timed out. Status is pending provider reconciliation.'')),
              put_order o2 w)
      | ChargeStatus.FAILED \<Rightarrow>
          let reason = or_default (cr_errorMessage res) ''Provider failure'';
              o2 = recordPaymentAttempt (env_sys env)
                (attempt_of env cmd o1 AttemptFailed None (Some reason)) o1
          in (case decline_order env reason r o2 (put_order o2 w) of
               (Some err, w2) \<Rightarrow> (Inl err, w2)
             | (None, w2) \<Rightarrow>
                 (Inr (payment_result False OrderStatus.PAYMENT_DECLINED None True False False
                    (Some (or_default (cr_errorMessage res) ''Provider failed to process payment''))), w2)))"

text \<open>\<open>order.paymentAttempts.find((a) => a.idempotencyKey === command.idempotencyKey)\<close>\<close>

definition existing_attempt :: "paymentCommand \<Rightarrow> order \<Rightarrow> paymentAttempt option" where
  "existing_attempt cmd o1 =
     find (\<lambda>a. pa_idempotencyKey a = pp_idempotencyKey cmd) (ord_paymentAttempts o1)"

fun succeeded_attempt :: "paymentAttempt option \<Rightarrow> bool" where
  "succeeded_attempt None = False"
| "succeeded_attempt (Some a) = (pa_status a = AttemptSuccess)"

definition workflow_charge_request :: "env \<Rightarrow> paymentCommand \<Rightarrow> order \<Rightarrow> chargeRequest" where
  "workflow_charge_request env cmd o1 =
     \<lparr>ch_paymentId = env_uuid env 0, ch_orderId = ord_id o1,
      ch_idempotencyKey = pp_idempotencyKey cmd, ch_amount = ord_totalAmount o1,
      ch_customerEmail = pp_customerEmail cmd, ch_paymentMethodToken = pp_paymentMethodToken cmd\<rparr>"

text \<open>A declined order is reopened before the charge: \<open>retryPayment\<close> does not throw here,
  its guard is the condition of the \<open>if\<close>.\<close>

definition reopen :: "env \<Rightarrow> order \<Rightarrow> order" where
  "reopen env o1 =
     (if ord_status o1 = OrderStatus.PAYMENT_DECLINED
      then (case retryPayment (env_sys env) o1 of Inr o2 \<Rightarrow> o2 | Inl _ \<Rightarrow> o1)
      else o1)"

definition processPayment ::
    "'g charge_fn \<Rightarrow> 'g refund_fn \<Rightarrow> env \<Rightarrow> paymentCommand \<Rightarrow> 'g workflow \<Rightarrow>
     paymentResult result \<times> 'g workflow" where
  "processPayment charge refund env cmd w =
     (case find_order (pp_orderId cmd) (wf_orders w) of
        None \<Rightarrow> (Inl (Error (''Order not found: '' @ pp_orderId cmd)), w)
      | Some o1 \<Rightarrow>
     (case find_reservation (ord_reservationId o1) (wf_reservations w) of
        None \<Rightarrow> (Inl (Error (''Reservation not found: '' @ ord_reservationId o1)), w)
      | Some r \<Rightarrow>
        if succeeded_attempt (existing_attempt cmd o1) then
          (Inr (payment_result True (ord_status o1)
             (pa_providerTransactionId (the (existing_attempt cmd o1))) False False True
             (Some ''Payment already successfully processed for this idempotency key'')), w)
        else if ord_status o1 = OrderStatus.CONFIRMED then
          (Inr (payment_result True OrderStatus.CONFIRMED (ord_providerTransactionId o1)
             False False True (Some ''Order already confirmed'')), w)
        else
          let o2 = reopen env o1; w1 = put_order o2 w
          in (case charge (workflow_charge_request env cmd o2) (wf_gateway w1) of
                (Inl err, g) \<Rightarrow> (Inl err, w1\<lparr>wf_gateway := g\<rparr>)
              | (Inr res, g) \<Rightarrow> after_charge refund env cmd res r o2 (w1\<lparr>wf_gateway := g\<rparr>))))"

section \<open>handlePaymentWebhook\<close>

definition webhook_result :: "WebhookOutcome \<Rightarrow> OrderStatus \<Rightarrow> string \<Rightarrow> bool \<Rightarrow> webhookResult" where
  "webhook_result outcome status msg refund =
     \<lparr>wr_handled = True, wr_outcome = outcome, wr_status = status, wr_message = msg,
      wr_refundInitiated = refund\<rparr>"

definition add_event :: "string \<Rightarrow> 'g workflow \<Rightarrow> 'g workflow" where
  "add_event i w = w\<lparr>wf_processedWebhookEvents := insert i (wf_processedWebhookEvents w)\<rparr>"

definition is_late :: "env \<Rightarrow> order \<Rightarrow> reservation \<Rightarrow> bool" where
  "is_late env o1 r \<longleftrightarrow>
     res_status r = ReservationStatus.EXPIRED \<or> ord_status o1 = OrderStatus.EXPIRED \<or>
     res_expiresAt r < env_clock env 0"

definition webhook_success ::
    "env \<Rightarrow> webhookPayload \<Rightarrow> reservation \<Rightarrow> order \<Rightarrow> 'g workflow \<Rightarrow> webhookResult result \<times> 'g workflow" where
  "webhook_success env p r o1 w =
     (if is_late env o1 r then
        (Inr (webhook_result RefundTriggered OrderStatus.REFUND_REQUIRED
           ''Late payment received after reservation expired. Initiated automatic refund to protect inventory invariant.''
           True),
         add_event (wh_eventId p)
           (put_order (markRefundRequired (env_sys env) (wh_providerTransactionId p)
              ''Late payment received after reservation expiration'' o1) w))
      else case confirm_order (env_sys env) (Some (wh_providerTransactionId p)) (env_clock env 1) o1 of
        Inl err \<Rightarrow> (Inl err, w)
      | Inr (_, o2) \<Rightarrow>
          let w1 = put_order o2 w in
          (case confirm_reservation (env_clock env 2) r of
             Inl err \<Rightarrow> (Inl err, w1)
           | Inr r' \<Rightarrow>
               (Inr (webhook_result OutcomeConfirmed OrderStatus.CONFIRMED
                  ''Order successfully confirmed via webhook'' False),
                put_reservation r' (add_event (wh_eventId p) w1))))"

definition handlePaymentWebhook ::
    "env \<Rightarrow> webhookPayload \<Rightarrow> 'g workflow \<Rightarrow> webhookResult result \<times> 'g workflow" where
  "handlePaymentWebhook env p w =
     (if wh_eventId p \<in> wf_processedWebhookEvents w then
        (Inr (webhook_result DuplicateIgnored
           (case find_order (wh_orderId p) (wf_orders w) of
              Some o1 \<Rightarrow> ord_status o1 | None \<Rightarrow> OrderStatus.CONFIRMED)
           (''Webhook event '' @ wh_eventId p @ '' has already been processed'') False), w)
      else
     (case find_order (wh_orderId p) (wf_orders w) of
        None \<Rightarrow> (Inl (Error (''Order not found for webhook: '' @ wh_orderId p)), w)
      | Some o1 \<Rightarrow>
     (case find_reservation (ord_reservationId o1) (wf_reservations w) of
        None \<Rightarrow> (Inl (Error (''Reservation not found for webhook: '' @ ord_reservationId o1)), w)
      | Some r \<Rightarrow>
        if ord_status o1 = OrderStatus.CONFIRMED then
          (Inr (webhook_result DuplicateIgnored OrderStatus.CONFIRMED
             ''Order was already confirmed; ignoring duplicate callback'' False),
           add_event (wh_eventId p) w)
        else if wh_status p = WebhookSuccess then webhook_success env p r o1 w
        else
          (case decline_order env (or_default (wh_errorMessage p) ''Webhook reported payment declined'') r o1 w of
             (Some err, w1) \<Rightarrow> (Inl err, w1)
           | (None, w1) \<Rightarrow>
               (Inr (webhook_result OutcomeDeclined OrderStatus.PAYMENT_DECLINED
                  ''Order payment marked declined via webhook'' False),
                add_event (wh_eventId p) w1)))))"

section \<open>Expiry of a reservation outside the saga\<close>

text \<open>What the expiry scanner does to one reservation of the repository: \<open>expire\<close>, then
  \<open>save\<close>.\<close>

definition expire_in_repo :: "env \<Rightarrow> string \<Rightarrow> 'g workflow \<Rightarrow> 'g workflow" where
  "expire_in_repo env i w =
     (case find_reservation i (wf_reservations w) of
        None \<Rightarrow> w
      | Some r \<Rightarrow>
          (case expire_reservation (env_clock env 0) r of
             Inl _ \<Rightarrow> w
           | Inr r' \<Rightarrow> put_reservation r' w))"

end
