(* ===== verification/LP_WorkflowInv.thy ===== *)
theory LP_WorkflowInv
  imports LP_Workflow
begin

text \<open>
  The invariant that ties every order to its reservation, over all reachable states of the
  saga. A handler works on one order and its reservation (a pair); the lemmas say what each
  step leaves of that pair and that it touches nothing else, and the invariant follows pair
  by pair.
\<close>

section \<open>Looking things up after a step\<close>

lemma find_put_order [simp]:
  "find_order i (wf_orders (put_order o1 w)) = (if i = ord_id o1 then Some o1 else find_order i (wf_orders w))"
  by (simp add: put_order_def order_store.find_save)

lemma find_put_reservation [simp]:
  "find_reservation i (wf_reservations (put_reservation r w)) =
     (if i = res_id r then Some r else find_reservation i (wf_reservations w))"
  by (simp add: put_reservation_def reservation_store.find_save)

lemma put_frames [simp]:
  "wf_reservations (put_order o1 w) = wf_reservations w"
  "wf_orders (put_reservation r w) = wf_orders w"
  "wf_gateway (put_order o1 w) = wf_gateway w"
  "wf_gateway (put_reservation r w) = wf_gateway w"
  "wf_processedWebhookEvents (put_order o1 w) = wf_processedWebhookEvents w"
  "wf_processedWebhookEvents (put_reservation r w) = wf_processedWebhookEvents w"
  "wf_orders (add_event i w) = wf_orders w"
  "wf_reservations (add_event i w) = wf_reservations w"
  "wf_gateway (add_event i w) = wf_gateway w"
  by (simp_all add: put_order_def put_reservation_def add_event_def)

section \<open>Pairs\<close>

text \<open>From \<open>w\<close> to \<open>w'\<close> only the order \<open>o1\<close> (now \<open>o2\<close>) and the reservation \<open>r\<close>
  (now \<open>r2\<close>) may have changed, the reservation in its status only.\<close>

definition pair_step ::
    "'g workflow \<Rightarrow> order \<Rightarrow> reservation \<Rightarrow> 'g workflow \<Rightarrow> order \<Rightarrow> reservation \<Rightarrow> bool" where
  "pair_step w o1 r w' o2 r2 \<longleftrightarrow>
     same_identity o1 o2 \<and> r2 = r\<lparr>res_status := res_status r2\<rparr> \<and>
     (\<forall>i. find_order i (wf_orders w') = (if i = ord_id o1 then Some o2 else find_order i (wf_orders w))) \<and>
     (\<forall>i. find_reservation i (wf_reservations w') =
        (if i = res_id r then Some r2 else find_reservation i (wf_reservations w)))"

lemma pair_refl:
  "find_order (ord_id o1) (wf_orders w) = Some o1 \<Longrightarrow>
   find_reservation (res_id r) (wf_reservations w) = Some r \<Longrightarrow> pair_step w o1 r w o1 r"
  by (simp add: pair_step_def same_identity_def)

lemma pair_put_order:
  "pair_step w o1 r w1 o2 r2 \<Longrightarrow> same_identity o2 o3 \<Longrightarrow> pair_step w o1 r (put_order o3 w1) o3 r2"
  by (auto simp: pair_step_def same_identity_def)

lemma pair_put_reservation:
  assumes "pair_step w o1 r w1 o2 r2" "r3 = r2\<lparr>res_status := st\<rparr>"
  shows "pair_step w o1 r (put_reservation r3 w1) o2 r3"
proof -
  have r2: "r2 = r\<lparr>res_status := res_status r2\<rparr>" using assms(1) by (simp add: pair_step_def)
  then have "r3 = r\<lparr>res_status := st\<rparr>" using assms(2) by (metis reservation.update_convs(7) reservation.surjective)
  then show ?thesis using assms(1) by (simp add: pair_step_def)
qed

lemma pair_irrelevant [simp]:
  "pair_step w o1 r (w1\<lparr>wf_gateway := g\<rparr>) o2 r2 = pair_step w o1 r w1 o2 r2"
  "pair_step w o1 r (add_event i w1) o2 r2 = pair_step w o1 r w1 o2 r2"
  by (simp_all add: pair_step_def)

lemma pair_found:
  assumes "pair_step w o1 r w1 o2 r2"
  shows "find_order (ord_id o1) (wf_orders w1) = Some o2" "ord_id o2 = ord_id o1"
    "find_reservation (res_id r) (wf_reservations w1) = Some r2" "res_id r2 = res_id r"
    "ord_reservationId o2 = ord_reservationId o1" "res_expiresAt r2 = res_expiresAt r"
proof -
  have r2: "r2 = r\<lparr>res_status := res_status r2\<rparr>" using assms by (simp add: pair_step_def)
  show "res_id r2 = res_id r" "res_expiresAt r2 = res_expiresAt r"
    by (subst r2, simp)+
qed (use assms in \<open>auto simp: pair_step_def same_identity_def\<close>)

text \<open>Every order method keeps the identity.\<close>

lemma identity_simps [simp]:
  "same_identity o1 o1"
  "same_identity o1 (recordPaymentAttempt sys a o1)"
  "same_identity o1 (markRefundRequired sys t1 reason o1)"
  "same_identity o1 (markCompensated sys ref (recordCompensationAttempt sys c o1))"
  "same_identity o1 (markCompensationPending sys reason (recordCompensationAttempt sys c o1))"
  "same_identity o1 (reopen env o1)"
  "confirm_order sys txn t o1 = Inr (b, o2) \<Longrightarrow> same_identity o1 o2"
  "markPaymentDeclined sys reason o1 = Inr o2 \<Longrightarrow> same_identity o1 o2"
  "cancel_order sys o1 = Inr o2 \<Longrightarrow> same_identity o1 o2"
  by (auto simp: same_identity_def op_defs reopen_def split: if_splits)

section \<open>Coherence of an order with its reservation\<close>

definition coherent :: "OrderStatus \<Rightarrow> ReservationStatus \<Rightarrow> bool" where
  "coherent os rs \<longleftrightarrow>
     (os = OrderStatus.CONFIRMED \<longleftrightarrow> rs = ReservationStatus.CONFIRMED) \<and>
     (os \<in> {OrderStatus.CREATED, OrderStatus.PAYMENT_PENDING, OrderStatus.PAYMENT_DECLINED} \<longrightarrow>
        rs \<noteq> ReservationStatus.CANCELLED) \<and>
     (os \<in> {OrderStatus.CANCELLED, OrderStatus.CANCELLED_REFUNDED, OrderStatus.COMPENSATION_PENDING} \<longrightarrow>
        rs \<in> {ReservationStatus.CANCELLED, ReservationStatus.EXPIRED})"

abbreviation coherent_pair :: "order \<Rightarrow> reservation \<Rightarrow> bool" where
  "coherent_pair o1 r \<equiv> coherent (ord_status o1) (res_status r)"

lemma decline_pair:
  assumes "pair_step w0 o0 r0 w o1 r" "decline_order env reason r o1 w = (err, w')"
  obtains o2 r2 where "pair_step w0 o0 r0 w' o2 r2" "coherent_pair o1 r \<longrightarrow> coherent_pair o2 r2"
proof (cases "markPaymentDeclined (env_sys env) reason o1")
  case (Inl e)
  then show thesis using assms that by (auto simp: decline_order_def)
next
  case (Inr o2)
  have st: "ord_status o1 = OrderStatus.PAYMENT_PENDING" "ord_status o2 = OrderStatus.PAYMENT_DECLINED"
    using Inr by (auto simp: op_defs split: if_splits)
  have p: "pair_step w0 o0 r0 (put_order o2 w) o2 r"
    using pair_put_order [OF assms(1)] Inr by simp
  show thesis
  proof (cases "env_clock env 1 \<le> res_expiresAt r \<and> (\<exists>r'. revertPaymentDecline r = Inr r')")
    case True
    then obtain r' where r': "revertPaymentDecline r = Inr r'" by blast
    then have "r' = r\<lparr>res_status := ReservationStatus.PENDING\<rparr>" by (auto simp: op_defs split: if_splits)
    moreover from this have "pair_step w0 o0 r0 (put_reservation r' (put_order o2 w)) o2 r'"
      by (intro pair_put_reservation [OF p])
    ultimately show thesis using assms(2) Inr True r' st that by (auto simp: decline_order_def coherent_def)
  next
    case False
    then have "w' = put_order o2 w"
      using assms(2) Inr by (auto simp: decline_order_def Let_def split: if_splits sum.splits)
    with p st show thesis using that by (auto simp: coherent_def)
  qed
qed

lemma fulfil_pair:
  assumes "pair_step w0 o0 r0 w o1 r" "fulfil_order env txn r o1 w = (err, w')"
    and "coherent_pair o1 r" "ord_status o1 \<noteq> OrderStatus.CONFIRMED"
  obtains (done_ok) o2 r2 where "err = None" "pair_step w0 o0 r0 w' o2 r2"
      "ord_status o2 = OrderStatus.CONFIRMED" "res_status r2 = ReservationStatus.CONFIRMED"
      "env_clock env 2 \<le> res_expiresAt r" "open_order o1" "ord_providerTransactionId o2 = txn"
      "ord_paymentAttempts o2 = ord_paymentAttempts o1"
  | (failed) e o2 where "err = Some e" "pair_step w0 o0 r0 w' o2 r"
      "res_status r \<noteq> ReservationStatus.CONFIRMED" "o2 = o1 \<or> ord_status o2 = OrderStatus.CONFIRMED"
proof -
  have nc: "res_status r \<noteq> ReservationStatus.CONFIRMED" using assms(3,4) by (auto simp: coherent_def)
  consider (early) e where "err = Some e" "w' = w"
    | (conf) b o2 where "confirm_order (env_sys env) txn (env_clock env 1) o1 = Inr (b, o2)"
        "fulfil_order env txn r o1 w =
          (case confirm_reservation (env_clock env 2) r of
             Inl err \<Rightarrow> (Some err, put_order o2 w)
           | Inr r' \<Rightarrow> (None, put_reservation r' (put_order o2 w)))"
  proof (cases "env_ticketIssuer env o1")
    case None
    then show thesis using assms(2) that
      by (cases "confirm_order (env_sys env) txn (env_clock env 1) o1") (auto simp: fulfil_order_def Let_def)
  next
    case (Some e)
    with assms(2) have "err = Some e" "w' = w" by (auto simp: fulfil_order_def)
    then show thesis by (rule that(1))
  qed
  then show thesis
  proof cases
    case early
    with assms(1) nc failed show thesis by blast
  next
    case conf
    have o2: "ord_status o2 = OrderStatus.CONFIRMED" "ord_providerTransactionId o2 = txn" "open_order o1"
      "ord_paymentAttempts o2 = ord_paymentAttempts o1"
      using conf(1) assms(4) by (auto simp: op_defs open_order_def split: if_splits)
    have p: "pair_step w0 o0 r0 (put_order o2 w) o2 r"
      using pair_put_order [OF assms(1)] conf(1) by simp
    show thesis
    proof (cases "confirm_reservation (env_clock env 2) r")
      case (Inl e)
      with conf(2) assms(2) p nc o2(1) failed show thesis by auto
    next
      case (Inr r')
      then have r': "r' = r\<lparr>res_status := ReservationStatus.CONFIRMED\<rparr>" "env_clock env 2 \<le> res_expiresAt r"
        by (auto simp: op_defs split: if_splits)
      with p have "pair_step w0 o0 r0 (put_reservation r' (put_order o2 w)) o2 r'"
        by (intro pair_put_reservation)
      with conf(2) assms(2) Inr r' o2 done_ok show thesis by auto
    qed
  qed
qed

lemma fulfil_gateway:
  "fulfil_order env txn r o1 w = (err, w') \<Longrightarrow> wf_gateway w' = wf_gateway w"
  by (auto simp: fulfil_order_def Let_def split: option.splits sum.splits prod.splits)

lemma pair_same_identity:
  "pair_step w0 o0 r0 w o1 r \<Longrightarrow> pair_step w0 o0 r0 w' o2 r' \<Longrightarrow> same_identity o1 o2"
  by (auto simp: pair_step_def same_identity_def)

lemma release_pair:
  assumes "pair_step w0 o0 r0 w o1 r" "res_id r = ord_reservationId o1"
    and "res_status r \<noteq> ReservationStatus.CONFIRMED"
  obtains w' r2 where "release_hold o1 w = (None, w')" "pair_step w0 o0 r0 w' o1 r2"
    "res_status r2 \<in> {ReservationStatus.CANCELLED, ReservationStatus.EXPIRED}"
    "wf_gateway w' = wf_gateway w"
proof -
  have f: "find_reservation (ord_reservationId o1) (wf_reservations w) = Some r"
    using pair_found(3,4) [OF assms(1)] assms(2) by simp
  show thesis
  proof (cases "res_status r \<in> {ReservationStatus.CANCELLED, ReservationStatus.EXPIRED}")
    case True
    with f assms(1) that show thesis by (auto simp: release_hold_def)
  next
    case False
    define r' where "r' = r\<lparr>res_status := ReservationStatus.CANCELLED\<rparr>"
    from assms(3) False have "cancel_reservation r = Inr r'"
      by (cases "res_status r") (auto simp: op_defs r'_def)
    with f False have "release_hold o1 w = (None, put_reservation r' w)" by (simp add: release_hold_def)
    moreover have "pair_step w0 o0 r0 (put_reservation r' w) o1 r'"
      by (rule pair_put_reservation [OF assms(1) r'_def])
    ultimately show thesis using that by (simp add: r'_def)
  qed
qed

text \<open>The gateway was asked once to refund \<open>txn\<close>, for this order and its full amount, and
  \<open>o2\<close> carries the outcome.\<close>

definition refunded_by ::
    "'g refund_fn \<Rightarrow> string \<Rightarrow> order \<Rightarrow> 'g \<Rightarrow> order \<Rightarrow> 'g \<Rightarrow> bool" where
  "refunded_by refund txn o1 g o2 g' \<longleftrightarrow>
     (\<exists>req res. refund req g = (Inr res, g') \<and> rf_transactionId req = txn \<and> rf_orderId req = ord_id o1 \<and>
        rf_amount req = ord_totalAmount o1 \<and>
        (if rr_status res = RefundSuccess
         then ord_status o2 = OrderStatus.CANCELLED_REFUNDED \<and>
           ord_refundTransactionId o2 = rr_refundTransactionId res \<and> truthy (ord_refundTransactionId o2)
         else ord_status o2 = OrderStatus.COMPENSATION_PENDING))"

lemma refunded_by_status:
  "refunded_by refund txn o1 g o2 g' \<Longrightarrow>
     ord_status o2 \<in> {OrderStatus.CANCELLED_REFUNDED, OrderStatus.COMPENSATION_PENDING}"
  by (auto simp: refunded_by_def split: if_splits)

lemma refunded_by_same: "same_identity o1 o2 \<Longrightarrow> refunded_by refund txn o2 = refunded_by refund txn o1"
  by (simp add: refunded_by_def same_identity_def fun_eq_iff)

lemma refund_pair:
  assumes gw: "payment_gateway charge refund" and p0: "pair_step w0 o0 r0 w o1 r"
  obtains w' o2 res where "refund_order refund env o1 txn reason w = (Inr res, w')"
    "pair_step w0 o0 r0 w' o2 r" "cp_status res = ord_status o2"
    "refunded_by refund txn o1 (wf_gateway w) o2 (wf_gateway w')"
proof -
  define key where "key = refund_key o1 (length (ord_compensationAttempts o1) + 1)"
  define req where "req = \<lparr>rf_refundId = env_uuid env 1, rf_transactionId = txn, rf_orderId = ord_id o1,
    rf_amount = ord_totalAmount o1, rf_reason = Some reason, rf_idempotencyKey = key\<rparr>"
  obtain res g where c: "refund req (wf_gateway w) = (Inr res, g)"
    "rr_status res = RefundSuccess \<longrightarrow> truthy (rr_refundTransactionId res)"
    by (rule payment_gateway.refundE [OF gw])
  obtain out w' where out: "refund_order refund env o1 txn reason w = (out, w')" by fastforce
  then obtain o2 cres where o2: "w' = put_order o2 (w\<lparr>wf_gateway := g\<rparr>)" "same_identity o1 o2"
    "out = Inr cres" "cp_status cres = ord_status o2"
    and st: "if rr_status res = RefundSuccess
     then ord_status o2 = OrderStatus.CANCELLED_REFUNDED \<and> ord_refundTransactionId o2 = rr_refundTransactionId res
     else ord_status o2 = OrderStatus.COMPENSATION_PENDING"
    using c unfolding refund_order_def Let_def key_def [symmetric] req_def [symmetric]
    by (cases "rr_status res = RefundSuccess") (auto simp: op_defs same_identity_def)
  have "pair_step w0 o0 r0 w' o2 r"
    unfolding o2(1) by (rule pair_put_order [OF _ o2(2)]) (simp add: p0)
  moreover have "refunded_by refund txn o1 (wf_gateway w) o2 g"
    unfolding refunded_by_def
    by (rule exI [of _ req], rule exI [of _ res]) (use c st in \<open>auto simp: req_def split: if_splits\<close>)
  ultimately show thesis using that out o2 by simp
qed

lemma compensate_pair:
  assumes gw: "payment_gateway charge refund"
    and p: "pair_step w0 o0 r0 w o1 r" and rid: "res_id r = ord_reservationId o1"
    and nc: "res_status r \<noteq> ReservationStatus.CONFIRMED"
    and "truthy txn \<or> ord_status o1 \<noteq> OrderStatus.CONFIRMED"
    and "ord_status o1 = OrderStatus.CANCELLED_REFUNDED \<longrightarrow> coherent_pair o1 r"
  obtains w' o2 r2 res where "compensateOrder refund env (ord_id o1) txn reason w = (Inr res, w')"
    "pair_step w0 o0 r0 w' o2 r2" "coherent_pair o2 r2" "cp_status res = ord_status o2"
    "res_status r2 \<in> {ReservationStatus.CANCELLED, ReservationStatus.EXPIRED}"
    "truthy (charged_txn txn o1) \<and> ord_status o1 \<noteq> OrderStatus.CANCELLED_REFUNDED \<longrightarrow>
       refunded_by refund (the (charged_txn txn o1)) o1 (wf_gateway w) o2 (wf_gateway w')"
proof -
  have f: "find_order (ord_id o1) (wf_orders w) = Some o1" using pair_found(1,2) [OF p] by simp
  show thesis
  proof (cases "ord_status o1 = OrderStatus.CANCELLED_REFUNDED")
    case True
    then show thesis using f p assms(6) that by (auto simp: compensateOrder_def coherent_def)
  next
    case False
    obtain w1 r1 where rel: "release_hold o1 w = (None, w1)" "pair_step w0 o0 r0 w1 o1 r1"
      "res_status r1 \<in> {ReservationStatus.CANCELLED, ReservationStatus.EXPIRED}" "wf_gateway w1 = wf_gateway w"
      by (rule release_pair [OF p rid nc])
    show thesis
    proof (cases "truthy (charged_txn txn o1)")
      case True
      obtain w' o2 res where r: "refund_order refund env o1 (the (charged_txn txn o1)) reason w1 = (Inr res, w')"
        "pair_step w0 o0 r0 w' o2 r1" "cp_status res = ord_status o2"
        "refunded_by refund (the (charged_txn txn o1)) o1 (wf_gateway w1) o2 (wf_gateway w')"
        by (rule refund_pair [OF gw rel(2)])
      have "compensateOrder refund env (ord_id o1) txn reason w = (Inr res, w')"
        using f False True rel(1) r(1) by (simp add: compensateOrder_def)
      moreover have "coherent_pair o2 r1" using refunded_by_status [OF r(4)] rel(3) by (auto simp: coherent_def)
      ultimately show thesis using that r rel(3,4) by simp
    next
      case no: False
      then have nt: "\<not> truthy txn" by (auto simp: charged_txn_def js_or_def split: if_splits)
      with assms(5) obtain o2 where o2: "cancel_order (env_sys env) o1 = Inr o2" "ord_status o2 = OrderStatus.CANCELLED"
        by (auto simp: op_defs)
      then have "pair_step w0 o0 r0 (put_order o2 w1) o2 r1" by (intro pair_put_order [OF rel(2)]) simp
      moreover have "compensateOrder refund env (ord_id o1) txn reason w =
          (Inr \<lparr>cp_handled = True, cp_outcome = Compensated, cp_status = OrderStatus.CANCELLED,
             cp_refundTransactionId = None, cp_errorMessage = None\<rparr>, put_order o2 w1)"
        using f False no rel(1) o2(1) by (simp add: compensateOrder_def)
      moreover have "coherent_pair o2 r1" using o2(2) rel(3) by (auto simp: coherent_def)
      ultimately show thesis using that rel(3) o2(2) no by simp
    qed
  qed
qed

section \<open>After the charge\<close>

text \<open>A charge that succeeded ends in one of two ways: both sides confirmed, or the hold
  given back and the refund asked for. An order that was refunded before is the exception.\<close>

lemma charge_success_pair:
  assumes gw: "payment_gateway charge refund"
    and p: "pair_step w0 o0 r0 w o1 r" and rid: "res_id r = ord_reservationId o1"
    and co: "coherent_pair o1 r" and nc: "ord_status o1 \<noteq> OrderStatus.CONFIRMED"
    and res: "cr_status res = ChargeStatus.SUCCESS" "truthy (cr_transactionId res)"
  obtains (confirmed) out w' o2 r2 where "after_charge refund env cmd res r o1 w = (Inr out, w')"
      "pair_step w0 o0 r0 w' o2 r2" "pr_success out" "pr_status out = OrderStatus.CONFIRMED"
      "ord_status o2 = OrderStatus.CONFIRMED" "res_status r2 = ReservationStatus.CONFIRMED"
      "ord_providerTransactionId o2 = cr_transactionId res" "open_order o1" "env_clock env 2 \<le> res_expiresAt r"
      "ord_paymentAttempts o2 =
         ord_paymentAttempts o1 @ [attempt_of env cmd o1 AttemptSuccess (cr_transactionId res) None]"
      "wf_gateway w' = wf_gateway w"
  | (compensated) out w' o2 r2 where "after_charge refund env cmd res r o1 w = (Inr out, w')"
      "pair_step w0 o0 r0 w' o2 r2" "\<not> pr_success out" "pr_status out = ord_status o2"
      "coherent_pair o2 r2" "res_status r2 \<in> {ReservationStatus.CANCELLED, ReservationStatus.EXPIRED}"
      "ord_status o1 \<noteq> OrderStatus.CANCELLED_REFUNDED \<longrightarrow>
         refunded_by refund (the (cr_transactionId res)) o1 (wf_gateway w) o2 (wf_gateway w')"
proof -
  define o2 where "o2 = recordPaymentAttempt (env_sys env)
    (attempt_of env cmd o1 AttemptSuccess (cr_transactionId res) None) o1"
  have o2: "ord_status o2 = ord_status o1" "ord_reservationId o2 = ord_reservationId o1" "ord_id o2 = ord_id o1"
    "ord_totalAmount o2 = ord_totalAmount o1" "open_order o2 = open_order o1"
    "ord_paymentAttempts o2 =
       ord_paymentAttempts o1 @ [attempt_of env cmd o1 AttemptSuccess (cr_transactionId res) None]"
    by (simp_all add: o2_def op_defs open_order_def)
  have p2: "pair_step w0 o0 r0 (put_order o2 w) o2 r"
    by (rule pair_put_order [OF p]) (simp add: o2_def)
  obtain err w1 where f: "fulfil_order env (cr_transactionId res) r o2 (put_order o2 w) = (err, w1)" by fastforce
  have gwk: "wf_gateway w1 = wf_gateway w" using fulfil_gateway [OF f] by simp
  have "coherent_pair o2 r" "ord_status o2 \<noteq> OrderStatus.CONFIRMED" using co nc o2(1) by simp_all
  with p2 f show thesis
  proof (cases rule: fulfil_pair)
    case (done_ok o3 r3)
    have "after_charge refund env cmd res r o1 w =
        (Inr (payment_result True OrderStatus.CONFIRMED (cr_transactionId res) False False False None), w1)"
      using f done_ok(1) res(1) by (simp add: after_charge_def o2_def Let_def)
    then show thesis by (rule confirmed [OF _ done_ok(2)]) (use done_ok o2 gwk in \<open>simp_all add: payment_result_def\<close>)
  next
    case (failed e o3)
    have o3: "ord_reservationId o3 = ord_reservationId o1" "ord_id o3 = ord_id o1" "ord_totalAmount o3 = ord_totalAmount o1"
      using pair_same_identity [OF p failed(2)] by (simp_all add: same_identity_def)
    have "res_id r = ord_reservationId o3" using rid o3 by simp
    moreover have "truthy (cr_transactionId res) \<or> ord_status o3 \<noteq> OrderStatus.CONFIRMED" using res by simp
    moreover have "ord_status o3 = OrderStatus.CANCELLED_REFUNDED \<longrightarrow> coherent_pair o3 r"
      using failed(4) co o2(1) by auto
    ultimately obtain w' o4 r4 cres where
      c: "compensateOrder refund env (ord_id o3) (cr_transactionId res) (message e) w1 = (Inr cres, w')"
        "pair_step w0 o0 r0 w' o4 r4" "coherent_pair o4 r4" "cp_status cres = ord_status o4"
        "res_status r4 \<in> {ReservationStatus.CANCELLED, ReservationStatus.EXPIRED}"
        "truthy (charged_txn (cr_transactionId res) o3) \<and> ord_status o3 \<noteq> OrderStatus.CANCELLED_REFUNDED \<longrightarrow>
           refunded_by refund (the (charged_txn (cr_transactionId res) o3)) o3 (wf_gateway w1) o4 (wf_gateway w')"
      by (rule compensate_pair [OF gw failed(2) _ failed(3)])
    have "charged_txn (cr_transactionId res) o3 = cr_transactionId res"
      using res(2) by (simp add: charged_txn_def js_or_def)
    then have "ord_status o1 \<noteq> OrderStatus.CANCELLED_REFUNDED \<longrightarrow>
        refunded_by refund (the (cr_transactionId res)) o1 (wf_gateway w) o4 (wf_gateway w')"
      using c(6) failed(4) o2(1) res(2) gwk refunded_by_same [OF pair_same_identity [OF p failed(2)], where refund = refund] by auto
    moreover have "after_charge refund env cmd res r o1 w =
       (Inr (payment_result False (cp_status cres) None False False False
          (Some (''Post-payment fulfillment failed: '' @ message e @ ''. Compensation: '' @
             compensation_outcome_str (cp_outcome cres)))), w')"
      using f failed(1) res(1) c(1) o3 by (simp add: after_charge_def o2_def Let_def)
    ultimately show thesis using c by (intro compensated) (auto simp: payment_result_def)
  qed
qed

lemma after_charge_pair:
  assumes gw: "payment_gateway charge refund"
    and p: "pair_step w0 o0 r0 w o1 r" and rid: "res_id r = ord_reservationId o1"
    and co: "coherent_pair o1 r" and nc: "ord_status o1 \<noteq> OrderStatus.CONFIRMED"
    and res: "cr_status res = ChargeStatus.SUCCESS \<longrightarrow> truthy (cr_transactionId res)"
  obtains out w' o2 r2 where "after_charge refund env cmd res r o1 w = (out, w')"
    "pair_step w0 o0 r0 w' o2 r2" "coherent_pair o2 r2"
proof -
  note goal = that
  have declined: thesis
    if ac: "after_charge refund env cmd res r o1 w =
        (case decline_order env reason r o2 (put_order o2 w) of
           (Some err, w2) \<Rightarrow> (Inl err, w2) | (None, w2) \<Rightarrow> (Inr x, w2))"
      and o2: "o2 = recordPaymentAttempt (env_sys env) a o1" for o2 a reason x
  proof -
    have "pair_step w0 o0 r0 (put_order o2 w) o2 r" by (rule pair_put_order [OF p]) (simp add: o2)
    moreover obtain err w2 where d: "decline_order env reason r o2 (put_order o2 w) = (err, w2)" by fastforce
    ultimately obtain o3 r3 where "pair_step w0 o0 r0 w2 o3 r3" "coherent_pair o2 r \<longrightarrow> coherent_pair o3 r3"
      by (rule decline_pair)
    moreover have "coherent_pair o2 r" using co by (simp add: o2 op_defs)
    ultimately show thesis using goal ac d by (cases err) auto
  qed
  show thesis
  proof (cases "cr_status res")
    case SUCCESS
    with res have "truthy (cr_transactionId res)" by simp
    from gw p rid co nc SUCCESS this show thesis
      by (cases rule: charge_success_pair) (use that in \<open>auto simp: coherent_def\<close>)
  next
    case TIMEOUT
    let ?o = "recordPaymentAttempt (env_sys env) (attempt_of env cmd o1 AttemptTimeout None
      (Some (or_default (cr_errorMessage res) ''Gateway timeout''))) o1"
    have "pair_step w0 o0 r0 (put_order ?o w) ?o r" by (rule pair_put_order [OF p]) simp
    moreover have "coherent_pair ?o r" using co by (simp add: op_defs)
    ultimately show thesis using TIMEOUT that by (simp add: after_charge_def Let_def)
  next
    case DECLINED
    show thesis by (rule declined) (use DECLINED in \<open>simp_all add: after_charge_def Let_def\<close>)
  next
    case FAILED
    show thesis by (rule declined) (use FAILED in \<open>simp_all add: after_charge_def Let_def\<close>)
  qed
qed

section \<open>The invariant of the store\<close>

definition saga_inv :: "'g workflow \<Rightarrow> bool" where
  "saga_inv w \<longleftrightarrow>
     (\<forall>i o1. find_order i (wf_orders w) = Some o1 \<longrightarrow> ord_id o1 = i \<and>
        (\<exists>r. find_reservation (ord_reservationId o1) (wf_reservations w) = Some r \<and> coherent_pair o1 r)) \<and>
     (\<forall>i r. find_reservation i (wf_reservations w) = Some r \<longrightarrow> res_id r = i \<and>
        (res_status r = ReservationStatus.CONFIRMED \<longrightarrow>
           (\<exists>j o1. find_order j (wf_orders w) = Some o1 \<and> ord_reservationId o1 = i))) \<and>
     (\<forall>i j o1 o2. find_order i (wf_orders w) = Some o1 \<and> find_order j (wf_orders w) = Some o2 \<and>
        ord_reservationId o1 = ord_reservationId o2 \<longrightarrow> i = j)"

lemma saga_inv_order:
  assumes "saga_inv w" "find_order i (wf_orders w) = Some o1"
  obtains r where "ord_id o1 = i" "find_reservation (ord_reservationId o1) (wf_reservations w) = Some r"
    "res_id r = ord_reservationId o1" "coherent_pair o1 r" "pair_step w o1 r w o1 r"
proof -
  obtain r where "ord_id o1 = i" "find_reservation (ord_reservationId o1) (wf_reservations w) = Some r"
    "res_id r = ord_reservationId o1" "coherent_pair o1 r"
    using assms unfolding saga_inv_def by blast
  moreover from this assms(2) have "pair_step w o1 r w o1 r" by (intro pair_refl) simp_all
  ultimately show thesis by (rule that)
qed

lemma saga_inv_pair:
  assumes inv: "saga_inv w" and o1: "find_order i (wf_orders w) = Some o1"
    and r: "find_reservation (ord_reservationId o1) (wf_reservations w) = Some r"
    and p: "pair_step w o1 r w' o2 r2" and co: "coherent_pair o2 r2"
  shows "saga_inv w'"
proof -
  have uniq: "find_order a (wf_orders w) = Some x \<Longrightarrow> find_order b (wf_orders w) = Some y \<Longrightarrow>
      ord_reservationId x = ord_reservationId y \<Longrightarrow> a = b" for a b x y
    using inv unfolding saga_inv_def by blast
  have ids: "ord_id o1 = i" "res_id r = ord_reservationId o1" using inv o1 r by (auto simp: saga_inv_def)
  have o2: "ord_id o2 = i" "ord_reservationId o2 = ord_reservationId o1" "res_id r2 = res_id r"
    using pair_found [OF p] ids by simp_all
  have fo: "find_order j (wf_orders w') = (if j = i then Some o2 else find_order j (wf_orders w))" for j
    using p ids by (simp add: pair_step_def)
  have fr: "find_reservation j (wf_reservations w') =
      (if j = ord_reservationId o1 then Some r2 else find_reservation j (wf_reservations w))" for j
    using p ids by (simp add: pair_step_def)
  show ?thesis
    unfolding saga_inv_def
  proof (intro conjI allI impI)
    fix j o3 assume f: "find_order j (wf_orders w') = Some o3"
    have "ord_id o3 = j \<and> (\<exists>r. find_reservation (ord_reservationId o3) (wf_reservations w') = Some r \<and> coherent_pair o3 r)"
    proof (cases "j = i")
      case True
      then show ?thesis using f o2 co by (simp add: fo fr)
    next
      case False
      then have f': "find_order j (wf_orders w) = Some o3" using f by (simp add: fo)
      then have "ord_reservationId o3 \<noteq> ord_reservationId o1" using uniq [OF f' o1] False by blast
      then show ?thesis using inv f' unfolding saga_inv_def by (simp add: fr)
    qed
    then show "ord_id o3 = j"
      "\<exists>r. find_reservation (ord_reservationId o3) (wf_reservations w') = Some r \<and> coherent_pair o3 r" by simp_all
  next
    fix j r3 assume a: "find_reservation j (wf_reservations w') = Some r3"
    then show "res_id r3 = j" using inv r ids o2 unfolding saga_inv_def fr by (auto split: if_splits)
    assume c3: "res_status r3 = ReservationStatus.CONFIRMED"
    show "\<exists>k o3. find_order k (wf_orders w') = Some o3 \<and> ord_reservationId o3 = j"
    proof (cases "j = ord_reservationId o1")
      case True
      then show ?thesis using o2 by (auto simp: fo)
    next
      case False
      with a have "find_reservation j (wf_reservations w) = Some r3" by (simp add: fr)
      with c3 inv obtain k o3 where "find_order k (wf_orders w) = Some o3" "ord_reservationId o3 = j"
        unfolding saga_inv_def by blast
      with False o1 show ?thesis by (auto simp: fo intro!: exI [of _ k])
    qed
  next
    fix j k o3 o4
    assume "find_order j (wf_orders w') = Some o3 \<and> find_order k (wf_orders w') = Some o4 \<and>
      ord_reservationId o3 = ord_reservationId o4"
    then have e: "ord_reservationId o3 = ord_reservationId o4" "find_order j (wf_orders w') = Some o3"
      "find_order k (wf_orders w') = Some o4" by simp_all
    have old: "\<exists>o5. find_order a (wf_orders w) = Some o5 \<and> ord_reservationId o5 = ord_reservationId x"
      if "find_order a (wf_orders w') = Some x" for a x
      using that o1 o2(2) by (cases "a = i") (auto simp: fo)
    obtain o5 o6 where "find_order j (wf_orders w) = Some o5" "ord_reservationId o5 = ord_reservationId o3"
      "find_order k (wf_orders w) = Some o6" "ord_reservationId o6 = ord_reservationId o4"
      using old [OF e(2)] old [OF e(3)] by blast
    with e(1) show "j = k" using uniq [of j o5 k o6] by simp
  qed
qed

end
