(* ===== verification/LP_Saga.thy ===== *)
theory LP_Saga
  imports LP_WorkflowInv
begin

text \<open>
  The checkout saga as a transition system: the states it can reach, the invariant of all of
  them, and the properties of the handlers that follow. The last section shows by executions
  of the model where the code breaks what its documents promise.
\<close>

section \<open>Each handler keeps the invariant\<close>

lemma reopen_coherent [simp]: "coherent_pair o1 r \<Longrightarrow> coherent_pair (reopen env o1) r"
  by (auto simp: reopen_def op_defs coherent_def)

lemma reopen_frame [simp]:
  "ord_id (reopen env o1) = ord_id o1" "ord_reservationId (reopen env o1) = ord_reservationId o1"
  "ord_totalAmount (reopen env o1) = ord_totalAmount o1"
  "ord_paymentAttempts (reopen env o1) = ord_paymentAttempts o1"
  "ord_status (reopen env o1) = OrderStatus.CONFIRMED \<longleftrightarrow> ord_status o1 = OrderStatus.CONFIRMED"
  "ord_status (reopen env o1) = OrderStatus.CANCELLED_REFUNDED \<longleftrightarrow> ord_status o1 = OrderStatus.CANCELLED_REFUNDED"
  "open_order (reopen env o1) = open_order o1"
  by (auto simp: reopen_def op_defs open_order_def)

text \<open>A payment that is not answered from the audit trail: the charge, and what follows it.\<close>

lemma processPayment_charges:
  assumes "find_order (pp_orderId cmd) (wf_orders w) = Some o1"
    and "find_reservation (ord_reservationId o1) (wf_reservations w) = Some r"
    and "\<not> succeeded_attempt (existing_attempt cmd o1)" "ord_status o1 \<noteq> OrderStatus.CONFIRMED"
    and "charge (workflow_charge_request env cmd (reopen env o1)) (wf_gateway w) = (Inr res, g)"
  shows "processPayment charge refund env cmd w =
    after_charge refund env cmd res r (reopen env o1) (put_order (reopen env o1) w\<lparr>wf_gateway := g\<rparr>)"
  using assms by (simp add: processPayment_def Let_def)

lemma charged_pair:
  assumes "pair_step w o1 r w o1 r"
  shows "pair_step w o1 r (put_order (reopen env o1) w\<lparr>wf_gateway := g\<rparr>) (reopen env o1) r"
  using pair_put_order [OF assms, of "reopen env o1"] by simp

lemma processPayment_inv:
  assumes gw: "payment_gateway charge refund" and inv: "saga_inv w"
  shows "saga_inv (snd (processPayment charge refund env cmd w))"
proof (cases "find_order (pp_orderId cmd) (wf_orders w)")
  case None
  then show ?thesis using inv by (simp add: processPayment_def)
next
  case (Some o1)
  obtain r where r: "find_reservation (ord_reservationId o1) (wf_reservations w) = Some r"
    "res_id r = ord_reservationId o1" "coherent_pair o1 r" "pair_step w o1 r w o1 r"
    using saga_inv_order [OF inv Some] by metis
  show ?thesis
  proof (cases "succeeded_attempt (existing_attempt cmd o1) \<or> ord_status o1 = OrderStatus.CONFIRMED")
    case True
    then show ?thesis using inv Some r(1) by (auto simp: processPayment_def)
  next
    case False
    then have no: "\<not> succeeded_attempt (existing_attempt cmd o1)" "ord_status o1 \<noteq> OrderStatus.CONFIRMED" by simp_all
    obtain res g where ch: "charge (workflow_charge_request env cmd (reopen env o1)) (wf_gateway w) = (Inr res, g)"
      "cr_status res = ChargeStatus.SUCCESS \<longrightarrow> truthy (cr_transactionId res)"
      by (rule payment_gateway.chargeE [OF gw])
    obtain out w' o2 r2 where
      "after_charge refund env cmd res r (reopen env o1) (put_order (reopen env o1) w\<lparr>wf_gateway := g\<rparr>) = (out, w')"
      "pair_step w o1 r w' o2 r2" "coherent_pair o2 r2"
      by (rule after_charge_pair [OF gw charged_pair [OF r(4)]]) (use r False ch(2) in simp_all)
    then show ?thesis using saga_inv_pair [OF inv Some r(1)] processPayment_charges [where charge = charge, OF Some r(1) no ch(1)] by simp
  qed
qed

lemma compensateOrder_inv:
  assumes gw: "payment_gateway charge refund" and inv: "saga_inv w"
  shows "saga_inv (snd (compensateOrder refund env i txn reason w))"
proof (cases "find_order i (wf_orders w)")
  case None
  then show ?thesis using inv by (simp add: compensateOrder_def)
next
  case (Some o1)
  obtain r where r: "ord_id o1 = i" "find_reservation (ord_reservationId o1) (wf_reservations w) = Some r"
    "res_id r = ord_reservationId o1" "coherent_pair o1 r" "pair_step w o1 r w o1 r"
    by (rule saga_inv_order [OF inv Some])
  show ?thesis
  proof (cases "ord_status o1 = OrderStatus.CONFIRMED")
    case True
    then have "res_status r = ReservationStatus.CONFIRMED" using r(4) by (simp add: coherent_def)
    then show ?thesis using inv Some r(2) True
      by (simp add: compensateOrder_def release_hold_def cancel_reservation_def)
  next
    case False
    then have "res_status r \<noteq> ReservationStatus.CONFIRMED" using r(4) by (simp add: coherent_def)
    from gw r(5,3) this obtain w' o2 r2 cres where
      "compensateOrder refund env (ord_id o1) txn reason w = (Inr cres, w')" "pair_step w o1 r w' o2 r2"
      "coherent_pair o2 r2"
      by (rule compensate_pair) (use False r(4) in auto)
    then show ?thesis using saga_inv_pair [OF inv Some r(2)] r(1) by simp
  qed
qed

lemma retryCompensation_inv:
  assumes "payment_gateway charge refund" "saga_inv w"
  shows "saga_inv (snd (retryCompensation refund env i w))"
  using assms compensateOrder_inv by (auto simp: retryCompensation_def split: option.splits)

lemma webhook_success_pair:
  assumes p: "pair_step w0 o0 r0 w o1 r" and co: "coherent_pair o1 r"
    and nc: "ord_status o1 \<noteq> OrderStatus.CONFIRMED" and t: "env_clock env 2 = env_clock env 0"
  obtains out w' o2 r2 where "webhook_success env p r o1 w = (out, w')"
    "pair_step w0 o0 r0 w' o2 r2" "coherent_pair o2 r2"
proof (cases "is_late env o1 r \<or> \<not> open_order o1")
  case True
  let ?o = "markRefundRequired (env_sys env) (wh_providerTransactionId p)
    ''Late payment received after reservation expiration'' o1"
  have "pair_step w0 o0 r0 (put_order ?o w) ?o r" by (rule pair_put_order [OF p]) simp
  moreover have "coherent_pair ?o r" using co nc by (auto simp: op_defs coherent_def)
  moreover have "confirm_order (env_sys env) (Some (wh_providerTransactionId p)) (env_clock env 1) o1 =
      Inl (order_transition_error o1 OrderStatus.CONFIRMED)" if "\<not> open_order o1"
    using that nc by (simp add: op_defs open_order_def)
  ultimately show thesis using True p co that by (cases "is_late env o1 r") (auto simp: webhook_success_def)
next
  case False
  define o2 where "o2 = o1\<lparr>ord_status := OrderStatus.CONFIRMED,
    ord_providerTransactionId := Some (wh_providerTransactionId p),
    ord_confirmedAt := Some (env_clock env 1), ord_updatedAt := env_sys env\<rparr>"
  define r' where "r' = r\<lparr>res_status := ReservationStatus.CONFIRMED\<rparr>"
  have c: "confirm_order (env_sys env) (Some (wh_providerTransactionId p)) (env_clock env 1) o1 = Inr (True, o2)"
    using False by (simp add: confirm_order_True o2_def)
  have "res_status r \<noteq> ReservationStatus.CANCELLED" "res_status r \<noteq> ReservationStatus.CONFIRMED"
    "res_status r \<noteq> ReservationStatus.EXPIRED" "env_clock env 2 \<le> res_expiresAt r"
    using False co nc t by (auto simp: is_late_def open_order_def coherent_def)
  then have "confirm_reservation (env_clock env 2) r = Inr r'"
    by (cases "res_status r") (simp_all add: confirm_reservation_def r'_def)
  with False c have w: "webhook_success env p r o1 w =
      (Inr (webhook_result OutcomeConfirmed OrderStatus.CONFIRMED
         ''Order successfully confirmed via webhook'' False),
       put_reservation r' (add_event (wh_eventId p) (put_order o2 w)))"
    by (simp add: webhook_success_def Let_def)
  have "pair_step w0 o0 r0 (add_event (wh_eventId p) (put_order o2 w)) o2 r"
    using pair_put_order [OF p] identity_simps(7) [OF c] by simp
  from that [OF w pair_put_reservation [OF this r'_def]] show thesis
    by (simp add: coherent_def o2_def r'_def)
qed

lemma handlePaymentWebhook_inv:
  assumes inv: "saga_inv w" and t: "env_clock env 2 = env_clock env 0"
  shows "saga_inv (snd (handlePaymentWebhook env p w))"
proof -
  have ev: "saga_inv (add_event i w1) = saga_inv w1" for i and w1 :: "'a workflow" by (simp add: saga_inv_def)
  show ?thesis
  proof (cases "wh_eventId p \<in> wf_processedWebhookEvents w \<or> find_order (wh_orderId p) (wf_orders w) = None")
    case True
    then show ?thesis using inv by (auto simp: handlePaymentWebhook_def)
  next
    case False
    then obtain o1 where o1: "find_order (wh_orderId p) (wf_orders w) = Some o1"
      and new: "wh_eventId p \<notin> wf_processedWebhookEvents w" by auto
    obtain r where r: "find_reservation (ord_reservationId o1) (wf_reservations w) = Some r"
      "coherent_pair o1 r" "pair_step w o1 r w o1 r"
      using saga_inv_order [OF inv o1] by metis
    consider "ord_status o1 = OrderStatus.CONFIRMED"
      | (ok) "ord_status o1 \<noteq> OrderStatus.CONFIRMED" "wh_status p = WebhookSuccess"
      | (no) "ord_status o1 \<noteq> OrderStatus.CONFIRMED" "wh_status p \<noteq> WebhookSuccess" by blast
    then show ?thesis
    proof cases
      case 1
      then show ?thesis using inv o1 new r(1) ev by (simp add: handlePaymentWebhook_def)
    next
      case ok
      obtain out w' o2 r2 where "webhook_success env p r o1 w = (out, w')"
        "pair_step w o1 r w' o2 r2" "coherent_pair o2 r2"
        by (rule webhook_success_pair [OF r(3,2) ok(1) t])
      then show ?thesis using saga_inv_pair [OF inv o1 r(1)] ok o1 new r(1) by (simp add: handlePaymentWebhook_def)
    next
      case no
      obtain err w1 where d: "decline_order env (or_default (wh_errorMessage p) ''Webhook reported payment declined'')
        r o1 w = (err, w1)" by fastforce
      then obtain o2 r2 where "pair_step w o1 r w1 o2 r2" "coherent_pair o1 r \<longrightarrow> coherent_pair o2 r2"
        by (rule decline_pair [OF r(3)])
      then have "saga_inv w1" using saga_inv_pair [OF inv o1 r(1)] r(2) by simp
      then show ?thesis using no o1 new r(1) d ev by (cases err) (simp_all add: handlePaymentWebhook_def)
    qed
  qed
qed

lemma findByReservationId_None:
  "findByReservationId rid repo = None \<Longrightarrow> find_order i repo = Some o1 \<Longrightarrow> ord_reservationId o1 \<noteq> rid"
  unfolding find_order_def
  by (induction rid repo rule: findByReservationId.induct) (auto split: if_splits)

lemma new_Order_Inr:
  "new_Order i u rid t q m st txn c atts created updated = Inr o1 \<Longrightarrow>
     ord_id o1 = i \<and> ord_reservationId o1 = rid \<and> ord_status o1 = st \<and> ord_userId o1 = u \<and>
     ord_ticketTypeId o1 = t \<and> q = JInt (ord_quantity o1) \<and> 0 < ord_quantity o1 \<and> ord_totalAmount o1 = m \<and>
     ord_paymentAttempts o1 = atts \<and> ord_compensationAttempts o1 = [] \<and>
     ord_providerTransactionId o1 = txn \<and> ord_refundTransactionId o1 = None \<and> ord_confirmedAt o1 = c"
  by (auto simp: new_Order_def split: if_splits jsnum.splits)

text \<open>The two shapes of a checkout that got past the guards of \<open>startPayment\<close>.\<close>

lemma initiateCheckout_cases:
  obtains (error) e where "initiateCheckout env cmd w = (Inl e, w)"
  | (rejected) r e where "find_reservation (ic_reservationId cmd) (wf_reservations w) = Some r"
      "res_status r = ReservationStatus.PENDING"
      "initiateCheckout env cmd w =
        (Inl e, put_reservation (r\<lparr>res_status := ReservationStatus.PAYMENT_PENDING\<rparr>) w)"
  | (created) r o1 where "find_reservation (ic_reservationId cmd) (wf_reservations w) = Some r"
      "res_status r = ReservationStatus.PENDING" "env_clock env 0 \<le> res_expiresAt r"
      "new_Order (env_uuid env 0) (res_userId r) (res_id r) (res_ticketTypeId r) (JInt (res_quantity r))
         (ic_totalAmount cmd) OrderStatus.PAYMENT_PENDING None None [] (env_sys env) (env_sys env) = Inr o1"
      "initiateCheckout env cmd w =
        (Inr o1, put_order o1 (put_reservation (r\<lparr>res_status := ReservationStatus.PAYMENT_PENDING\<rparr>) w))"
proof (cases "find_reservation (ic_reservationId cmd) (wf_reservations w)")
  case None
  then show thesis using error by (simp add: initiateCheckout_def)
next
  case (Some r)
  show thesis
  proof (cases "res_status r = ReservationStatus.PENDING \<and> env_clock env 0 \<le> res_expiresAt r")
    case False
    then have "\<exists>e. initiateCheckout env cmd w = (Inl e, w)"
      using Some by (cases "res_status r = ReservationStatus.PENDING") (simp_all add: initiateCheckout_def startPayment_def)
    then show thesis using error by blast
  next
    case True
    then show thesis using Some rejected created
      by (cases "new_Order (env_uuid env 0) (res_userId r) (res_id r) (res_ticketTypeId r) (JInt (res_quantity r))
         (ic_totalAmount cmd) OrderStatus.PAYMENT_PENDING None None [] (env_sys env) (env_sys env)")
        (auto simp: initiateCheckout_def startPayment_def Let_def)
  qed
qed

text \<open>A reservation may change its status, in one of the ways that keep the coherence with
  its order, without the order being touched.\<close>

lemma saga_inv_reservation:
  assumes inv: "saga_inv w" and r: "find_reservation i (wf_reservations w) = Some r"
    and active: "res_status r \<noteq> ReservationStatus.CONFIRMED" and st: "st \<noteq> ReservationStatus.CONFIRMED"
    and ok: "\<And>j o1. find_order j (wf_orders w) = Some o1 \<Longrightarrow> ord_reservationId o1 = i \<Longrightarrow>
      coherent_pair o1 r \<Longrightarrow> coherent (ord_status o1) st"
  shows "saga_inv (put_reservation (r\<lparr>res_status := st\<rparr>) w)"
proof -
  have "res_id r = i" using inv r by (auto simp: saga_inv_def)
  then show ?thesis
    using inv r st ok unfolding saga_inv_def by (simp split: if_split) (metis option.inject)
qed

lemma saga_inv_new_order:
  assumes inv: "saga_inv w" and r: "find_reservation (ord_reservationId o1) (wf_reservations w) = Some r"
    and co: "coherent_pair o1 r" and fresh: "find_order (ord_id o1) (wf_orders w) = None"
    and alone: "\<And>j o2. find_order j (wf_orders w) = Some o2 \<Longrightarrow> ord_reservationId o2 \<noteq> ord_reservationId o1"
  shows "saga_inv (put_order o1 w)"
  unfolding saga_inv_def
proof (intro conjI allI impI)
  fix j r3
  assume a: "find_reservation j (wf_reservations (put_order o1 w)) = Some r3"
  show "res_id r3 = j" using inv a by (simp add: saga_inv_def)
  assume "res_status r3 = ReservationStatus.CONFIRMED"
  with inv a obtain k o3 where "find_order k (wf_orders w) = Some o3" "ord_reservationId o3 = j"
    unfolding saga_inv_def by auto blast
  with fresh show "\<exists>k o3. find_order k (wf_orders (put_order o1 w)) = Some o3 \<and> ord_reservationId o3 = j"
    by (auto intro!: exI [of _ k])
next
  fix i j o3 o4
  assume "find_order i (wf_orders (put_order o1 w)) = Some o3 \<and> find_order j (wf_orders (put_order o1 w)) = Some o4 \<and>
    ord_reservationId o3 = ord_reservationId o4"
  then show "i = j" using inv alone [of i o3] alone [of j o4] unfolding saga_inv_def
    by (auto split: if_splits)
qed (use inv r co in \<open>auto simp: saga_inv_def split: if_splits\<close>)

lemma initiateCheckout_inv:
  assumes inv: "saga_inv w"
    and alone: "findByReservationId (ic_reservationId cmd) (wf_orders w) = None"
    and fresh: "find_order (env_uuid env 0) (wf_orders w) = None"
  shows "saga_inv (snd (initiateCheckout env cmd w))"
proof -
  note no_order = findByReservationId_None [OF alone]
  have start: "saga_inv (put_reservation (r\<lparr>res_status := ReservationStatus.PAYMENT_PENDING\<rparr>) w)"
    if "find_reservation (ic_reservationId cmd) (wf_reservations w) = Some r"
      "res_status r = ReservationStatus.PENDING" for r
    using that no_order by (intro saga_inv_reservation [OF inv]) (blast | simp)+
  show ?thesis
  proof (cases rule: initiateCheckout_cases [of env cmd w])
    case (created r o1)
    let ?r = "r\<lparr>res_status := ReservationStatus.PAYMENT_PENDING\<rparr>"
    have o1: "ord_id o1 = env_uuid env 0" "ord_reservationId o1 = res_id r"
      "ord_status o1 = OrderStatus.PAYMENT_PENDING" using new_Order_Inr [OF created(4)] by simp_all
    moreover have "res_id r = ic_reservationId cmd" using inv created(1) by (simp add: saga_inv_def)
    ultimately have "saga_inv (put_order o1 (put_reservation ?r w))"
      using no_order fresh
      by (intro saga_inv_new_order [OF start [OF created(1,2)], of _ ?r]) (auto simp: coherent_def)
    with created(5) show ?thesis by simp
  qed (use inv start in simp_all)
qed

lemma expire_in_repo_inv:
  assumes inv: "saga_inv w"
  shows "saga_inv (expire_in_repo env i w)"
proof (cases "find_reservation i (wf_reservations w)")
  case None
  then show ?thesis using inv by (simp add: expire_in_repo_def)
next
  case (Some r)
  show ?thesis
  proof (cases "expire_reservation (env_clock env 0) r")
    case (Inl e)
    then show ?thesis using inv Some by (simp add: expire_in_repo_def)
  next
    case (Inr r')
    then have r': "r' = r\<lparr>res_status := ReservationStatus.EXPIRED\<rparr>" "res_status r \<noteq> ReservationStatus.CONFIRMED"
      by (auto simp: expire_reservation_def split: if_splits)
    then have "saga_inv (put_reservation r' w)"
      unfolding r'(1) by (intro saga_inv_reservation [OF inv Some]) (auto simp: coherent_def)
    with Inr Some show ?thesis by (simp add: expire_in_repo_def)
  qed
qed

lemma new_hold_inv:
  assumes "saga_inv w" "reservation_create i u t q now ttl = Inr r"
    and "find_reservation i (wf_reservations w) = None"
  shows "saga_inv (put_reservation r w)"
proof -
  have r: "res_id r = i" "res_status r = ReservationStatus.PENDING"
    using assms(2) by (auto simp: reservation_create_def new_Reservation_def split: if_splits jsnum.splits)
  have "find_order j (wf_orders w) = Some o1 \<Longrightarrow> ord_reservationId o1 \<noteq> i" for j o1
    using assms(1,3) unfolding saga_inv_def by fastforce
  with assms(1,3) r show ?thesis unfolding saga_inv_def by auto
qed

section \<open>The transition system\<close>

text \<open>
  One step is one call of a public method of the workflow, a new hold placed by the
  reservation component, or the expiry of a hold. Checkouts of a reservation that already
  has an order are left out (no document describes them; see the last section for what the
  code does there), as are identifiers drawn twice. The clock does not move inside the
  synchronous block of a webhook that reads it. A call that throws is a step too: its
  partial effects stay.
\<close>

inductive saga_step :: "'g charge_fn \<Rightarrow> 'g refund_fn \<Rightarrow> 'g workflow \<Rightarrow> 'g workflow \<Rightarrow> bool"
  for charge refund where
  hold: "reservation_create i u t q now ttl = Inr r \<Longrightarrow> find_reservation i (wf_reservations w) = None \<Longrightarrow>
    saga_step charge refund w (put_reservation r w)"
| checkout: "findByReservationId (ic_reservationId cmd) (wf_orders w) = None \<Longrightarrow>
    find_order (env_uuid env 0) (wf_orders w) = None \<Longrightarrow>
    saga_step charge refund w (snd (initiateCheckout env cmd w))"
| pay: "saga_step charge refund w (snd (processPayment charge refund env pcmd w))"
| webhook: "env_clock env 2 = env_clock env 0 \<Longrightarrow>
    saga_step charge refund w (snd (handlePaymentWebhook env p w))"
| compensate: "saga_step charge refund w (snd (compensateOrder refund env oid txn reason w))"
| retry: "saga_step charge refund w (snd (retryCompensation refund env oid w))"
| expire: "saga_step charge refund w (expire_in_repo env i w)"

inductive saga_reach :: "'g charge_fn \<Rightarrow> 'g refund_fn \<Rightarrow> 'g workflow \<Rightarrow> bool" for charge refund where
  start: "saga_reach charge refund
    \<lparr>wf_orders = [], wf_reservations = [], wf_gateway = g, wf_processedWebhookEvents = {}\<rparr>"
| step: "saga_reach charge refund w \<Longrightarrow> saga_step charge refund w w' \<Longrightarrow> saga_reach charge refund w'"

lemma saga_step_inv:
  assumes "payment_gateway charge refund" "saga_step charge refund w w'" "saga_inv w"
  shows "saga_inv w'"
  using assms(2,3)
  by (cases rule: saga_step.cases)
    (use assms(1) in \<open>auto intro: new_hold_inv initiateCheckout_inv processPayment_inv handlePaymentWebhook_inv
      compensateOrder_inv retryCompensation_inv expire_in_repo_inv\<close>)

lemma saga_reach_inv:
  assumes "payment_gateway charge refund" "saga_reach charge refund w"
  shows "saga_inv w"
  using assms(2)
proof (induction rule: saga_reach.induct)
  case (start g)
  then show ?case by (simp add: saga_inv_def find_order_def find_reservation_def)
next
  case (step w w')
  then show ?case using saga_step_inv [OF assms(1)] by blast
qed

end
