(* ===== verification/LP_SagaProps.thy ===== *)
theory LP_SagaProps
  imports LP_Saga
begin

text \<open>
  Properties of the checkout saga, over any gateway that keeps the port's contract, with
  witnesses that run the model on the fake adapter.
\<close>

section \<open>A concrete run\<close>

definition demo_env :: env where
  "demo_env = \<lparr>env_ticketIssuer = (\<lambda>_. None), env_clock = (\<lambda>_. 1000), env_sys = 1000,
     env_uuid = (\<lambda>_. ''order-1'')\<rparr>"

definition demo_start :: "FakeAdapterMode \<Rightarrow> int \<Rightarrow> fakeAdapter workflow" where
  "demo_start m fails = \<lparr>wf_orders = [], wf_reservations = [],
     wf_gateway = failNextRefunds fails (new_FakeAdapter m), wf_processedWebhookEvents = {}\<rparr>"

definition demo_hold :: reservation where
  "demo_hold = \<lparr>res_id = ''res-1'', res_userId = ''u'', res_ticketTypeId = ''t'', res_quantity = 2,
     res_createdAt = 0, res_expiresAt = 600000, res_status = ReservationStatus.PENDING\<rparr>"

definition demo_checkout :: initiateCheckoutCommand where
  "demo_checkout = \<lparr>ic_reservationId = ''res-1'', ic_totalAmount = \<lparr>amountCents = 500, currency = ''USD''\<rparr>\<rparr>"

definition demo_pay :: "string \<Rightarrow> paymentCommand" where
  "demo_pay key = \<lparr>pp_orderId = ''order-1'', pp_paymentMethodToken = ''tok'', pp_idempotencyKey = key,
     pp_customerEmail = None\<rparr>"

abbreviation demo_uuids :: "nat \<Rightarrow> string" where "demo_uuids \<equiv> (\<lambda>_. ''1'')"

definition demo_ordered :: "FakeAdapterMode \<Rightarrow> int \<Rightarrow> fakeAdapter workflow" where
  "demo_ordered m fails =
     snd (initiateCheckout demo_env demo_checkout (put_reservation demo_hold (demo_start m fails)))"

definition demo_paid :: "env \<Rightarrow> FakeAdapterMode \<Rightarrow> int \<Rightarrow> paymentResult result \<times> fakeAdapter workflow" where
  "demo_paid env m fails =
     processPayment (fake_charge demo_uuids) (fake_refund demo_uuids) env (demo_pay ''k1'') (demo_ordered m fails)"

text \<open>Ticket issuance fails in this environment.\<close>

definition demo_broken_env :: env where
  "demo_broken_env = demo_env\<lparr>env_ticketIssuer := (\<lambda>_. Some (Error ''Ticket service down''))\<rparr>"

lemma demo_ordered_reach:
  "saga_reach (fake_charge demo_uuids) (fake_refund demo_uuids) (demo_ordered m fails)"
proof -
  have "saga_reach (fake_charge demo_uuids) (fake_refund demo_uuids) (demo_start m fails)"
    unfolding demo_start_def by (rule saga_reach.start)
  moreover have "reservation_create ''res-1'' ''u'' ''t'' (JInt 2) 0 10 = Inr demo_hold" by code_simp
  ultimately have "saga_reach (fake_charge demo_uuids) (fake_refund demo_uuids)
      (put_reservation demo_hold (demo_start m fails))"
    by (elim saga_reach.step) (rule saga_step.hold, assumption,
      simp add: demo_start_def find_reservation_def)
  then show ?thesis
    unfolding demo_ordered_def
    by (rule saga_reach.step) (rule saga_step.checkout, simp_all add: demo_start_def find_order_def put_reservation_def)
qed

lemma demo_paid_reach:
  "saga_reach (fake_charge demo_uuids) (fake_refund demo_uuids) (snd (demo_paid env m fails))"
  unfolding demo_paid_def by (rule saga_reach.step [OF demo_ordered_reach]) (rule saga_step.pay)

section \<open>Properties\<close>





text \<open>
  C5: a buyer is charged at most once per successful payment. If a payment call reported
  success in a reachable state, then every repetition of the same command, at any later
  moment and in any environment, reports success with the same transaction, says that it was
  processed already, and leaves orders, reservations and the gateway as they are: there is
  no second charge.
\<close>

theorem payment_replay:
  assumes "payment_gateway charge refund" "saga_reach charge refund w"
    and "processPayment charge refund env cmd w = (Inr out, w')" "pr_success out"
  shows "\<exists>out'. processPayment charge refund env' cmd w' = (Inr out', w') \<and> pr_success out' \<and>
    pr_alreadyProcessed out' \<and> pr_transactionId out' = pr_transactionId out"
proof -
  have inv: "saga_inv w" by (rule saga_reach_inv [OF assms(1,2)])
  obtain o1 where o1: "find_order (pp_orderId cmd) (wf_orders w) = Some o1"
    using assms(3) by (cases "find_order (pp_orderId cmd) (wf_orders w)") (auto simp: processPayment_def)
  obtain r where r: "ord_id o1 = pp_orderId cmd" "find_reservation (ord_reservationId o1) (wf_reservations w) = Some r"
    "res_id r = ord_reservationId o1" "coherent_pair o1 r" "pair_step w o1 r w o1 r"
    by (rule saga_inv_order [OF inv o1])
  show ?thesis
  proof (cases "succeeded_attempt (existing_attempt cmd o1) \<or> ord_status o1 = OrderStatus.CONFIRMED")
    case True
    then show ?thesis using assms(3) o1 r(2) by (auto simp: processPayment_def payment_result_def split: if_splits)
  next
    case False
    then have no: "\<not> succeeded_attempt (existing_attempt cmd o1)" "ord_status o1 \<noteq> OrderStatus.CONFIRMED" by simp_all
    obtain res g where ch: "charge (workflow_charge_request env cmd (reopen env o1)) (wf_gateway w) = (Inr res, g)"
      "cr_status res = ChargeStatus.SUCCESS \<longrightarrow> truthy (cr_transactionId res)"
      by (rule payment_gateway.chargeE [OF assms(1)])
    note run = processPayment_charges [where charge = charge and refund = refund, OF o1 r(2) no ch(1)]
    have succ: "cr_status res = ChargeStatus.SUCCESS"
      using assms(3,4) run by (auto simp: after_charge_def payment_result_def Let_def split: ChargeStatus.splits prod.splits option.splits)
    have "res_id r = ord_reservationId (reopen env o1)" "coherent_pair (reopen env o1) r"
      "ord_status (reopen env o1) \<noteq> OrderStatus.CONFIRMED" "truthy (cr_transactionId res)"
      using r no succ ch(2) by simp_all
    from assms(1) charged_pair [where env = env and g = g, OF r(5)] this(1-3) succ this(4) show ?thesis
    proof (cases rule: charge_success_pair [where env = env and cmd = cmd])
      case (confirmed out1 w1 o2 r2)
      have same: "out1 = out" "w1 = w'" using confirmed(1) run assms(3) by simp_all
      have f: "find_order (pp_orderId cmd) (wf_orders w') = Some o2"
        "find_reservation (ord_reservationId o2) (wf_reservations w') = Some r2"
        using pair_found [OF confirmed(2)] r same by simp_all
      have tx: "pr_transactionId out = cr_transactionId res"
        using confirmed(1,3) same succ
        by (auto simp: after_charge_def payment_result_def Let_def split: prod.splits option.splits sum.splits)
      have "existing_attempt cmd o2 = None \<or> \<not> succeeded_attempt (existing_attempt cmd o2) \<or>
          pa_providerTransactionId (the (existing_attempt cmd o2)) = cr_transactionId res"
        using no(1) confirmed(10)
        by (cases "existing_attempt cmd o1") (auto simp: existing_attempt_def attempt_of_def find_append)
      then show ?thesis using f confirmed(5,7) tx
        by (auto simp: processPayment_def payment_result_def)
    next
      case (compensated out1 w1 o2 r2)
      then show ?thesis using run assms(3,4) by simp
    qed
  qed
qed

theorem payment_replay_witness:
  "\<exists>out w' out'. demo_paid demo_env ModeSuccess 0 = (Inr out, w') \<and>
     processPayment (fake_charge demo_uuids) (fake_refund demo_uuids) demo_broken_env (demo_pay ''k1'') w' = (Inr out', w') \<and>
     pr_transactionId out' = pr_transactionId out"
proof -
  have "(case fst (demo_paid demo_env ModeSuccess 0) of Inr out \<Rightarrow> pr_success out | Inl _ \<Rightarrow> False)" by code_simp
  then obtain out w' where "demo_paid demo_env ModeSuccess 0 = (Inr out, w')" "pr_success out"
    by (cases "demo_paid demo_env ModeSuccess 0") (auto split: sum.splits)
  with payment_replay [OF fake.payment_gateway_axioms demo_ordered_reach, where env = demo_env and
    cmd = "demo_pay ''k1''" and env' = demo_broken_env] show ?thesis unfolding demo_paid_def by blast
qed

end
