(* ===== verification/LP_SagaFindings.thy ===== *)
theory LP_SagaFindings
  imports LP_SagaProps
begin

text \<open>
  The webhook handler and the retry loop of the compensation, and executions of the model in
  which the saga does not do what its documents say.
\<close>

section \<open>Webhooks\<close>


definition demo_webhook :: "WebhookStatus \<Rightarrow> webhookPayload" where
  "demo_webhook st = \<lparr>wh_eventId = ''evt-1'', wh_orderId = ''order-1'', wh_providerTransactionId = ''txn-9'',
     wh_status = st, wh_errorMessage = None\<rparr>"



text \<open>An hour later.\<close>

definition demo_late_env :: env where
  "demo_late_env = demo_env\<lparr>env_clock := (\<lambda>_. 3600000)\<rparr>"

definition demo_order :: order where
  "demo_order = the (find_order ''order-1'' (wf_orders (demo_ordered ModeTimeout 0)))"

definition demo_res :: reservation where
  "demo_res = the (find_reservation ''res-1'' (wf_reservations (demo_ordered ModeTimeout 0)))"


section \<open>Retrying a refund\<close>

text \<open>One call of \<open>retryCompensation\<close> per environment.\<close>

fun retries :: "'g refund_fn \<Rightarrow> string \<Rightarrow> env list \<Rightarrow> 'g workflow \<Rightarrow> 'g workflow" where
  "retries refund oid [] w = w"
| "retries refund oid (env # envs) w = retries refund oid envs (snd (retryCompensation refund env oid w))"

lemma retry_fake:
  assumes o1: "find_order oid (wf_orders w) = Some o1" "ord_id o1 = oid"
    and r: "find_reservation (ord_reservationId o1) (wf_reservations w) = Some r"
    and st: "res_status r \<in> {ReservationStatus.CANCELLED, ReservationStatus.EXPIRED}"
    and pend: "ord_status o1 = OrderStatus.COMPENSATION_PENDING" and tx: "truthy (charged_txn None o1)"
  obtains w' o2 where "snd (retryCompensation (fake_refund uuids) env oid w) = w'"
    "find_order oid (wf_orders w') = Some o2" "ord_id o2 = oid" "ord_reservationId o2 = ord_reservationId o1"
    "wf_reservations w' = wf_reservations w" "charged_txn None o2 = charged_txn None o1"
    "if 0 < fa_refundFailCount (wf_gateway w)
     then ord_status o2 = OrderStatus.COMPENSATION_PENDING \<and>
       fa_refundFailCount (wf_gateway w') = fa_refundFailCount (wf_gateway w) - 1
     else ord_status o2 = OrderStatus.CANCELLED_REFUNDED"
proof -
  have run: "retryCompensation (fake_refund uuids) env oid w =
      refund_order (fake_refund uuids) env o1 (the (charged_txn None o1)) ''Retry compensation'' w"
    using assms by (auto simp: retryCompensation_def compensateOrder_def release_hold_def)
  obtain o2 g where "snd (retryCompensation (fake_refund uuids) env oid w) = put_order o2 (w\<lparr>wf_gateway := g\<rparr>)"
    "ord_id o2 = oid" "ord_reservationId o2 = ord_reservationId o1" "charged_txn None o2 = charged_txn None o1"
    "if 0 < fa_refundFailCount (wf_gateway w)
     then ord_status o2 = OrderStatus.COMPENSATION_PENDING \<and> fa_refundFailCount g = fa_refundFailCount (wf_gateway w) - 1
     else ord_status o2 = OrderStatus.CANCELLED_REFUNDED"
    using o1(2) unfolding run
    by (cases "0 < fa_refundFailCount (wf_gateway w)")
      (auto simp: refund_order_def fake_refund_def Let_def op_defs charged_txn_def)
  then show thesis using that by simp
qed

lemma retries_fake:
  assumes "find_order oid (wf_orders w) = Some o1" "ord_id o1 = oid"
    and "find_reservation (ord_reservationId o1) (wf_reservations w) = Some r"
    and "res_status r \<in> {ReservationStatus.CANCELLED, ReservationStatus.EXPIRED}"
    and "ord_status o1 = OrderStatus.COMPENSATION_PENDING" "truthy (charged_txn None o1)"
    and "fa_refundFailCount (wf_gateway w) = int n" "length envs = Suc n"
  shows "\<exists>o2. find_order oid (wf_orders (retries (fake_refund uuids) oid envs w)) = Some o2 \<and>
    ord_status o2 = OrderStatus.CANCELLED_REFUNDED"
  using assms
proof (induction n arbitrary: w o1 envs)
  case 0
  then obtain env where e: "envs = [env]" by (auto simp: length_Suc_conv)
  obtain w' o2 where "snd (retryCompensation (fake_refund uuids) env oid w) = w'"
    "find_order oid (wf_orders w') = Some o2"
    "if 0 < fa_refundFailCount (wf_gateway w)
     then ord_status o2 = OrderStatus.COMPENSATION_PENDING \<and>
       fa_refundFailCount (wf_gateway w') = fa_refundFailCount (wf_gateway w) - 1
     else ord_status o2 = OrderStatus.CANCELLED_REFUNDED"
    by (rule retry_fake [OF 0(1-6)])
  then show ?case using 0(7) e by simp
next
  case (Suc n)
  then obtain env envs' where e: "envs = env # envs'" "length envs' = Suc n" by (auto simp: length_Suc_conv)
  obtain w' o2 where s: "snd (retryCompensation (fake_refund uuids) env oid w) = w'"
    "find_order oid (wf_orders w') = Some o2" "ord_id o2 = oid" "ord_reservationId o2 = ord_reservationId o1"
    "wf_reservations w' = wf_reservations w" "charged_txn None o2 = charged_txn None o1"
    "if 0 < fa_refundFailCount (wf_gateway w)
     then ord_status o2 = OrderStatus.COMPENSATION_PENDING \<and>
       fa_refundFailCount (wf_gateway w') = fa_refundFailCount (wf_gateway w) - 1
     else ord_status o2 = OrderStatus.CANCELLED_REFUNDED"
    by (rule retry_fake [OF Suc.prems(1-6)])
  have "\<exists>o3. find_order oid (wf_orders (retries (fake_refund uuids) oid envs' w')) = Some o3 \<and>
    ord_status o3 = OrderStatus.CANCELLED_REFUNDED"
    by (rule Suc.IH [OF s(2,3)]) (use s Suc.prems e in auto)
  then show ?case using e s(1) by simp
qed



section \<open>Where the saga departs from its documents\<close>

text \<open>
  C38: a declined card blocks the next declined card. A declined payment puts the reservation
  back to \<open>PENDING\<close> and a retry does not move it to \<open>PAYMENT_PENDING\<close> again. When the
  retried charge is declined too, inside the hold, \<open>processPayment\<close> has recorded the attempt
  and marked the order declined, and then throws an \<open>InvalidStateTransitionError\<close> from
  \<open>PENDING\<close> to \<open>PENDING\<close> instead of returning the recoverable result.
\<close>

theorem second_decline_throws:
  assumes "find_order (pp_orderId cmd) (wf_orders w) = Some o1" "ord_id o1 = pp_orderId cmd"
    and "find_reservation (ord_reservationId o1) (wf_reservations w) = Some r"
    and "ord_status o1 = OrderStatus.PAYMENT_DECLINED" "res_status r = ReservationStatus.PENDING"
    and "\<not> succeeded_attempt (existing_attempt cmd o1)" "env_clock env 1 \<le> res_expiresAt r"
    and "charge (workflow_charge_request env cmd (reopen env o1)) (wf_gateway w) = (Inr res, g)"
    and "cr_status res = ChargeStatus.DECLINED"
  shows "\<exists>w' o2. processPayment charge refund env cmd w =
      (Inl (InvalidStateTransitionError ''PENDING'' ''PENDING''), w') \<and>
    find_order (pp_orderId cmd) (wf_orders w') = Some o2 \<and> ord_status o2 = OrderStatus.PAYMENT_DECLINED \<and>
    length (ord_paymentAttempts o2) = length (ord_paymentAttempts o1) + 1"
proof -
  have rev: "revertPaymentDecline r = Inl (InvalidStateTransitionError ''PENDING'' ''PENDING'')"
    using assms(5) by (simp add: revertPaymentDecline_def transition_error_def)
  have "processPayment charge refund env cmd w = after_charge refund env cmd res r (reopen env o1)
      (put_order (reopen env o1) w\<lparr>wf_gateway := g\<rparr>)"
    by (rule processPayment_charges) (use assms in simp_all)
  then show ?thesis
    using assms(2,4,7,9) rev
    by (simp add: after_charge_def decline_order_def Let_def reopen_def retryPayment_def markPaymentDeclined_def
        recordPaymentAttempt_def)
qed

definition demo_declined :: "fakeAdapter workflow" where
  "demo_declined = snd (demo_paid demo_env ModeDeclined 0)"

theorem second_decline_throws_witness:
  "\<exists>w'. processPayment (fake_charge demo_uuids) (fake_refund demo_uuids) demo_env (demo_pay ''k2'') demo_declined =
     (Inl (InvalidStateTransitionError ''PENDING'' ''PENDING''), w')"
proof -
  have "map_option (\<lambda>o1. (ord_id o1, ord_status o1, ord_reservationId o1, succeeded_attempt (existing_attempt (demo_pay ''k2'') o1)))
      (find_order ''order-1'' (wf_orders demo_declined)) =
    Some (''order-1'', OrderStatus.PAYMENT_DECLINED, ''res-1'', False)" by code_simp
  then obtain o1 where o1: "find_order ''order-1'' (wf_orders demo_declined) = Some o1"
    "ord_id o1 = ''order-1''" "ord_status o1 = OrderStatus.PAYMENT_DECLINED" "ord_reservationId o1 = ''res-1''"
    "\<not> succeeded_attempt (existing_attempt (demo_pay ''k2'') o1)" by auto
  have "map_option (\<lambda>r. (res_status r, res_expiresAt r)) (find_reservation ''res-1'' (wf_reservations demo_declined)) =
    Some (ReservationStatus.PENDING, 600000)" by code_simp
  then obtain r where r: "find_reservation ''res-1'' (wf_reservations demo_declined) = Some r"
    "res_status r = ReservationStatus.PENDING" "res_expiresAt r = 600000" by auto
  have m: "fa_mode (wf_gateway demo_declined) = ModeDeclined" by code_simp
  obtain res g where ch: "fake_charge demo_uuids (workflow_charge_request demo_env (demo_pay ''k2'')
      (reopen demo_env o1)) (wf_gateway demo_declined) = (Inr res, g)" "cr_status res = ChargeStatus.DECLINED"
    by (simp add: fake_charge_def m)
  show ?thesis
    using second_decline_throws [where cmd = "demo_pay ''k2''" and w = demo_declined and env = demo_env
        and charge = "fake_charge demo_uuids" and refund = "fake_refund demo_uuids", OF _ _ _ o1(3) r(2) o1(5) _ ch] o1 r
    by (auto simp: demo_pay_def demo_env_def)
qed

text \<open>
  C37: paying for a refunded order takes the money and keeps it. \<open>processPayment\<close> does not
  look at the status \<open>CANCELLED_REFUNDED\<close>: with a new idempotency key it charges the buyer;
  the confirmation then fails, and the compensation answers that the order was compensated
  before, so the gateway is left as the charge left it: no refund of the new transaction is
  asked for, and the order keeps its terminal status.
\<close>

theorem charge_after_refund_kept:
  assumes "find_order (pp_orderId cmd) (wf_orders w) = Some o1" "ord_id o1 = pp_orderId cmd"
    and "find_reservation (ord_reservationId o1) (wf_reservations w) = Some r"
    and "ord_status o1 = OrderStatus.CANCELLED_REFUNDED"
    and "\<not> succeeded_attempt (existing_attempt cmd o1)"
    and "charge (workflow_charge_request env cmd o1) (wf_gateway w) = (Inr res, g)"
    and "cr_status res = ChargeStatus.SUCCESS"
  shows "\<exists>out w' o2. processPayment charge refund env cmd w = (Inr out, w') \<and> \<not> pr_success out \<and>
    pr_status out = OrderStatus.CANCELLED_REFUNDED \<and> wf_gateway w' = g \<and> wf_reservations w' = wf_reservations w \<and>
    find_order (pp_orderId cmd) (wf_orders w') = Some o2 \<and>
    ord_refundTransactionId o2 = ord_refundTransactionId o1 \<and>
    ord_paymentAttempts o2 = ord_paymentAttempts o1 @ [attempt_of env cmd o1 AttemptSuccess (cr_transactionId res) None]"
proof -
  have re: "reopen env o1 = o1" using assms(4) by (simp add: reopen_def)
  define o2 where "o2 = recordPaymentAttempt (env_sys env)
    (attempt_of env cmd o1 AttemptSuccess (cr_transactionId res) None) o1"
  define w1 where "w1 = put_order o2 (put_order o1 w\<lparr>wf_gateway := g\<rparr>)"
  have st: "ord_status o2 = OrderStatus.CANCELLED_REFUNDED" "ord_id o2 = pp_orderId cmd"
    using assms(2,4) by (simp_all add: o2_def recordPaymentAttempt_def)
  then obtain e where f: "fulfil_order env (cr_transactionId res) r o2 w1 = (Some e, w1)"
    by (cases "env_ticketIssuer env o2") (simp_all add: fulfil_order_def confirm_order_def)
  have o2: "find_order (pp_orderId cmd) (wf_orders w1) = Some o2" using st by (simp add: w1_def)
  then have c: "compensateOrder refund env (ord_id o1) (cr_transactionId res) (message e) w1 =
      (Inr \<lparr>cp_handled = True, cp_outcome = AlreadyCompensated, cp_status = OrderStatus.CANCELLED_REFUNDED,
        cp_refundTransactionId = ord_refundTransactionId o2, cp_errorMessage = None\<rparr>, w1)"
    using assms(2) st(1) by (simp add: compensateOrder_def)
  have "processPayment charge refund env cmd w = after_charge refund env cmd res r o1 (put_order o1 w\<lparr>wf_gateway := g\<rparr>)"
    using assms re by (intro processPayment_charges [of cmd w o1 r charge env res g refund, unfolded re]) simp_all
  also have "\<dots> = (Inr (payment_result False OrderStatus.CANCELLED_REFUNDED None False False False
      (Some (''Post-payment fulfillment failed: '' @ message e @ ''. Compensation: '' @ ''ALREADY_COMPENSATED''))), w1)"
    using assms(7) f c by (simp add: after_charge_def Let_def o2_def w1_def)
  finally show ?thesis using o2 by (auto simp: payment_result_def w1_def o2_def recordPaymentAttempt_def)
qed

theorem charge_after_refund_kept_witness:
  "\<exists>out w'. processPayment (fake_charge demo_uuids) (fake_refund demo_uuids) demo_env (demo_pay ''k2'')
      (snd (demo_paid demo_broken_env ModeSuccess 0)) = (Inr out, w') \<and> \<not> pr_success out \<and>
    length (fa_processedCharges (wf_gateway w')) = 2 \<and> length (fa_processedRefunds (wf_gateway w')) = 1"
proof -
  let ?w = "snd (demo_paid demo_broken_env ModeSuccess 0)" and ?cmd = "demo_pay ''k2''"
  have "map_option (\<lambda>o1. (ord_id o1, ord_status o1, ord_reservationId o1, succeeded_attempt (existing_attempt ?cmd o1)))
      (find_order ''order-1'' (wf_orders ?w)) =
    Some (''order-1'', OrderStatus.CANCELLED_REFUNDED, ''res-1'', False)" by code_simp
  then obtain o1 where o1: "find_order (pp_orderId ?cmd) (wf_orders ?w) = Some o1"
    "ord_id o1 = pp_orderId ?cmd" "ord_status o1 = OrderStatus.CANCELLED_REFUNDED" "ord_reservationId o1 = ''res-1''"
    "\<not> succeeded_attempt (existing_attempt ?cmd o1)" by (auto simp: demo_pay_def)
  have "find_reservation ''res-1'' (wf_reservations ?w) \<noteq> None" by code_simp
  with o1(4) obtain r where r: "find_reservation (ord_reservationId o1) (wf_reservations ?w) = Some r" by auto
  have m: "fa_mode (wf_gateway ?w) = ModeSuccess \<and> length (fa_processedCharges (wf_gateway ?w)) = 1 \<and>
    length (fa_processedRefunds (wf_gateway ?w)) = 1" by code_simp
  obtain res g where ch: "fake_charge demo_uuids (workflow_charge_request demo_env ?cmd o1) (wf_gateway ?w) = (Inr res, g)"
    "cr_status res = ChargeStatus.SUCCESS" "length (fa_processedCharges g) = 2" "length (fa_processedRefunds g) = 1"
    using m by (simp add: fake_charge_def)
  show ?thesis
    using charge_after_refund_kept [where charge = "fake_charge demo_uuids" and refund = "fake_refund demo_uuids", OF o1(1,2) r o1(3,5) ch(1,2)] ch(3,4) by auto
qed

text \<open>The second buyer-visible order of one hold: after a decline the reservation is
  \<open>PENDING\<close> again, so \<open>initiateCheckout\<close> accepts it once more.\<close>

definition demo_env2 :: env where
  "demo_env2 = demo_env\<lparr>env_uuid := (\<lambda>_. ''order-2'')\<rparr>"

definition two_orders :: "paymentResult result \<times> fakeAdapter workflow" where
  "two_orders =
     (let pay = processPayment (fake_charge demo_uuids) (fake_refund demo_uuids) demo_env;
          w1 = snd (initiateCheckout demo_env2 demo_checkout demo_declined);
          w2 = w1\<lparr>wf_gateway := setMode ModeSuccess (wf_gateway w1)\<rparr>;
          w3 = snd (pay ((demo_pay ''k2'')\<lparr>pp_orderId := ''order-2''\<rparr>) w2)
      in pay (demo_pay ''k3'') w3)"


text \<open>Repeating the command of a payment that was compensated reports success.\<close>

lemma replay_of_refunded_payment:
  "(case fst (demo_paid demo_broken_env ModeSuccess 0) of Inr out \<Rightarrow> pr_success out | Inl _ \<Rightarrow> True) = False \<and>
   (case fst (processPayment (fake_charge demo_uuids) (fake_refund demo_uuids) demo_env (demo_pay ''k1'')
       (snd (demo_paid demo_broken_env ModeSuccess 0))) of
      Inr out \<Rightarrow> pr_success out \<and> pr_status out = OrderStatus.CANCELLED_REFUNDED | Inl _ \<Rightarrow> False)"
  by code_simp

text \<open>The callback of a charge that was refunded already, delivered after the hold, reopens
  the refund, and the compensation pays it out a second time.\<close>

definition double_refund :: "fakeAdapter workflow" where
  "double_refund =
     (let w1 = snd (demo_paid demo_broken_env ModeSuccess 0);
          w2 = snd (handlePaymentWebhook demo_late_env
            ((demo_webhook WebhookSuccess)\<lparr>wh_providerTransactionId := ''txn_fake_1''\<rparr>) w1)
      in snd (compensateOrder (fake_refund demo_uuids) demo_late_env ''order-1'' None ''Late payment'' w2))"

lemma late_webhook_refunds_twice:
  "map rf_transactionId (fa_processedRefunds (wf_gateway double_refund)) = [''txn_fake_1'', ''txn_fake_1''] \<and>
   length (fa_processedCharges (wf_gateway double_refund)) = 1"
  by code_simp

text \<open>Each retry of a refund carries a new idempotency key.\<close>

lemma refund_retry_keys_differ:
  "map rf_idempotencyKey (fa_processedRefunds (wf_gateway (retries (fake_refund demo_uuids) ''order-1'' [demo_env]
      (snd (demo_paid demo_broken_env ModeSuccess 1))))) = [''refund_order-1_1'', ''refund_order-1_2'']"
  by code_simp

text \<open>The hold ends between the two clock readings of a timely callback: the order is
  confirmed, the reservation is not, and the handler throws.\<close>

lemma webhook_at_the_boundary:
  "(let w = snd (handlePaymentWebhook (demo_env\<lparr>env_clock := (\<lambda>n. if n = 2 then 600001 else 600000)\<rparr>)
        (demo_webhook WebhookSuccess) (demo_ordered ModeTimeout 0))
    in map_option ord_status (find_order ''order-1'' (wf_orders w)) = Some OrderStatus.CONFIRMED \<and>
       map_option res_status (find_reservation ''res-1'' (wf_reservations w)) = Some ReservationStatus.PAYMENT_PENDING)"
  by code_simp

end
