(* ===== verification/LP_InventoryDb.thy ===== *)
theory LP_InventoryDb
  imports LP_Prelude
begin

text \<open>
  Inventory in Postgres: \<open>PostgresInventoryRepository\<close> and \<open>NaiveInventoryRepository\<close>
  (\<^verbatim>\<open>src/src/modules/inventory/infrastructure\<close>) and the expiry scanner
  (\<^verbatim>\<open>src/src/modules/inventory/application/ReservationExpiryService.ts\<close>), over the two tables of
  the migrations with their CHECK constraints.

  A transaction is a function of the committed tables: an error rolls back, so it leaves them
  as they were. (That concurrent transactions behave like that is the subject of
  \<open>LP_InventoryTx\<close>.) Quantities are whole numbers in the range of the column type
  \<open>INTEGER\<close>; a statement that leaves that range fails, as a violated constraint does. The
  columns \<open>created_at\<close> and \<open>updated_at\<close>, which no code reads, are left out, and
  identifiers are well-formed UUIDs. The event repository inserts a ticket type together with
  its pool, so the foreign key to \<open>ticket_types\<close> is the existence of the pool.
\<close>

section \<open>Tables\<close>

record pool_row =
  pr_total :: int
  pr_available :: int
  pr_reserved :: int
  pr_sold :: int

record res_row =
  rw_id :: string
  rw_userId :: string
  rw_ticketTypeId :: string
  rw_quantity :: int
  rw_status :: string
  rw_expiresAt :: date

record inventory_db =
  db_pools :: "(string, pool_row) jsmap"
  db_reservations :: "res_row list"

definition int4 :: "int \<Rightarrow> bool" where
  "int4 n \<longleftrightarrow> - (2 ^ 31) \<le> n \<and> n < 2 ^ 31"

definition pool_row_ok :: "pool_row \<Rightarrow> bool" where
  "pool_row_ok p \<longleftrightarrow>
     0 < pr_total p \<and> 0 \<le> pr_available p \<and> 0 \<le> pr_reserved p \<and> 0 \<le> pr_sold p \<and>
     pr_available p + pr_reserved p + pr_sold p = pr_total p \<and> int4 (pr_total p)"

definition db_error :: js_error where
  "db_error = DatabaseError ''new row violates a constraint of the table''"

text \<open>\<open>INSERT INTO reservations\<close>: the foreign key, the primary key and
  \<open>CHECK (quantity > 0)\<close>.\<close>

definition insert_reservation :: "res_row \<Rightarrow> inventory_db \<Rightarrow> inventory_db result" where
  "insert_reservation r db =
     (if map_of (db_pools db) (rw_ticketTypeId r) = None \<or>
         rw_id r \<in> set (map rw_id (db_reservations db)) \<or> rw_quantity r \<le> 0 \<or> \<not> int4 (rw_quantity r)
      then Inl db_error
      else Inr (db\<lparr>db_reservations := db_reservations db @ [r]\<rparr>))"

text \<open>An \<open>UPDATE\<close> of one row of \<open>inventory_pools\<close>, checked.\<close>

definition update_pool :: "string \<Rightarrow> pool_row \<Rightarrow> inventory_db \<Rightarrow> inventory_db result" where
  "update_pool tid p db =
     (if pool_row_ok p then Inr (db\<lparr>db_pools := AList.update tid p (db_pools db)\<rparr>) else Inl db_error)"

section \<open>PostgresInventoryRepository\<close>

datatype reservation_outcome = Reserved_row string | Sold_out

definition moved :: "int \<Rightarrow> pool_row \<Rightarrow> pool_row" where
  "moved n p = p\<lparr>pr_available := pr_available p - n, pr_reserved := pr_reserved p + n\<rparr>"

definition new_hold :: "string \<Rightarrow> int \<Rightarrow> string \<Rightarrow> string \<Rightarrow> date \<Rightarrow> res_row" where
  "new_hold ticketTypeId quantity userId uuid now =
     \<lparr>rw_id = uuid, rw_userId = userId, rw_ticketTypeId = ticketTypeId, rw_quantity = quantity,
      rw_status = ''ACTIVE'', rw_expiresAt = now + 10 * 60 * 1000\<rparr>"

definition reserveAtomic ::
    "string \<Rightarrow> int \<Rightarrow> string \<Rightarrow> string \<Rightarrow> date \<Rightarrow> inventory_db \<Rightarrow> reservation_outcome result \<times> inventory_db" where
  "reserveAtomic ticketTypeId quantity userId uuid now db =
     (case map_of (db_pools db) ticketTypeId of
        None \<Rightarrow> (Inr Sold_out, db)
      | Some p \<Rightarrow>
          if pr_available p < quantity then (Inr Sold_out, db)
          else case insert_reservation (new_hold ticketTypeId quantity userId uuid now) db of
            Inl err \<Rightarrow> (Inl err, db)
          | Inr db1 \<Rightarrow>
              if pr_available p \<ge> quantity then
                (case update_pool ticketTypeId (moved quantity p) db1 of
                   Inl err \<Rightarrow> (Inl err, db)
                 | Inr db2 \<Rightarrow> (Inr (Reserved_row uuid), db2))
              else (Inr Sold_out, db))"

text \<open>The two fault injections. Every path ends in \<open>ROLLBACK\<close> and a throw: either a
  statement fails or the injected error is thrown.\<close>

definition reserveWithInjectedError :: "string \<Rightarrow> inventory_db \<Rightarrow> unit result \<times> inventory_db" where
  "reserveWithInjectedError ticketTypeId db =
     (case map_of (db_pools db) ticketTypeId of
        None \<Rightarrow> (Inl (Error ''SIMULATED_NETWORK_FAULT_MID_TRANSACTION''), db)
      | Some p \<Rightarrow>
          (case update_pool ticketTypeId (moved 1 p) db of
             Inl err \<Rightarrow> (Inl err, db)
           | Inr _ \<Rightarrow> (Inl (Error ''SIMULATED_NETWORK_FAULT_MID_TRANSACTION''), db)))"

definition reserveWithFaultBetweenInsertAndUpdate ::
    "string \<Rightarrow> string \<Rightarrow> string \<Rightarrow> date \<Rightarrow> inventory_db \<Rightarrow> unit result \<times> inventory_db" where
  "reserveWithFaultBetweenInsertAndUpdate ticketTypeId userId uuid now db =
     (case insert_reservation (new_hold ticketTypeId 1 userId uuid now) db of
        Inl err \<Rightarrow> (Inl err, db)
      | Inr _ \<Rightarrow> (Inl (Error ''CRASH_BETWEEN_INSERT_AND_UPDATE''), db))"

section \<open>NaiveInventoryRepository\<close>

text \<open>The read and the write are separate statements: other calls run between them. The read
  returns the quantities it saw, the write stores what the caller computed from them.\<close>

datatype naive_result = Naive_missing | Naive_insufficient int | Naive_reserved int

definition naive_read :: "string \<Rightarrow> inventory_db \<Rightarrow> (int \<times> int) option" where
  "naive_read ticketTypeId db =
     map_option (\<lambda>p. (pr_available p, pr_reserved p)) (map_of (db_pools db) ticketTypeId)"

definition naive_write :: "string \<Rightarrow> int \<Rightarrow> (int \<times> int) option \<Rightarrow> inventory_db \<Rightarrow> naive_result result \<times> inventory_db" where
  "naive_write ticketTypeId requestedQty seen db =
     (case seen of
        None \<Rightarrow> (Inr Naive_missing, db)
      | Some (availableQty, reservedQty) \<Rightarrow>
          if availableQty < requestedQty then (Inr (Naive_insufficient availableQty), db)
          else case map_of (db_pools db) ticketTypeId of
            None \<Rightarrow> (Inr (Naive_reserved availableQty), db)
          | Some p \<Rightarrow>
              (case update_pool ticketTypeId
                  (p\<lparr>pr_available := availableQty - requestedQty, pr_reserved := reservedQty + requestedQty\<rparr>) db of
                 Inl err \<Rightarrow> (Inl err, db)
               | Inr db' \<Rightarrow> (Inr (Naive_reserved availableQty), db')))"

definition reserveNaive :: "string \<Rightarrow> int \<Rightarrow> inventory_db \<Rightarrow> naive_result result \<times> inventory_db" where
  "reserveNaive ticketTypeId requestedQty db =
     naive_write ticketTypeId requestedQty (naive_read ticketTypeId db) db"

section \<open>ReservationExpiryService\<close>

record expiryResult =
  ex_expiredCount :: nat
  ex_releasedCapacity :: int
  ex_processedIds :: "string list"

text \<open>\<open>locked\<close> holds of the rows other transactions have locked, which \<open>SKIP LOCKED\<close> passes
  over. Rows that expire at the same instant are taken in table order.\<close>

definition expirable :: "(string \<Rightarrow> bool) \<Rightarrow> date \<Rightarrow> string option \<Rightarrow> res_row \<Rightarrow> bool" where
  "expirable locked now ticketTypeId r \<longleftrightarrow>
     rw_status r = ''PENDING'' \<and> rw_expiresAt r < now \<and>
     (\<not> truthy ticketTypeId \<or> ticketTypeId = Some (rw_ticketTypeId r)) \<and> \<not> locked (rw_id r)"

definition candidateIds :: "(string \<Rightarrow> bool) \<Rightarrow> date \<Rightarrow> nat \<Rightarrow> string option \<Rightarrow> inventory_db \<Rightarrow> string list" where
  "candidateIds locked now batchSize ticketTypeId db =
     map rw_id (take batchSize (sort_key rw_expiresAt
       (filter (expirable locked now ticketTypeId) (db_reservations db))))"

definition transitions :: "string list \<Rightarrow> res_row \<Rightarrow> bool" where
  "transitions ids r \<longleftrightarrow> rw_id r \<in> set ids \<and> rw_status r = ''PENDING''"

definition mark_expired :: "string list \<Rightarrow> res_row list \<Rightarrow> res_row list" where
  "mark_expired ids rows = map (\<lambda>r. if transitions ids r then r\<lparr>rw_status := ''EXPIRED''\<rparr> else r) rows"

definition add_capacity :: "res_row \<Rightarrow> (string, int) jsmap \<Rightarrow> (string, int) jsmap" where
  "add_capacity r m =
     AList.update (rw_ticketTypeId r)
       ((case map_of m (rw_ticketTypeId r) of None \<Rightarrow> 0 | Some n \<Rightarrow> n) + rw_quantity r) m"

definition reclaim :: "int \<Rightarrow> pool_row \<Rightarrow> pool_row" where
  "reclaim n p = p\<lparr>pr_available := min (pr_total p) (pr_available p + n),
     pr_reserved := max 0 (pr_reserved p - n)\<rparr>"

fun release_capacity :: "(string, int) jsmap \<Rightarrow> inventory_db \<Rightarrow> inventory_db result" where
  "release_capacity [] db = Inr db"
| "release_capacity ((tid, n) # m) db =
     (case map_of (db_pools db) tid of
        None \<Rightarrow> release_capacity m db
      | Some p \<Rightarrow> rbind (update_pool tid (reclaim n p) db) (release_capacity m))"

definition expirePendingReservations ::
    "(string \<Rightarrow> bool) \<Rightarrow> date \<Rightarrow> nat \<Rightarrow> string option \<Rightarrow> inventory_db \<Rightarrow> expiryResult result \<times> inventory_db" where
  "expirePendingReservations locked now batchSize ticketTypeId db =
     (let ids = candidateIds locked now batchSize ticketTypeId db in
      if ids = [] then (Inr \<lparr>ex_expiredCount = 0, ex_releasedCapacity = 0, ex_processedIds = []\<rparr>, db)
      else
        let rows = filter (transitions ids) (db_reservations db);
            db1 = db\<lparr>db_reservations := mark_expired ids (db_reservations db)\<rparr>
        in (case release_capacity (fold add_capacity rows []) db1 of
              Inl err \<Rightarrow> (Inl err, db)
            | Inr db2 \<Rightarrow>
                (Inr \<lparr>ex_expiredCount = length rows,
                      ex_releasedCapacity = sum_list (map rw_quantity rows),
                      ex_processedIds = map rw_id rows\<rparr>, db2)))"

section \<open>The invariant of the tables\<close>

text \<open>What the holds of a ticket type take, and the tables in which every pool row obeys its
  constraints and reserves exactly what its holds take.\<close>

definition taken :: "(res_row \<Rightarrow> bool) \<Rightarrow> string \<Rightarrow> res_row list \<Rightarrow> int" where
  "taken P tid rows = sum_list (map rw_quantity (filter (\<lambda>r. P r \<and> rw_ticketTypeId r = tid) rows))"

abbreviation live :: "res_row \<Rightarrow> bool" where
  "live r \<equiv> rw_status r = ''PENDING'' \<or> rw_status r = ''ACTIVE''"

definition db_ok :: "inventory_db \<Rightarrow> bool" where
  "db_ok db \<longleftrightarrow>
     (\<forall>tid p. map_of (db_pools db) tid = Some p \<longrightarrow>
        pool_row_ok p \<and> pr_reserved p = taken live tid (db_reservations db)) \<and>
     distinct (map rw_id (db_reservations db)) \<and> (\<forall>r \<in> set (db_reservations db). 0 < rw_quantity r)"

lemma taken_Nil [simp]: "taken P tid [] = 0"
  and taken_Cons [simp]: "taken P tid (r # rows) = (if P r \<and> rw_ticketTypeId r = tid then rw_quantity r else 0) + taken P tid rows"
  and taken_append [simp]: "taken P tid (rows @ rows') = taken P tid rows + taken P tid rows'"
  by (simp_all add: taken_def)

lemma taken_nonneg: "\<forall>r \<in> set rows. 0 < rw_quantity r \<Longrightarrow> 0 \<le> taken P tid rows"
  by (induction rows) auto

lemma taken_mono:
  "\<forall>r \<in> set rows. 0 < rw_quantity r \<Longrightarrow> (\<And>r. P r \<Longrightarrow> Q r) \<Longrightarrow> taken P tid rows \<le> taken Q tid rows"
  by (induction rows) (fastforce simp: taken_def)+

section \<open>reserveAtomic\<close>

lemma moved_0 [simp]: "moved 0 = id"
  by (simp add: moved_def fun_eq_iff)

lemma reserveAtomic_cases:
  assumes "db_ok db"
  obtains (soldout) "reserveAtomic tid q u uuid now db = (Inr Sold_out, db)"
      "\<And>p. map_of (db_pools db) tid = Some p \<Longrightarrow> pr_available p < q"
  | (error) "reserveAtomic tid q u uuid now db = (Inl db_error, db)"
      "q \<le> 0 \<or> uuid \<in> set (map rw_id (db_reservations db))"
  | (reserved) p where "map_of (db_pools db) tid = Some p" "0 < q" "q \<le> pr_available p"
      "uuid \<notin> set (map rw_id (db_reservations db))" "pool_row_ok (moved q p)"
      "reserveAtomic tid q u uuid now db = (Inr (Reserved_row uuid),
         \<lparr>db_pools = AList.update tid (moved q p) (db_pools db),
          db_reservations = db_reservations db @ [new_hold tid q u uuid now]\<rparr>)"
proof (cases "map_of (db_pools db) tid")
  case None
  then show thesis by (intro soldout) (simp_all add: reserveAtomic_def)
next
  case (Some p)
  have ok: "pool_row_ok p" using assms Some by (simp add: db_ok_def)
  show thesis
  proof (cases "pr_available p < q")
    case True
    then show thesis using Some by (intro soldout) (simp_all add: reserveAtomic_def)
  next
    case False
    show thesis
    proof (cases "q \<le> 0 \<or> uuid \<in> set (map rw_id (db_reservations db))")
      case True
      then show thesis using Some False
        by (intro error) (auto simp: reserveAtomic_def insert_reservation_def new_hold_def)
    next
      case ok2: False
      have m: "pool_row_ok (moved q p)" "int4 q"
        using ok ok2 False by (auto simp: pool_row_ok_def moved_def int4_def)
      then show thesis using Some False ok2
        by (intro reserved [OF Some])
          (auto simp: reserveAtomic_def insert_reservation_def update_pool_def new_hold_def)
    qed
  qed
qed

lemma reserveAtomic_ok:
  assumes "db_ok db"
  shows "db_ok (snd (reserveAtomic tid q u uuid now db))"
proof (cases rule: reserveAtomic_cases [OF assms, of tid q u uuid now])
  case (3 p)
  then show ?thesis using assms
    by (auto simp: db_ok_def moved_def new_hold_def)
qed (use assms in simp_all)

section \<open>The expiry scanner\<close>

definition total_of :: "(string, int) jsmap \<Rightarrow> string \<Rightarrow> int" where
  "total_of m tid = (case map_of m tid of None \<Rightarrow> 0 | Some n \<Rightarrow> n)"

lemma add_capacity_total:
  "total_of (add_capacity r m) tid = (if rw_ticketTypeId r = tid then rw_quantity r else 0) + total_of m tid"
  by (auto simp: total_of_def add_capacity_def split: option.splits)

lemma totals:
  "total_of (fold add_capacity rows m) tid = taken (\<lambda>_. True) tid rows + total_of m tid"
  by (induction rows arbitrary: m) (simp_all add: add_capacity_total)

lemma totals_distinct: "distinct (map fst m) \<Longrightarrow> distinct (map fst (fold add_capacity rows m))"
  by (induction rows arbitrary: m) (simp_all add: add_capacity_def)

text \<open>Releasing at most what is reserved never meets the bounds of \<open>LEAST\<close> and
  \<open>GREATEST\<close>, nor a constraint.\<close>

lemma reclaim_exact:
  assumes "pool_row_ok p" "0 \<le> n" "n \<le> pr_reserved p"
  shows "reclaim n p = moved (- n) p" "pool_row_ok (moved (- n) p)"
  using assms by (auto simp: pool_row_ok_def reclaim_def moved_def)

lemma release_capacity_exact:
  assumes "distinct (map fst m)"
    and "\<And>tid p. map_of (db_pools db) tid = Some p \<Longrightarrow> pool_row_ok p \<and> 0 \<le> total_of m tid \<and> total_of m tid \<le> pr_reserved p"
  shows "\<exists>pools. release_capacity m db = Inr (db\<lparr>db_pools := pools\<rparr>) \<and>
    (\<forall>tid. map_of pools tid = map_option (moved (- total_of m tid)) (map_of (db_pools db) tid))"
  using assms
proof (induction m arbitrary: db)
  case Nil
  show ?case by (rule exI [of _ "db_pools db"]) (simp add: total_of_def option.map_ident)
next
  case (Cons x m)
  obtain tid n where x: "x = (tid, n)" by fastforce
  have new: "map_of m tid = None" using Cons.prems(1) x by (simp add: map_of_eq_None_iff image_iff)
  have tot: "total_of (x # m) t = (if t = tid then n else total_of m t)" for t
    using new by (auto simp: total_of_def x)
  have zero: "total_of m tid = 0" using new by (simp add: total_of_def)
  show ?case
  proof (cases "map_of (db_pools db) tid")
    case None
    have "\<exists>pools. release_capacity m db = Inr (db\<lparr>db_pools := pools\<rparr>) \<and>
        (\<forall>t. map_of pools t = map_option (moved (- total_of m t)) (map_of (db_pools db) t))"
    proof (intro Cons.IH)
      fix t q assume q: "map_of (db_pools db) t = Some q"
      with None have "t \<noteq> tid" by auto
      with Cons.prems(2) [OF q] tot [of t]
      show "pool_row_ok q \<and> 0 \<le> total_of m t \<and> total_of m t \<le> pr_reserved q" by simp
    qed (use Cons.prems(1) in simp)
    with None show ?thesis by (auto simp: x tot [unfolded x] split: if_splits)
  next
    case (Some p)
    have p: "pool_row_ok p" "0 \<le> n" "n \<le> pr_reserved p" using Cons.prems(2) [OF Some] tot by simp_all
    let ?db = "db\<lparr>db_pools := AList.update tid (moved (- n) p) (db_pools db)\<rparr>"
    have "update_pool tid (reclaim n p) db = Inr ?db" using reclaim_exact [OF p] by (simp add: update_pool_def)
    moreover have "\<exists>pools. release_capacity m ?db = Inr (?db\<lparr>db_pools := pools\<rparr>) \<and>
        (\<forall>t. map_of pools t = map_option (moved (- total_of m t)) (map_of (db_pools ?db) t))"
    proof (intro Cons.IH)
      fix t q assume q: "map_of (db_pools ?db) t = Some q"
      show "pool_row_ok q \<and> 0 \<le> total_of m t \<and> total_of m t \<le> pr_reserved q"
      proof (cases "t = tid")
        case True
        with q zero p reclaim_exact(2) [OF p] show ?thesis by (auto simp: moved_def)
      next
        case False
        with q Cons.prems(2) [of t q] tot [of t] show ?thesis by simp
      qed
    qed (use Cons.prems(1) in simp)
    ultimately show ?thesis using Some zero
      by (auto simp: x tot [unfolded x] fun_eq_iff split: if_splits)
  qed
qed

lemma taken_filter [simp]: "taken (\<lambda>_. True) tid (filter P rows) = taken P tid rows"
  by (induction rows) auto

lemma taken_mark:
  "taken live tid (mark_expired ids rows) = taken live tid rows - taken (transitions ids) tid rows"
  by (induction rows) (auto simp: mark_expired_def transitions_def)

lemma mark_expired_frame [simp]:
  "map rw_id (mark_expired ids rows) = map rw_id rows"
  "(\<forall>r \<in> set (mark_expired ids rows). 0 < rw_quantity r) = (\<forall>r \<in> set rows. 0 < rw_quantity r)"
  by (induction rows) (auto simp: mark_expired_def)

lemma same_row: "distinct (map rw_id rows) \<Longrightarrow> r \<in> set rows \<Longrightarrow> r' \<in> set rows \<Longrightarrow> rw_id r = rw_id r' \<Longrightarrow> r = r'"
  by (auto simp: distinct_map inj_on_def)

lemma candidate_expirable:
  assumes "distinct (map rw_id (db_reservations db))" "r \<in> set (db_reservations db)"
    and "rw_id r \<in> set (candidateIds locked now batchSize tt db)"
  shows "expirable locked now tt r"
proof -
  obtain r' where "r' \<in> set (take batchSize (sort_key rw_expiresAt (filter (expirable locked now tt) (db_reservations db))))"
    "rw_id r' = rw_id r" using assms(3) by (auto simp: candidateIds_def)
  then have "r' \<in> set (db_reservations db)" "expirable locked now tt r'" "rw_id r' = rw_id r"
    by (auto dest: in_set_takeD)
  with assms(1,2) show ?thesis using same_row by metis
qed

lemma candidate_count:
  assumes "distinct (map rw_id (db_reservations db))"
  shows "length (filter (\<lambda>r. rw_id r \<in> set (candidateIds locked now batchSize tt db)) (db_reservations db)) =
    min batchSize (length (filter (expirable locked now tt) (db_reservations db)))"
proof -
  let ?ids = "candidateIds locked now batchSize tt db" and ?rows = "db_reservations db"
  let ?f = "filter (\<lambda>r. rw_id r \<in> set ?ids) ?rows"
  let ?sorted = "sort_key rw_expiresAt (filter (expirable locked now tt) ?rows)"
  have dist: "distinct (map rw_id ?sorted)"
    using assms by (auto simp: distinct_map inj_on_def)
  then have "distinct ?ids" by (simp add: candidateIds_def take_map [symmetric] distinct_take)
  have "set ?ids \<subseteq> rw_id ` set ?rows" by (auto simp: candidateIds_def dest: in_set_takeD)
  then have "set (map rw_id ?f) = set ?ids" by auto
  moreover have "distinct (map rw_id ?f)" using assms by (auto simp: distinct_map inj_on_def)
  ultimately have "length (map rw_id ?f) = length ?ids"
    using \<open>distinct ?ids\<close> by (metis distinct_card)
  then show ?thesis by (simp add: candidateIds_def)
qed

lemma processed_ids:
  assumes "distinct (map rw_id rows)" "r \<in> set rows"
  shows "rw_id r \<in> set (map rw_id (filter (transitions ids) rows)) \<longleftrightarrow> transitions ids r"
  using assms(2) same_row [OF assms] by (auto simp: image_iff)

lemma transitions_candidate:
  assumes "distinct (map rw_id (db_reservations db))" "r \<in> set (db_reservations db)"
  shows "transitions (candidateIds locked now batchSize tt db) r \<longleftrightarrow> rw_id r \<in> set (candidateIds locked now batchSize tt db)"
  using candidate_expirable [OF assms, of locked now batchSize tt] by (auto simp: transitions_def expirable_def)

lemma taken_cong: "(\<And>r. r \<in> set rows \<Longrightarrow> P r = Q r) \<Longrightarrow> taken P tid rows = taken Q tid rows"
  by (induction rows) auto

text \<open>The release step of a scan, for any identifiers.\<close>

lemma scan_release:
  assumes "db_ok db"
  obtains ps where "release_capacity (fold add_capacity (filter (transitions ids) (db_reservations db)) [])
      (db\<lparr>db_reservations := mark_expired ids (db_reservations db)\<rparr>) =
      Inr (db\<lparr>db_reservations := mark_expired ids (db_reservations db), db_pools := ps\<rparr>)"
    "\<forall>tid. map_of ps tid =
       map_option (moved (- taken (transitions ids) tid (db_reservations db))) (map_of (db_pools db) tid)"
    "db_ok (db\<lparr>db_reservations := mark_expired ids (db_reservations db), db_pools := ps\<rparr>)"
proof -
  let ?all = "db_reservations db"
  have dist: "distinct (map rw_id ?all)" and pos: "\<forall>r \<in> set ?all. 0 < rw_quantity r"
    and pools: "\<And>tid p. map_of (db_pools db) tid = Some p \<Longrightarrow> pool_row_ok p \<and> pr_reserved p = taken live tid ?all"
    using assms by (auto simp: db_ok_def)
  have tot: "total_of (fold add_capacity (filter (transitions ids) ?all) []) tid = taken (transitions ids) tid ?all" for tid
    by (simp add: totals) (simp add: total_of_def)
  have le: "0 \<le> taken (transitions ids) tid ?all" "taken (transitions ids) tid ?all \<le> taken live tid ?all" for tid
    using taken_nonneg [OF pos] taken_mono [OF pos, of "transitions ids" live] by (auto simp: transitions_def)
  obtain ps where rel: "release_capacity (fold add_capacity (filter (transitions ids) ?all) [])
      (db\<lparr>db_reservations := mark_expired ids ?all\<rparr>) = Inr (db\<lparr>db_reservations := mark_expired ids ?all, db_pools := ps\<rparr>)"
    "\<And>tid. map_of ps tid = map_option (moved (- taken (transitions ids) tid ?all)) (map_of (db_pools db) tid)"
    using release_capacity_exact [OF totals_distinct, of "[]" "db\<lparr>db_reservations := mark_expired ids ?all\<rparr>"
        "filter (transitions ids) ?all"] pools le by (auto simp: tot)
  have "pool_row_ok p \<and> pr_reserved p = taken live tid (mark_expired ids ?all)" if "map_of ps tid = Some p" for tid p
  proof -
    obtain p0 where p0: "map_of (db_pools db) tid = Some p0" "p = moved (- taken (transitions ids) tid ?all) p0"
      using \<open>map_of ps tid = Some p\<close> rel(2) [of tid] by auto
    with pools [OF p0(1)] le [of tid] show ?thesis
      using reclaim_exact(2) [of p0 "taken (transitions ids) tid ?all"] by (simp add: taken_mark moved_def)
  qed
  then have "db_ok (db\<lparr>db_reservations := mark_expired ids ?all, db_pools := ps\<rparr>)"
    using dist pos by (simp add: db_ok_def)
  with rel that show thesis by blast
qed

section \<open>Properties\<close>

text \<open>
  C7: the atomic reservation never oversells. On tables that obey their constraints and whose
  pools reserve exactly what their holds take, every call of \<open>reserveAtomic\<close>, whatever its
  arguments, keeps them so; it reports a reservation exactly when it has moved the quantity
  from available to reserved and inserted one hold for it, and otherwise leaves the tables as
  they are.
\<close>

theorem reserveAtomic_no_oversell:
  assumes "db_ok db" "reserveAtomic tid q u uuid now db = (res, db')"
  shows "db_ok db' \<and>
    (case res of
       Inr (Reserved_row i) \<Rightarrow> i = uuid \<and> 0 < q \<and>
         (\<exists>p. map_of (db_pools db) tid = Some p \<and> q \<le> pr_available p \<and>
            map_of (db_pools db') = (map_of (db_pools db))(tid \<mapsto> moved q p)) \<and>
         db_reservations db' = db_reservations db @ [new_hold tid q u uuid now]
     | Inr Sold_out \<Rightarrow> db' = db \<and> (\<forall>p. map_of (db_pools db) tid = Some p \<longrightarrow> pr_available p < q)
     | Inl err \<Rightarrow> db' = db \<and> (q \<le> 0 \<or> uuid \<in> set (map rw_id (db_reservations db))))"
proof -
  have "db_ok db'" using reserveAtomic_ok [OF assms(1), of tid q u uuid now] assms(2) by simp
  then show ?thesis
    by (cases rule: reserveAtomic_cases [OF assms(1), of tid q u uuid now]) (use assms(2) in auto)
qed

definition demo_db :: inventory_db where
  "demo_db = \<lparr>db_pools = [(''vip'', \<lparr>pr_total = 2, pr_available = 1, pr_reserved = 1, pr_sold = 0\<rparr>)],
     db_reservations = [\<lparr>rw_id = ''r0'', rw_userId = ''u'', rw_ticketTypeId = ''vip'', rw_quantity = 1,
       rw_status = ''PENDING'', rw_expiresAt = 100\<rparr>]\<rparr>"

lemma demo_db_ok: "db_ok demo_db"
  by (auto simp: db_ok_def demo_db_def pool_row_ok_def int4_def split: if_splits)

theorem reserveAtomic_no_oversell_witness:
  "db_ok (snd (reserveAtomic ''vip'' 1 ''w'' ''r1'' 50 demo_db)) \<and>
   fst (reserveAtomic ''vip'' 1 ''w'' ''r1'' 50 demo_db) = Inr (Reserved_row ''r1'')"
  using reserveAtomic_no_oversell [OF demo_db_ok prod.collapse [symmetric], of "''vip''" 1 "''w''" "''r1''" 50]
  by (simp add: demo_db_def reserveAtomic_def insert_reservation_def update_pool_def new_hold_def moved_def
      pool_row_ok_def int4_def)

text \<open>
  C16: the expiry scanner releases exactly what it expires, once. On sound tables a scan never
  fails; it processes as many rows as the batch allows of those that are pending, past their
  time, in scope and not locked, and no others; exactly these become \<open>EXPIRED\<close>, the pools
  get exactly their quantities back (the \<open>LEAST\<close> and \<open>GREATEST\<close> never bite), the result
  counts them, and the tables stay sound, so a later scan cannot release them again.
\<close>

theorem expiry_releases_exactly:
  assumes "db_ok db"
  shows "\<exists>res db'. expirePendingReservations locked now batchSize tt db = (Inr res, db') \<and> db_ok db' \<and>
    (let hit = (\<lambda>r. rw_id r \<in> set (ex_processedIds res)); rows = filter hit (db_reservations db) in
      (\<forall>r \<in> set rows. expirable locked now tt r) \<and>
      length rows = min batchSize (length (filter (expirable locked now tt) (db_reservations db))) \<and>
      ex_expiredCount res = length rows \<and> ex_releasedCapacity res = sum_list (map rw_quantity rows) \<and>
      db_reservations db' = map (\<lambda>r. if hit r then r\<lparr>rw_status := ''EXPIRED''\<rparr> else r) (db_reservations db) \<and>
      (\<forall>tid. map_of (db_pools db') tid =
         map_option (moved (- taken hit tid (db_reservations db))) (map_of (db_pools db) tid)))"
proof -
  let ?ids = "candidateIds locked now batchSize tt db" and ?all = "db_reservations db"
  let ?rows = "filter (transitions ?ids) ?all"
  have dist: "distinct (map rw_id ?all)" using assms by (simp add: db_ok_def)
  note hit = processed_ids [OF dist, of _ ?ids] and tr = transitions_candidate [OF dist, of _ locked now batchSize tt]
  have frows: "filter (\<lambda>r. rw_id r \<in> set (map rw_id ?rows)) ?all = ?rows" using hit by (intro filter_cong) auto
  have len: "length ?rows = min batchSize (length (filter (expirable locked now tt) ?all))"
    using candidate_count [OF dist, of locked now batchSize tt] tr by (metis (no_types, lifting) filter_cong)
  have ex: "\<forall>r \<in> set ?rows. expirable locked now tt r" using candidate_expirable [OF dist] tr by auto
  have mark: "mark_expired ?ids ?all =
      map (\<lambda>r. if rw_id r \<in> set (map rw_id ?rows) then r\<lparr>rw_status := ''EXPIRED''\<rparr> else r) ?all"
    using hit by (simp add: mark_expired_def)
  have tk: "taken (\<lambda>r. rw_id r \<in> set (map rw_id ?rows)) tid ?all = taken (transitions ?ids) tid ?all" for tid
    using hit by (intro taken_cong)
  obtain ps where rel: "release_capacity (fold add_capacity ?rows []) (db\<lparr>db_reservations := mark_expired ?ids ?all\<rparr>) =
      Inr (db\<lparr>db_reservations := mark_expired ?ids ?all, db_pools := ps\<rparr>)"
    "\<forall>tid. map_of ps tid = map_option (moved (- taken (transitions ?ids) tid ?all)) (map_of (db_pools db) tid)"
    "db_ok (db\<lparr>db_reservations := mark_expired ?ids ?all, db_pools := ps\<rparr>)"
    by (rule scan_release [where ids = ?ids, OF assms])
  show ?thesis
  proof (cases "?ids = []")
    case True
    then have "\<not> transitions ?ids r" for r by (simp add: transitions_def)
    then show ?thesis using assms True len
      by (auto simp: expirePendingReservations_def taken_def option.map_id Let_def)
  next
    case False
    then have run: "expirePendingReservations locked now batchSize tt db =
        (Inr \<lparr>ex_expiredCount = length ?rows, ex_releasedCapacity = sum_list (map rw_quantity ?rows),
              ex_processedIds = map rw_id ?rows\<rparr>, db\<lparr>db_reservations := mark_expired ?ids ?all, db_pools := ps\<rparr>)"
      using rel(1) by (simp add: expirePendingReservations_def Let_def)
    show ?thesis
      unfolding run Let_def
      by (intro exI conjI, rule refl) (use rel(3) ex len frows mark tk rel(2) in simp_all)
  qed
qed

theorem expiry_releases_exactly_witness:
  "\<exists>res db'. expirePendingReservations (\<lambda>_. False) 200 10 None demo_db = (Inr res, db') \<and> ex_expiredCount res = 1 \<and> db_ok db'"
proof -
  obtain res db' where r: "expirePendingReservations (\<lambda>_. False) 200 10 None demo_db = (Inr res, db')" "db_ok db'"
    "ex_expiredCount res = min 10 (length (filter (expirable (\<lambda>_. False) 200 None) (db_reservations demo_db)))"
    using expiry_releases_exactly [OF demo_db_ok, of "\<lambda>_. False" 200 10 None] unfolding Let_def by metis
  have "length (filter (expirable (\<lambda>_. False) 200 None) (db_reservations demo_db)) = 1" by code_simp
  with r show ?thesis by auto
qed



text \<open>
  The naive flow sells the last seat twice. Two calls that both read before either
  writes both report a reservation of the one seat that is left, and the tables record one
  seat: an update is lost. Run one after the other, the second is refused.
\<close>

theorem naive_lost_update:
  "(let db = demo_db\<lparr>db_reservations := []\<rparr>; seen = naive_read ''vip'' db;
        (r1, db1) = naive_write ''vip'' 1 seen db; (r2, db2) = naive_write ''vip'' 1 seen db1
    in r1 = Inr (Naive_reserved 1) \<and> r2 = Inr (Naive_reserved 1) \<and>
       map_option pr_reserved (map_of (db_pools db2) ''vip'') = Some 2 \<and>
       map_option pr_available (map_of (db_pools db2) ''vip'') = Some 0 \<and>
       fst (reserveNaive ''vip'' 1 db1) = Inr (Naive_insufficient 0))"
  by code_simp

end
