(* ===== verification/LP_InventoryTx.thy ===== *)
theory LP_InventoryTx
  imports LP_InventoryDb
begin

text \<open>
  Concurrent runs of \<open>reserveAtomic\<close>, statement by statement. \<open>SELECT ... FOR UPDATE\<close> waits
  until no other transaction holds the row of the pool and reads the committed row; writes of
  a transaction become visible when it commits; a transaction releases its lock when it ends.
  Every interleaving of any number of calls is shown to give the results and the tables of
  the same calls run one after the other, in the order in which they end.
\<close>

section \<open>Transactions in flight\<close>

record reserve_req =
  q_ticketTypeId :: string
  q_quantity :: int
  q_userId :: string
  q_uuid :: string
  q_now :: date

datatype tx_pc =
    Waiting
  | Locked_at pool_row
  | Inserted_at
  | Updated_at pool_row
  | Finished "reservation_outcome result"

fun holding :: "tx_pc \<Rightarrow> bool" where
  "holding (Locked_at _) = True"
| "holding Inserted_at = True"
| "holding (Updated_at _) = True"
| "holding _ = False"

fun finished :: "tx_pc \<Rightarrow> bool" where
  "finished (Finished _) = True"
| "finished _ = False"

abbreviation hold_of :: "reserve_req \<Rightarrow> res_row" where
  "hold_of rq \<equiv> new_hold (q_ticketTypeId rq) (q_quantity rq) (q_userId rq) (q_uuid rq) (q_now rq)"

fun tx_advance :: "reserve_req \<Rightarrow> tx_pc \<Rightarrow> inventory_db \<Rightarrow> tx_pc \<times> inventory_db" where
  "tx_advance rq Waiting db =
     (case map_of (db_pools db) (q_ticketTypeId rq) of
        None \<Rightarrow> (Finished (Inr Sold_out), db)
      | Some p \<Rightarrow> (Locked_at p, db))"
| "tx_advance rq (Locked_at p) db =
     (if pr_available p < q_quantity rq then (Finished (Inr Sold_out), db)
      else case insert_reservation (hold_of rq) db of
        Inl err \<Rightarrow> (Finished (Inl err), db)
      | Inr _ \<Rightarrow> (Inserted_at, db))"
| "tx_advance rq Inserted_at db =
     (case map_of (db_pools db) (q_ticketTypeId rq) of
        None \<Rightarrow> (Finished (Inr Sold_out), db)
      | Some p \<Rightarrow>
          if pr_available p \<ge> q_quantity rq then
            if pool_row_ok (moved (q_quantity rq) p) then (Updated_at (moved (q_quantity rq) p), db)
            else (Finished (Inl db_error), db)
          else (Finished (Inr Sold_out), db))"
| "tx_advance rq (Updated_at p) db =
     (Finished (Inr (Reserved_row (q_uuid rq))),
      \<lparr>db_pools = AList.update (q_ticketTypeId rq) p (db_pools db),
       db_reservations = db_reservations db @ [hold_of rq]\<rparr>)"
| "tx_advance rq (Finished res) db = (Finished res, db)"

record tx_system =
  ts_db :: inventory_db
  ts_tx :: "nat \<Rightarrow> (reserve_req \<times> tx_pc) option"
  ts_log :: "(reserve_req \<times> reservation_outcome result) list"

definition row_locked :: "tx_system \<Rightarrow> string \<Rightarrow> bool" where
  "row_locked s tid \<longleftrightarrow> (\<exists>j rq pc. ts_tx s j = Some (rq, pc) \<and> q_ticketTypeId rq = tid \<and> holding pc)"

definition fresh_uuid :: "tx_system \<Rightarrow> string \<Rightarrow> bool" where
  "fresh_uuid s u \<longleftrightarrow> u \<notin> set (map rw_id (db_reservations (ts_db s))) \<and>
     (\<forall>j rq pc. ts_tx s j = Some (rq, pc) \<longrightarrow> q_uuid rq \<noteq> u)"

fun log_of :: "reserve_req \<Rightarrow> tx_pc \<Rightarrow> (reserve_req \<times> reservation_outcome result) list" where
  "log_of rq (Finished res) = [(rq, res)]"
| "log_of rq _ = []"

inductive tx_step :: "tx_system \<Rightarrow> tx_system \<Rightarrow> bool" where
  begin_tx: "ts_tx s i = None \<Longrightarrow> fresh_uuid s (q_uuid rq) \<Longrightarrow>
    tx_step s (s\<lparr>ts_tx := (ts_tx s)(i \<mapsto> (rq, Waiting))\<rparr>)"
| advance: "ts_tx s i = Some (rq, pc) \<Longrightarrow> \<not> finished pc \<Longrightarrow>
    (pc = Waiting \<Longrightarrow> \<not> row_locked s (q_ticketTypeId rq)) \<Longrightarrow> tx_advance rq pc (ts_db s) = (pc', db') \<Longrightarrow>
    tx_step s \<lparr>ts_db = db', ts_tx = (ts_tx s)(i \<mapsto> (rq, pc')), ts_log = ts_log s @ log_of rq pc'\<rparr>"

inductive tx_reach :: "inventory_db \<Rightarrow> tx_system \<Rightarrow> bool" for db0 where
  start: "tx_reach db0 \<lparr>ts_db = db0, ts_tx = (\<lambda>_. None), ts_log = []\<rparr>"
| step: "tx_reach db0 s \<Longrightarrow> tx_step s s' \<Longrightarrow> tx_reach db0 s'"

section \<open>The serial specification\<close>

definition reserve_req_run :: "reserve_req \<Rightarrow> inventory_db \<Rightarrow> reservation_outcome result \<times> inventory_db" where
  "reserve_req_run rq = reserveAtomic (q_ticketTypeId rq) (q_quantity rq) (q_userId rq) (q_uuid rq) (q_now rq)"

fun serial :: "reserve_req list \<Rightarrow> inventory_db \<Rightarrow> reservation_outcome result list \<times> inventory_db" where
  "serial [] db = ([], db)"
| "serial (rq # rqs) db =
     (case reserve_req_run rq db of (res, db1) \<Rightarrow>
        (case serial rqs db1 of (ress, db2) \<Rightarrow> (res # ress, db2)))"

lemma serial_snoc:
  "serial rqs db = (ress, db1) \<Longrightarrow> reserve_req_run rq db1 = (res, db2) \<Longrightarrow>
     serial (rqs @ [rq]) db = (ress @ [res], db2)"
  by (induction rqs arbitrary: db ress) (auto split: prod.splits)

section \<open>The invariant of the interleavings\<close>

text \<open>What a transaction knows while it holds the lock.\<close>

definition pc_ok :: "inventory_db \<Rightarrow> reserve_req \<Rightarrow> tx_pc \<Rightarrow> bool" where
  "pc_ok db rq pc \<longleftrightarrow>
     (\<not> finished pc \<longrightarrow> q_uuid rq \<notin> set (map rw_id (db_reservations db))) \<and>
     (case pc of
        Locked_at p \<Rightarrow> map_of (db_pools db) (q_ticketTypeId rq) = Some p
      | Inserted_at \<Rightarrow> 0 < q_quantity rq \<and> int4 (q_quantity rq) \<and>
          (\<exists>p. map_of (db_pools db) (q_ticketTypeId rq) = Some p \<and> q_quantity rq \<le> pr_available p)
      | Updated_at p' \<Rightarrow> 0 < q_quantity rq \<and> int4 (q_quantity rq) \<and> pool_row_ok p' \<and>
          (\<exists>p. map_of (db_pools db) (q_ticketTypeId rq) = Some p \<and> q_quantity rq \<le> pr_available p \<and>
             p' = moved (q_quantity rq) p)
      | _ \<Rightarrow> True)"

text \<open>The end of a transaction is \<open>reserveAtomic\<close> on the tables of that moment.\<close>

lemma advance_finished:
  assumes "pc_ok db rq pc" "\<not> finished pc" "tx_advance rq pc db = (Finished res, db')"
  shows "reserve_req_run rq db = (res, db')"
  using assms
  by (cases pc)
    (auto simp: pc_ok_def reserve_req_run_def reserveAtomic_def insert_reservation_def update_pool_def new_hold_def
      split: option.splits if_splits)

lemma advance_running:
  assumes "pc_ok db rq pc" "tx_advance rq pc db = (pc', db')" "\<not> finished pc'"
  shows "db' = db \<and> pc_ok db rq pc' \<and> (pc = Waiting \<or> holding pc)"
  using assms
  by (cases pc)
    (auto simp: pc_ok_def insert_reservation_def new_hold_def split: option.splits if_splits sum.splits)

lemma reserve_req_frame:
  assumes "reserve_req_run rq db = (res, db')"
  shows "tid \<noteq> q_ticketTypeId rq \<Longrightarrow> map_of (db_pools db') tid = map_of (db_pools db) tid"
    and "set (map rw_id (db_reservations db')) \<subseteq> insert (q_uuid rq) (set (map rw_id (db_reservations db)))"
  using assms
  by (auto simp: reserve_req_run_def reserveAtomic_def insert_reservation_def update_pool_def new_hold_def
      split: option.splits if_splits sum.splits)

lemma pc_ok_frame:
  assumes "pc_ok db rq pc" "reserve_req_run rq1 db = (res, db')" "q_uuid rq1 \<noteq> q_uuid rq"
    and "holding pc \<Longrightarrow> q_ticketTypeId rq1 \<noteq> q_ticketTypeId rq"
  shows "pc_ok db' rq pc"
proof -
  have "q_uuid rq \<notin> set (map rw_id (db_reservations db))  \<Longrightarrow> q_uuid rq \<notin> set (map rw_id (db_reservations db'))"
    using reserve_req_frame(2) [OF assms(2)] assms(3) by auto
  moreover have "holding pc \<Longrightarrow> map_of (db_pools db') (q_ticketTypeId rq) = map_of (db_pools db) (q_ticketTypeId rq)"
    using reserve_req_frame(1) [OF assms(2)] assms(4) by metis
  ultimately show ?thesis using assms(1) by (cases pc) (auto simp: pc_ok_def)
qed

definition tx_inv :: "inventory_db \<Rightarrow> tx_system \<Rightarrow> bool" where
  "tx_inv db0 s \<longleftrightarrow>
     serial (map fst (ts_log s)) db0 = (map snd (ts_log s), ts_db s) \<and>
     (\<forall>i rq pc. ts_tx s i = Some (rq, pc) \<longrightarrow> pc_ok (ts_db s) rq pc) \<and>
     (\<forall>i j rq pc rq' pc'. ts_tx s i = Some (rq, pc) \<longrightarrow> ts_tx s j = Some (rq', pc') \<longrightarrow> i \<noteq> j \<longrightarrow>
        q_uuid rq \<noteq> q_uuid rq' \<and> (holding pc \<longrightarrow> holding pc' \<longrightarrow> q_ticketTypeId rq \<noteq> q_ticketTypeId rq'))"

lemma tx_inv_D:
  assumes "tx_inv db0 s"
  shows "ts_tx s i = Some (rq, pc) \<Longrightarrow> pc_ok (ts_db s) rq pc"
    and "ts_tx s i = Some (rq, pc) \<Longrightarrow> ts_tx s j = Some (rq', pc') \<Longrightarrow> i \<noteq> j \<Longrightarrow>
      q_uuid rq \<noteq> q_uuid rq' \<and> (holding pc \<longrightarrow> holding pc' \<longrightarrow> q_ticketTypeId rq \<noteq> q_ticketTypeId rq')"
    and "serial (map fst (ts_log s)) db0 = (map snd (ts_log s), ts_db s)"
  using assms unfolding tx_inv_def by blast+

lemma begin_inv:
  assumes inv: "tx_inv db0 s" and "ts_tx s i = None" "fresh_uuid s (q_uuid rq)"
  shows "tx_inv db0 (s\<lparr>ts_tx := (ts_tx s)(i \<mapsto> (rq, Waiting))\<rparr>)"
proof -
  have "pc_ok (ts_db s) rq Waiting" using assms(3) by (simp add: pc_ok_def fresh_uuid_def)
  moreover have "q_uuid rq' \<noteq> q_uuid rq" if "ts_tx s j = Some (rq', pc')" for j rq' pc'
    using assms(3) that by (auto simp: fresh_uuid_def)
  ultimately show ?thesis
    using tx_inv_D [OF inv] assms(2) unfolding tx_inv_def by (auto split: if_splits; metis)
qed

text \<open>One transaction moves on: its new counter is sound for the new tables, the log is kept
  serial, and the others keep theirs.\<close>

lemma advance_inv:
  assumes inv: "tx_inv db0 s" and i: "ts_tx s i = Some (rq, pc)" and run: "\<not> finished pc"
    and wait: "pc = Waiting \<Longrightarrow> \<not> row_locked s (q_ticketTypeId rq)"
    and adv: "tx_advance rq pc (ts_db s) = (pc', db')"
  shows "tx_inv db0 \<lparr>ts_db = db', ts_tx = (ts_tx s)(i \<mapsto> (rq, pc')), ts_log = ts_log s @ log_of rq pc'\<rparr>"
proof -
  note D = tx_inv_D [OF inv]
  have ok: "pc_ok (ts_db s) rq pc" by (rule D(1) [OF i])
  have new: "serial (map fst (ts_log s @ log_of rq pc')) db0 = (map snd (ts_log s @ log_of rq pc'), db') \<and>
      pc_ok db' rq pc' \<and> (\<forall>j rq1 pc1. ts_tx s j = Some (rq1, pc1) \<longrightarrow> j \<noteq> i \<longrightarrow> pc_ok db' rq1 pc1)"
  proof (cases "finished pc'")
    case True
    then obtain res where fin: "pc' = Finished res" by (cases pc') auto
    have r: "reserve_req_run rq (ts_db s) = (res, db')" using advance_finished [OF ok run] adv fin by simp
    have "pc_ok db' rq1 pc1" if "ts_tx s j = Some (rq1, pc1)" "j \<noteq> i" for j rq1 pc1
    proof (cases "holding pc1 \<and> q_ticketTypeId rq = q_ticketTypeId rq1")
      case False
      with D(2) [OF i that(1)] that(2) show ?thesis by (intro pc_ok_frame [OF D(1) [OF that(1)] r]) auto
    next
      case both: True
      then have "row_locked s (q_ticketTypeId rq)" using that(1) by (auto simp: row_locked_def)
      with wait run D(2) [OF i that(1)] that(2) both have False by (cases pc) auto
      then show ?thesis ..
    qed
    with serial_snoc [OF D(3) r] fin show ?thesis by (simp add: pc_ok_def)
  next
    case False
    then have "log_of rq pc' = []" by (cases pc') auto
    with advance_running [OF ok adv False] D show ?thesis by auto
  qed
  have hold: "q_ticketTypeId rq \<noteq> q_ticketTypeId rq1"
    if "ts_tx s j = Some (rq1, pc1)" "j \<noteq> i" "holding pc'" "holding pc1" for j rq1 pc1
  proof
    assume same: "q_ticketTypeId rq = q_ticketTypeId rq1"
    then have "row_locked s (q_ticketTypeId rq)" using that by (auto simp: row_locked_def)
    moreover have "\<not> finished pc'" using that(3) by (cases pc') auto
    ultimately have "holding pc" using wait advance_running [OF ok adv] by auto
    with D(2) [OF i that(1)] that same show False by auto
  qed
  show ?thesis
    unfolding tx_inv_def
  proof (intro conjI allI impI)
    fix j k rq1 pc1 rq2 pc2
    assume a: "ts_tx \<lparr>ts_db = db', ts_tx = (ts_tx s)(i \<mapsto> (rq, pc')), ts_log = ts_log s @ log_of rq pc'\<rparr> j = Some (rq1, pc1)"
      "ts_tx \<lparr>ts_db = db', ts_tx = (ts_tx s)(i \<mapsto> (rq, pc')), ts_log = ts_log s @ log_of rq pc'\<rparr> k = Some (rq2, pc2)" "j \<noteq> k"
    then show "q_uuid rq1 \<noteq> q_uuid rq2" using D(2) i by (auto split: if_splits)
    assume "holding pc1" "holding pc2"
    with a show "q_ticketTypeId rq1 \<noteq> q_ticketTypeId rq2"
      using D(2) hold by (auto split: if_splits; metis)
  qed (use new in \<open>auto split: if_splits\<close>)
qed

lemma tx_reach_inv: "tx_reach db0 s \<Longrightarrow> tx_inv db0 s"
proof (induction rule: tx_reach.induct)
  case start
  then show ?case by (simp add: tx_inv_def)
next
  case (step s s')
  from step.hyps(2) step.IH show ?case by (cases rule: tx_step.cases) (auto intro: begin_inv advance_inv)
qed

lemma serial_ok: "db_ok db \<Longrightarrow> serial rqs db = (ress, db') \<Longrightarrow> db_ok db'"
proof (induction rqs arbitrary: db ress)
  case (Cons rq rqs)
  then show ?case
    using reserveAtomic_ok [of db "q_ticketTypeId rq" "q_quantity rq" "q_userId rq" "q_uuid rq" "q_now rq"]
    by (auto simp: reserve_req_run_def split: prod.splits)
qed simp

section \<open>Properties\<close>

text \<open>
  C6: concurrent atomic reservations are serialisable. In every state that any number of
  interleaved calls of \<open>reserveAtomic\<close> can reach, the committed tables are those of the ended
  calls run one after the other in the order in which they ended, every ended call returned
  what it returns in that serial run, and the tables are sound: the pools reserve exactly what
  the holds take, within their capacity.
\<close>

theorem reservations_serialisable:
  assumes "db_ok db0" "tx_reach db0 s"
  shows "serial (map fst (ts_log s)) db0 = (map snd (ts_log s), ts_db s) \<and> db_ok (ts_db s)"
  using tx_inv_D(3) [OF tx_reach_inv [OF assms(2)]] serial_ok [OF assms(1)] by blast

definition demo_req :: "string \<Rightarrow> reserve_req" where
  "demo_req u = \<lparr>q_ticketTypeId = ''vip'', q_quantity = 1, q_userId = ''w'', q_uuid = u, q_now = 50\<rparr>"

text \<open>Two buyers race for the last seat: both have begun, the first locks the row and ends
  while the second waits.\<close>

fun race :: "nat list \<Rightarrow> tx_system \<Rightarrow> tx_system" where
  "race [] s = s"
| "race (i # is) s =
     (case ts_tx s i of
        None \<Rightarrow> race is (s\<lparr>ts_tx := (ts_tx s)(i \<mapsto> (demo_req (if i = 1 then ''r1'' else ''r2''), Waiting))\<rparr>)
      | Some (rq, pc) \<Rightarrow>
          (case tx_advance rq pc (ts_db s) of (pc', db') \<Rightarrow>
             race is \<lparr>ts_db = db', ts_tx = (ts_tx s)(i \<mapsto> (rq, pc')), ts_log = ts_log s @ log_of rq pc'\<rparr>))"

definition demo_race :: tx_system where
  "demo_race = race [1, 2, 1, 1, 1, 1] \<lparr>ts_db = demo_db, ts_tx = (\<lambda>_. None), ts_log = []\<rparr>"

lemma race_begin:
  "tx_reach db0 s \<Longrightarrow> ts_tx s i = None \<Longrightarrow> fresh_uuid s (if i = 1 then ''r1'' else ''r2'') \<Longrightarrow>
   tx_reach db0 (race [i] s)"
  by (simp only: race.simps option.case) (rule tx_reach.step, assumption, rule tx_step.begin_tx, simp_all add: demo_req_def)

lemma race_advance:
  assumes "tx_reach db0 s" "ts_tx s i = Some (rq, pc)" "\<not> finished pc"
    and "pc = Waiting \<Longrightarrow> \<not> row_locked s (q_ticketTypeId rq)"
  shows "tx_reach db0 (race [i] s)"
proof -
  obtain pc' db' where a: "tx_advance rq pc (ts_db s) = (pc', db')" by fastforce
  have "tx_step s \<lparr>ts_db = db', ts_tx = (ts_tx s)(i \<mapsto> (rq, pc')), ts_log = ts_log s @ log_of rq pc'\<rparr>"
    using assms(2-4) a by (rule tx_step.advance)
  with assms(1) have "tx_reach db0 \<lparr>ts_db = db', ts_tx = (ts_tx s)(i \<mapsto> (rq, pc')), ts_log = ts_log s @ log_of rq pc'\<rparr>"
    by (rule tx_reach.step)
  then show ?thesis using assms(2) a by simp
qed

lemma race_append: "race (is @ js) s = race js (race is s)"
  by (induction "is" s rule: race.induct) (auto split: option.splits prod.splits)

lemma demo_race_reach: "tx_reach demo_db demo_race"
proof -
  let ?s0 = "\<lparr>ts_db = demo_db, ts_tx = (\<lambda>_. None), ts_log = []\<rparr>"
  let ?p = "\<lparr>pr_total = 2, pr_available = 1, pr_reserved = 1, pr_sold = 0\<rparr>"
  have "tx_reach demo_db (race [1] ?s0)"
    by (rule race_begin [OF tx_reach.start]) (simp_all add: fresh_uuid_def demo_db_def)
  then have "tx_reach demo_db (race [2] (race [1] ?s0))"
    by (rule race_begin) (simp_all add: fresh_uuid_def demo_db_def demo_req_def)
  then have "tx_reach demo_db (race [1] (race [2] (race [1] ?s0)))"
    by (rule race_advance [where rq = "demo_req ''r1''" and pc = Waiting]) (auto simp: row_locked_def split: if_splits)
  then have "tx_reach demo_db (race [1] (race [1] (race [2] (race [1] ?s0))))"
    by (rule race_advance [where rq = "demo_req ''r1''" and pc = "Locked_at ?p"]) (simp_all add: demo_req_def demo_db_def)
  then have "tx_reach demo_db (race [1] (race [1] (race [1] (race [2] (race [1] ?s0)))))"
    by (rule race_advance [where rq = "demo_req ''r1''" and pc = Inserted_at])
      (simp_all add: demo_req_def demo_db_def insert_reservation_def new_hold_def int4_def)
  then have "tx_reach demo_db (race [1] (race [1] (race [1] (race [1] (race [2] (race [1] ?s0))))))"
    by (rule race_advance [where rq = "demo_req ''r1''" and pc = "Updated_at (moved 1 ?p)"])
      (simp_all add: demo_req_def demo_db_def insert_reservation_def new_hold_def int4_def pool_row_ok_def moved_def)
  then show ?thesis unfolding demo_race_def by (simp only: race_append [symmetric] append_Cons append_Nil)
qed

theorem reservations_serialisable_witness:
  "serial [demo_req ''r1''] demo_db = ([Inr (Reserved_row ''r1'')], ts_db demo_race) \<and> db_ok (ts_db demo_race)"
proof -
  have "ts_log demo_race = [(demo_req ''r1'', Inr (Reserved_row ''r1''))]" by code_simp
  with reservations_serialisable [OF demo_db_ok demo_race_reach] show ?thesis by simp
qed

end
