(* ===== verification/LP_Outbox.thy ===== *)
theory LP_Outbox
  imports LP_Events
begin

text \<open>
  The transactional outbox, \<^verbatim>\<open>src/src/infrastructure/outbox\<close>: the repository's statements on
  the table \<open>outbox_messages\<close> and the publisher's sweep over any broker. The table is a list
  of rows in insertion order; the payload column holds the event itself. \<open>markPublished\<close> may
  fail after the broker has taken the event, which is what makes delivery at-least-once: the
  sweep gets, per row, the error of that statement or none. \<open>insertWithinTransaction\<close> is
  the statement a caller runs inside its own transaction.

  The worker that polls with a timer (\<open>start\<close>, \<open>stop\<close>) is in \<open>LP_OutboxWorker\<close>.
\<close>

section \<open>Rows and statements\<close>

datatype OutboxStatus = OutboxPending | OutboxPublished | OutboxFailed

record 'd outboxRecord =
  ob_id :: string
  ob_eventId :: string
  ob_eventType :: string
  ob_aggregateId :: string
  ob_payload :: "'d domainEvent"
  ob_status :: OutboxStatus
  ob_retryCount :: int
  ob_createdAt :: date
  ob_publishedAt :: "date option"
  ob_lastError :: "string option"

type_synonym 'd outbox_table = "'d outboxRecord list"

text \<open>\<open>INSERT ... ON CONFLICT (event_id) DO NOTHING\<close>; a second row under the same primary
  key is an error.\<close>

definition insertWithinTransaction ::
    "string \<Rightarrow> date \<Rightarrow> 'd domainEvent \<Rightarrow> 'd outbox_table \<Rightarrow> 'd outbox_table result" where
  "insertWithinTransaction uuid now ev tbl =
     (if evt_eventId ev \<in> set (map ob_eventId tbl) then Inr tbl
      else if uuid \<in> set (map ob_id tbl) then Inl (DatabaseError ''duplicate key value violates unique constraint'')
      else Inr (tbl @ [\<lparr>ob_id = uuid, ob_eventId = evt_eventId ev, ob_eventType = evt_eventType ev,
             ob_aggregateId = evt_aggregateId ev, ob_payload = ev, ob_status = OutboxPending,
             ob_retryCount = 0, ob_createdAt = now, ob_publishedAt = None, ob_lastError = None\<rparr>]))"

definition insert_outbox :: "string \<Rightarrow> date \<Rightarrow> 'd domainEvent \<Rightarrow> 'd outbox_table \<Rightarrow> 'd outbox_table outcome" where
  "insert_outbox uuid now ev tbl =
     (case insertWithinTransaction uuid now ev tbl of Inl err \<Rightarrow> (Some err, tbl) | Inr tbl' \<Rightarrow> (None, tbl'))"

definition pending_for :: "string option \<Rightarrow> 'd outboxRecord \<Rightarrow> bool" where
  "pending_for aggregateId r \<longleftrightarrow>
     ob_status r = OutboxPending \<and> (\<not> truthy aggregateId \<or> aggregateId = Some (ob_aggregateId r))"

text \<open>The rows other sessions have locked at that moment are skipped. The statement runs in a
  transaction of its own, so its locks are gone when it returns.\<close>

definition fetchPendingBatch ::
    "(string \<Rightarrow> bool) \<Rightarrow> nat \<Rightarrow> string option \<Rightarrow> 'd outbox_table \<Rightarrow> 'd outboxRecord list" where
  "fetchPendingBatch locked limit aggregateId tbl =
     take limit (sort_key ob_createdAt (filter (\<lambda>r. pending_for aggregateId r \<and> \<not> locked (ob_id r)) tbl))"

definition update_row :: "string \<Rightarrow> ('d outboxRecord \<Rightarrow> 'd outboxRecord) \<Rightarrow> 'd outbox_table \<Rightarrow> 'd outbox_table" where
  "update_row i f tbl = map (\<lambda>r. if ob_id r = i then f r else r) tbl"

definition markPublished :: "string \<Rightarrow> date \<Rightarrow> 'd outbox_table \<Rightarrow> 'd outbox_table" where
  "markPublished i publishedAt tbl =
     update_row i (\<lambda>r. r\<lparr>ob_status := OutboxPublished, ob_publishedAt := Some publishedAt, ob_lastError := None\<rparr>) tbl"

definition recordFailure :: "string \<Rightarrow> string \<Rightarrow> 'd outbox_table \<Rightarrow> 'd outbox_table" where
  "recordFailure i err tbl =
     update_row i (\<lambda>r. r\<lparr>ob_status := (if 5 \<le> ob_retryCount r then OutboxFailed else OutboxPending),
       ob_retryCount := ob_retryCount r + 1, ob_lastError := Some err\<rparr>) tbl"

definition countPending :: "string option \<Rightarrow> 'd outbox_table \<Rightarrow> nat" where
  "countPending aggregateId tbl = length (filter (pending_for aggregateId) tbl)"

definition getByEventId :: "string \<Rightarrow> 'd outbox_table \<Rightarrow> 'd outboxRecord option" where
  "getByEventId eventId tbl = find (\<lambda>r. ob_eventId r = eventId) tbl"

definition clear_outbox :: "'d outbox_table \<Rightarrow> 'd outbox_table" where
  "clear_outbox tbl = []"

section \<open>The publisher\<close>

record publishBatchSummary =
  pb_published :: nat
  pb_failed :: nat
  pb_remaining :: nat

type_synonym ('d, 'k) publish_fn = "string \<Rightarrow> 'd domainEvent \<Rightarrow> 'k \<Rightarrow> 'k outcome"

text \<open>The loop over the fetched records: counters, table and broker. \<open>markErr\<close> is the error
  \<open>markPublished\<close> raises for a row.\<close>

fun publish_records ::
    "('d, 'k) publish_fn \<Rightarrow> (string \<Rightarrow> js_error option) \<Rightarrow> date \<Rightarrow> 'd outboxRecord list \<Rightarrow>
     nat \<Rightarrow> nat \<Rightarrow> 'd outbox_table \<Rightarrow> 'k \<Rightarrow> nat \<times> nat \<times> 'd outbox_table \<times> 'k" where
  "publish_records publish markErr now [] published failed tbl b = (published, failed, tbl, b)"
| "publish_records publish markErr now (r # rs) published failed tbl b =
     (case publish (ob_eventType r) (ob_payload r) b of
        (Some err, b') \<Rightarrow>
          publish_records publish markErr now rs published (failed + 1) (recordFailure (ob_id r) (message err) tbl) b'
      | (None, b') \<Rightarrow>
          (case markErr (ob_id r) of
             Some err \<Rightarrow>
               publish_records publish markErr now rs published (failed + 1)
                 (recordFailure (ob_id r) (message err) tbl) b'
           | None \<Rightarrow>
               publish_records publish markErr now rs (published + 1) failed (markPublished (ob_id r) now tbl) b'))"

definition publishPending ::
    "('d, 'k) publish_fn \<Rightarrow> (string \<Rightarrow> bool) \<Rightarrow> (string \<Rightarrow> js_error option) \<Rightarrow> date \<Rightarrow> nat \<Rightarrow> string option \<Rightarrow>
     'd outbox_table \<Rightarrow> 'k \<Rightarrow> publishBatchSummary \<times> 'd outbox_table \<times> 'k" where
  "publishPending publish locked markErr now batchSize aggregateId tbl b =
     (case publish_records publish markErr now (fetchPendingBatch locked batchSize aggregateId tbl) 0 0 tbl b of
        (published, failed, tbl', b') \<Rightarrow>
          (\<lparr>pb_published = published, pb_failed = failed, pb_remaining = countPending aggregateId tbl'\<rparr>, tbl', b'))"

section \<open>What the publisher relies on\<close>

text \<open>A broker with a log of what it has taken: a publish that resolves has appended the
  message, one that rejects has not.\<close>

locale message_broker =
  fixes publish :: "('d, 'k) publish_fn"
    and log :: "'k \<Rightarrow> (string \<times> 'd domainEvent) list"
  assumes publish_resolves: "publish topic ev b = (None, b') \<Longrightarrow> log b' = log b @ [(topic, ev)]"
    and publish_rejects: "publish topic ev b = (Some err, b') \<Longrightarrow> log b' = log b"

interpretation memory_broker: message_broker broker_publish publishedMessages
  by unfold_locales (auto simp: broker_publish_def split: if_splits)

section \<open>Soundness of the table\<close>

text \<open>A row marked published was taken by the broker; a row gave up only after six failures.\<close>

definition row_sound :: "(string \<times> 'd domainEvent) list \<Rightarrow> 'd outboxRecord \<Rightarrow> bool" where
  "row_sound msgs r \<longleftrightarrow>
     ob_eventId r = evt_eventId (ob_payload r) \<and> ob_eventType r = evt_eventType (ob_payload r) \<and>
     (case ob_status r of
        OutboxPublished \<Rightarrow> (ob_eventType r, ob_payload r) \<in> set msgs
      | OutboxPending \<Rightarrow> 0 \<le> ob_retryCount r \<and> ob_retryCount r \<le> 5
      | OutboxFailed \<Rightarrow> ob_retryCount r = 6 \<and> ob_lastError r \<noteq> None)"

definition outbox_sound :: "(string \<times> 'd domainEvent) list \<Rightarrow> 'd outbox_table \<Rightarrow> bool" where
  "outbox_sound msgs tbl \<longleftrightarrow>
     distinct (map ob_id tbl) \<and> distinct (map ob_eventId tbl) \<and> (\<forall>r \<in> set tbl. row_sound msgs r)"

text \<open>What no operation changes of a row.\<close>

definition row_key :: "'d outboxRecord \<Rightarrow> string \<times> string \<times> 'd domainEvent" where
  "row_key r = (ob_id r, ob_eventId r, ob_payload r)"

lemma row_keyD:
  "map row_key tbl' = map row_key tbl \<Longrightarrow> map ob_id tbl' = map ob_id tbl \<and>
     map ob_eventId tbl' = map ob_eventId tbl \<and> map ob_payload tbl' = map ob_payload tbl"
proof -
  assume eq: "map row_key tbl' = map row_key tbl"
  have "map ob_id t = map fst (map row_key t)" "map ob_eventId t = map (fst \<circ> snd) (map row_key t)"
    "map ob_payload t = map (snd \<circ> snd) (map row_key t)" for t :: "'d outbox_table"
    by (simp_all add: row_key_def)
  then show ?thesis unfolding eq by (metis eq)
qed

lemma update_row_keys:
  "(\<And>r. row_key (f r) = row_key r) \<Longrightarrow> map row_key (update_row i f tbl) = map row_key tbl"
  by (induction tbl) (auto simp: update_row_def)

lemma update_keys [simp]:
  "map row_key (markPublished i t tbl) = map row_key tbl"
  "map row_key (recordFailure i e tbl) = map row_key tbl"
  by (simp_all add: markPublished_def recordFailure_def update_row_keys row_key_def)

lemma row_sound_mono: "row_sound msgs r \<Longrightarrow> set msgs \<subseteq> set msgs' \<Longrightarrow> row_sound msgs' r"
  by (auto simp: row_sound_def split: OutboxStatus.splits)

lemma outbox_sound_update:
  assumes "outbox_sound msgs tbl" "set msgs \<subseteq> set msgs'" "\<And>r. row_key (f r) = row_key r"
    and "\<And>r. r \<in> set tbl \<Longrightarrow> ob_id r = i \<Longrightarrow> row_sound msgs r \<Longrightarrow> row_sound msgs' (f r)"
  shows "outbox_sound msgs' (update_row i f tbl)"
proof -
  have "row_sound msgs' r'" if "r' \<in> set (update_row i f tbl)" for r'
    using that assms(1,2,4) row_sound_mono by (fastforce simp: update_row_def outbox_sound_def)
  then show ?thesis
    using assms(1) row_keyD [OF update_row_keys [of f i tbl, OF assms(3)]] by (simp add: outbox_sound_def)
qed

text \<open>A record fetched for publishing is the row of the table, still pending, when its turn
  comes: the loop touches each row once.\<close>

definition batch_of :: "'d outboxRecord list \<Rightarrow> 'd outbox_table \<Rightarrow> bool" where
  "batch_of rs tbl \<longleftrightarrow> distinct (map ob_id rs) \<and> set rs \<subseteq> set tbl \<and> (\<forall>r \<in> set rs. ob_status r = OutboxPending)"

lemma batch_of_update:
  assumes "batch_of (r # rs) tbl" "distinct (map ob_id tbl)"
  shows "batch_of rs (update_row (ob_id r) f tbl)"
proof -
  have "r' \<in> set (update_row (ob_id r) f tbl)" if "r' \<in> set rs" for r'
  proof -
    have "r' \<in> set tbl" "ob_id r' \<noteq> ob_id r" using assms(1) that by (auto simp: batch_of_def image_iff)
    then show ?thesis by (force simp: update_row_def)
  qed
  with assms(1) show ?thesis by (auto simp: batch_of_def)
qed

lemma fetch_batch: "distinct (map ob_id tbl) \<Longrightarrow> batch_of (fetchPendingBatch locked n agg tbl) tbl"
proof -
  assume d: "distinct (map ob_id tbl)"
  let ?s = "sort_key ob_createdAt (filter (\<lambda>r. pending_for agg r \<and> \<not> locked (ob_id r)) tbl)"
  have "distinct (map ob_id ?s)" using d by (auto simp: distinct_map inj_on_def)
  then show ?thesis
    unfolding batch_of_def fetchPendingBatch_def
    by (auto simp: take_map [symmetric] distinct_take pending_for_def dest: in_set_takeD)
qed

lemma row_unique: "distinct (map ob_id tbl) \<Longrightarrow> r \<in> set tbl \<Longrightarrow> r' \<in> set tbl \<Longrightarrow> ob_id r = ob_id r' \<Longrightarrow> r = r'"
  by (auto simp: distinct_map inj_on_def)

lemma mark_sound:
  assumes "outbox_sound msgs tbl" "r \<in> set tbl" "set msgs \<subseteq> set msgs'" "(ob_eventType r, ob_payload r) \<in> set msgs'"
  shows "outbox_sound msgs' (markPublished (ob_id r) now tbl)"
  unfolding markPublished_def
proof (rule outbox_sound_update [OF assms(1,3)])
  fix r' assume "r' \<in> set tbl" "ob_id r' = ob_id r" "row_sound msgs r'"
  moreover from this assms(1,2) have "r' = r" using row_unique by (auto simp: outbox_sound_def)
  ultimately show "row_sound msgs' (r'\<lparr>ob_status := OutboxPublished, ob_publishedAt := Some now, ob_lastError := None\<rparr>)"
    using assms(4) by (simp add: row_sound_def)
qed (simp add: row_key_def)

lemma failure_sound:
  assumes "outbox_sound msgs tbl" "r \<in> set tbl" "set msgs \<subseteq> set msgs'" "ob_status r = OutboxPending"
  shows "outbox_sound msgs' (recordFailure (ob_id r) e tbl)"
  unfolding recordFailure_def
proof (rule outbox_sound_update [OF assms(1,3)])
  fix r' assume "r' \<in> set tbl" "ob_id r' = ob_id r" "row_sound msgs r'"
  moreover from this assms(1,2) have "r' = r" using row_unique by (auto simp: outbox_sound_def)
  ultimately show "row_sound msgs' (r'\<lparr>ob_status := if 5 \<le> ob_retryCount r' then OutboxFailed else OutboxPending,
      ob_retryCount := ob_retryCount r' + 1, ob_lastError := Some e\<rparr>)"
    using assms(4) by (auto simp: row_sound_def)
qed (simp add: row_key_def)

context message_broker
begin

lemma records_sound:
  assumes "outbox_sound (log b) tbl" "batch_of rs tbl"
    and "publish_records publish markErr now rs p f tbl b = (p', f', tbl', b')"
  shows "outbox_sound (log b') tbl' \<and> map row_key tbl' = map row_key tbl \<and> prefix (log b) (log b')"
  using assms
proof (induction rs arbitrary: p f tbl b)
  case Nil
  then show ?case by simp
next
  case (Cons r rs)
  have d: "distinct (map ob_id tbl)" using Cons.prems(1) by (simp add: outbox_sound_def)
  have r: "r \<in> set tbl" "ob_status r = OutboxPending" using Cons.prems(2) by (auto simp: batch_of_def)
  obtain e b1 where pub: "publish (ob_eventType r) (ob_payload r) b = (e, b1)" by fastforce
  have rest: "batch_of rs (markPublished (ob_id r) now tbl)" "batch_of rs (recordFailure (ob_id r) m tbl)" for m
    using batch_of_update [OF Cons.prems(2) d] by (simp_all add: markPublished_def recordFailure_def)
  show ?case
  proof (cases e)
    case (Some err)
    have l: "log b1 = log b" using publish_rejects pub Some by blast
    then have "outbox_sound (log b1) (recordFailure (ob_id r) (message err) tbl)"
      using failure_sound [OF Cons.prems(1) r(1) _ r(2)] by simp
    from Cons.IH [OF this rest(2)] Cons.prems(3) pub Some l show ?thesis by simp
  next
    case None
    have l: "log b1 = log b @ [(ob_eventType r, ob_payload r)]" using publish_resolves pub None by blast
    show ?thesis
    proof (cases "markErr (ob_id r)")
      case None2: None
      have "outbox_sound (log b1) (markPublished (ob_id r) now tbl)"
        using l by (intro mark_sound [OF Cons.prems(1) r(1)]) auto
      from Cons.IH [OF this rest(1)] Cons.prems(3) pub None None2 l show ?thesis
        by (auto intro: prefix_order.trans [of "log b" "log b1"])
    next
      case (Some err)
      have "outbox_sound (log b1) (recordFailure (ob_id r) (message err) tbl)"
        using l by (intro failure_sound [OF Cons.prems(1) r(1) _ r(2)]) auto
      from Cons.IH [OF this rest(2)] Cons.prems(3) pub None Some l show ?thesis
        by (auto intro: prefix_order.trans [of "log b" "log b1"])
    qed
  qed
qed

lemma sweep_sound:
  assumes "outbox_sound (log b) tbl"
    and "publishPending publish locked markErr now n agg tbl b = (res, tbl', b')"
  shows "outbox_sound (log b') tbl' \<and> map row_key tbl' = map row_key tbl \<and> prefix (log b) (log b')"
proof -
  have "batch_of (fetchPendingBatch locked n agg tbl) tbl"
    using assms(1) by (intro fetch_batch) (simp add: outbox_sound_def)
  from records_sound [OF assms(1) this] assms(2) show ?thesis
    by (auto simp: publishPending_def split: prod.splits)
qed

end

section \<open>The outbox over time\<close>

text \<open>Events are inserted, sweeps run, and the broker changes on its own (goes down, comes
  back, takes messages of others), never forgetting a message. \<open>sy_inserted\<close> remembers the
  events whose insertion succeeded.\<close>

record ('d, 'k) outbox_system =
  sy_table :: "'d outbox_table"
  sy_broker :: 'k
  sy_inserted :: "'d domainEvent list"

inductive outbox_step ::
    "('d, 'k) publish_fn \<Rightarrow> ('k \<Rightarrow> (string \<times> 'd domainEvent) list) \<Rightarrow>
     ('d, 'k) outbox_system \<Rightarrow> ('d, 'k) outbox_system \<Rightarrow> bool"
  for publish log where
  inserted: "insert_outbox uuid now ev (sy_table s) = (None, tbl') \<Longrightarrow>
    outbox_step publish log s (s\<lparr>sy_table := tbl', sy_inserted := sy_inserted s @ [ev]\<rparr>)"
| sweep: "publishPending publish locked markErr now n agg (sy_table s) (sy_broker s) = (res, tbl', b') \<Longrightarrow>
    outbox_step publish log s (s\<lparr>sy_table := tbl', sy_broker := b'\<rparr>)"
| moves: "prefix (log (sy_broker s)) (log b') \<Longrightarrow> outbox_step publish log s (s\<lparr>sy_broker := b'\<rparr>)"

inductive outbox_reach ::
    "('d, 'k) publish_fn \<Rightarrow> ('k \<Rightarrow> (string \<times> 'd domainEvent) list) \<Rightarrow> ('d, 'k) outbox_system \<Rightarrow> bool"
  for publish log where
  start: "outbox_reach publish log \<lparr>sy_table = [], sy_broker = b, sy_inserted = []\<rparr>"
| step: "outbox_reach publish log s \<Longrightarrow> outbox_step publish log s s' \<Longrightarrow> outbox_reach publish log s'"

definition outbox_inv :: "('k \<Rightarrow> (string \<times> 'd domainEvent) list) \<Rightarrow> ('d, 'k) outbox_system \<Rightarrow> bool" where
  "outbox_inv log s \<longleftrightarrow> outbox_sound (log (sy_broker s)) (sy_table s) \<and>
     evt_eventId ` set (sy_inserted s) = set (map ob_eventId (sy_table s)) \<and>
     set (map ob_payload (sy_table s)) \<subseteq> set (sy_inserted s)"

lemma insert_sound:
  assumes "outbox_sound msgs tbl" "insert_outbox uuid now ev tbl = (None, tbl')"
  shows "outbox_sound msgs tbl'"
  using assms
  by (auto simp: insert_outbox_def insertWithinTransaction_def outbox_sound_def row_sound_def split: if_splits)

lemma outbox_step_inv:
  assumes "message_broker publish log" "outbox_step publish log s s'" "outbox_inv log s"
  shows "outbox_inv log s'"
  using assms(2)
proof (cases rule: outbox_step.cases)
  case (inserted uuid now ev tbl')
  then have "outbox_sound (log (sy_broker s)) tbl'" using insert_sound assms(3) by (auto simp: outbox_inv_def)
  moreover have "insert (evt_eventId ev) (set (map ob_eventId (sy_table s))) = set (map ob_eventId tbl')"
    "set (map ob_payload tbl') \<subseteq> insert ev (set (map ob_payload (sy_table s)))"
    using inserted(2) by (auto simp: insert_outbox_def insertWithinTransaction_def split: if_splits)
  moreover have "set (map ob_payload (sy_table s)) \<subseteq> set (sy_inserted s)" using assms(3) by (simp add: outbox_inv_def)
  ultimately have "outbox_sound (log (sy_broker s)) tbl'" "set (map ob_payload tbl') \<subseteq> insert ev (set (sy_inserted s))"
    "insert (evt_eventId ev) (evt_eventId ` set (sy_inserted s)) = set (map ob_eventId tbl')"
    using assms(3) by (blast, blast, simp add: outbox_inv_def)
  then show ?thesis unfolding outbox_inv_def inserted(1) by simp
next
  case (sweep locked markErr now n agg res tbl' b')
  from message_broker.sweep_sound [OF assms(1) _ sweep(2)] assms(3)
  have "outbox_sound (log b') tbl'" "map row_key tbl' = map row_key (sy_table s)" by (auto simp: outbox_inv_def)
  with row_keyD [OF this(2)] assms(3) sweep(1) show ?thesis
    by (simp add: outbox_inv_def del: set_map) 
next
  case (moves b')
  then have "set (log (sy_broker s)) \<subseteq> set (log b')" by (meson set_mono_prefix)
  moreover have snd: "outbox_sound (log (sy_broker s)) (sy_table s)" using assms(3) by (simp add: outbox_inv_def)
  ultimately have "row_sound (log b') r" if "r \<in> set (sy_table s)" for r
    using that row_sound_mono unfolding outbox_sound_def by blast
  then have "outbox_sound (log b') (sy_table s)" using snd by (simp add: outbox_sound_def)
  then show ?thesis using assms(3) moves(1) by (simp add: outbox_inv_def)
qed

lemma outbox_reach_inv:
  assumes "message_broker publish log" "outbox_reach publish log s"
  shows "outbox_inv log s"
  using assms(2)
proof (induction rule: outbox_reach.induct)
  case (start b)
  then show ?case by (simp add: outbox_inv_def outbox_sound_def)
next
  case (step s s')
  then show ?case using outbox_step_inv [OF assms(1)] by blast
qed

section \<open>A sweep over a healthy broker\<close>

definition messages_of :: "'d outboxRecord list \<Rightarrow> (string \<times> 'd domainEvent) list" where
  "messages_of rs = map (\<lambda>r. (ob_eventType r, ob_payload r)) rs"

lemma pending_after_mark:
  "r' \<in> set (markPublished i now tbl) \<Longrightarrow> ob_status r' = OutboxPending \<Longrightarrow> r' \<in> set tbl \<and> ob_id r' \<noteq> i"
  by (auto simp: markPublished_def update_row_def split: if_splits)

lemma healthy_records:
  assumes "\<not> isDown b" "failCount b \<le> 0" "publish_records broker_publish (\<lambda>_. None) now rs p f tbl b = (p', f', tbl', b')"
  shows "p' = p + length rs \<and> f' = f \<and> publishedMessages b' = publishedMessages b @ messages_of rs \<and>
    (\<forall>r \<in> set tbl'. ob_status r = OutboxPending \<longrightarrow> r \<in> set tbl \<and> ob_id r \<notin> ob_id ` set rs)"
  using assms
proof (induction rs arbitrary: p tbl b)
  case Nil
  then show ?case by (simp add: messages_of_def)
next
  case (Cons r rs)
  define b1 where "b1 = snd (broker_publish (ob_eventType r) (ob_payload r) b)"
  have b1: "broker_publish (ob_eventType r) (ob_payload r) b = (None, b1)" "\<not> isDown b1" "failCount b1 \<le> 0"
    "publishedMessages b1 = publishedMessages b @ [(ob_eventType r, ob_payload r)]"
    using Cons.prems(1,2) by (simp_all add: b1_def broker_publish_def)
  have "publish_records broker_publish (\<lambda>_. None) now rs (p + 1) f (markPublished (ob_id r) now tbl) b1 = (p', f', tbl', b')"
    using Cons.prems(3) b1(1) by simp
  from Cons.IH [OF b1(2,3) this] b1(4) pending_after_mark [of _ "ob_id r" now tbl] show ?case
    by (auto simp: messages_of_def)
qed

section \<open>Properties\<close>


definition demo_event :: "unit domainEvent" where
  "demo_event = \<lparr>evt_eventId = ''e1'', evt_eventType = ''order.confirmed'', evt_aggregateId = ''o1'', evt_version = 1,
     evt_occurredAt = ''now'', evt_producer = ''p'', evt_data = (), evt_metadata = None\<rparr>"

definition demo_broker :: "bool \<Rightarrow> unit broker" where
  "demo_broker down = \<lparr>handlers = [], publishedMessages = [], isDown = down, failCount = 0, scheduled = []\<rparr>"

definition demo_outbox :: "unit outbox_table" where
  "demo_outbox = snd (insert_outbox ''m1'' 5 demo_event [])"

definition demo_swept :: "(unit, unit broker) outbox_system" where
  "demo_swept = (case publishPending broker_publish (\<lambda>_. False) (\<lambda>_. None) 9 50 None demo_outbox (demo_broker False) of
     (_, tbl, b) \<Rightarrow> \<lparr>sy_table = tbl, sy_broker = b, sy_inserted = [demo_event]\<rparr>)"

lemma demo_swept_reach: "outbox_reach broker_publish publishedMessages demo_swept"
proof -
  let ?s0 = "\<lparr>sy_table = [], sy_broker = demo_broker False, sy_inserted = []\<rparr> :: (unit, unit broker) outbox_system"
  have "insert_outbox ''m1'' 5 demo_event (sy_table ?s0) = (None, demo_outbox)"
    by (simp add: demo_outbox_def insert_outbox_def insertWithinTransaction_def)
  then have "outbox_step broker_publish publishedMessages ?s0
      (?s0\<lparr>sy_table := demo_outbox, sy_inserted := sy_inserted ?s0 @ [demo_event]\<rparr>)"
    by (rule outbox_step.inserted)
  with outbox_reach.start have "outbox_reach broker_publish publishedMessages
      (?s0\<lparr>sy_table := demo_outbox, sy_inserted := sy_inserted ?s0 @ [demo_event]\<rparr>)"
    by (rule outbox_reach.step)
  moreover obtain res tbl b where p: "publishPending broker_publish (\<lambda>_. False) (\<lambda>_. None) 9 50 None demo_outbox
      (demo_broker False) = (res, tbl, b)" by (rule prod_cases3)
  ultimately have "outbox_reach broker_publish publishedMessages
      (?s0\<lparr>sy_table := demo_outbox, sy_inserted := sy_inserted ?s0 @ [demo_event], sy_table := tbl, sy_broker := b\<rparr>)"
    by (elim outbox_reach.step) (rule outbox_step.sweep, simp)
  with p show ?thesis by (simp add: demo_swept_def)
qed


text \<open>
  When the broker is healthy a sweep empties the backlog. With a batch at least as large
  as the backlog and no statement failing, every pending event is published under the topic of
  its type, oldest first and each once, and none remains.
\<close>

theorem healthy_sweep_drains:
  assumes "\<not> isDown b" "failCount b \<le> 0" "countPending agg tbl \<le> n"
  shows "\<exists>tbl' b'. publishPending broker_publish (\<lambda>_. False) (\<lambda>_. None) now n agg tbl b =
      (\<lparr>pb_published = countPending agg tbl, pb_failed = 0, pb_remaining = 0\<rparr>, tbl', b') \<and>
    publishedMessages b' = publishedMessages b @ messages_of (sort_key ob_createdAt (filter (pending_for agg) tbl))"
proof -
  let ?rs = "sort_key ob_createdAt (filter (pending_for agg) tbl)"
  have rs: "fetchPendingBatch (\<lambda>_. False) n agg tbl = ?rs"
    using assms(3) by (simp add: fetchPendingBatch_def countPending_def)
  obtain p f tbl' b' where run: "publish_records broker_publish (\<lambda>_. None) now ?rs 0 0 tbl b = (p, f, tbl', b')"
    by (rule prod_cases4)
  note h = healthy_records [OF assms(1,2) run]
  have "\<not> pending_for agg r" if "r \<in> set tbl'" for r
  proof
    assume pend: "pending_for agg r"
    then have "r \<in> set tbl" "ob_id r \<notin> ob_id ` set ?rs" using h that by (auto simp: pending_for_def)
    with pend show False by auto
  qed
  then have "countPending agg tbl' = 0" by (simp add: countPending_def filter_empty_conv)
  with h run show ?thesis by (auto simp: publishPending_def rs countPending_def)
qed

theorem healthy_sweep_drains_witness:
  "\<exists>tbl' b'. publishPending broker_publish (\<lambda>_. False) (\<lambda>_. None) 9 50 None demo_outbox (demo_broker False) =
      (\<lparr>pb_published = 1, pb_failed = 0, pb_remaining = 0\<rparr>, tbl', b')"
proof -
  have "countPending None demo_outbox = 1"
    "\<not> isDown (demo_broker False)" "failCount (demo_broker False) \<le> 0" by code_simp+
  then show ?thesis using healthy_sweep_drains [of "demo_broker False" None demo_outbox 50 9] by auto
qed

text \<open>Two publishers that fetch before either marks publish the same event twice: the row
  locks of \<open>fetchPendingBatch\<close> end with its statement.\<close>

lemma two_publishers_duplicate:
  "(let batch = fetchPendingBatch (\<lambda>_. False) 50 None demo_outbox;
        (_, _, t1, b1) = publish_records broker_publish (\<lambda>_. None) 9 batch 0 0 demo_outbox (demo_broker False);
        (_, _, t2, b2) = publish_records broker_publish (\<lambda>_. None) 9 batch 0 0 t1 b1
    in length (publishedMessages b2) = 2)"
  by code_simp

end
