(* ===== verification/LP_OutboxWorker.thy ===== *)
theory LP_OutboxWorker
  imports LP_Outbox
begin

text \<open>
  The background worker of \<^verbatim>\<open>src/src/infrastructure/outbox/OutboxPublisher.ts\<close>: \<open>start\<close>,
  \<open>stop\<close> and the polling closure between them. Timers of the runtime have handles; the
  publisher remembers the last one it set. A poll that a timer has started awaits its sweep, and
  \<open>start\<close> and \<open>stop\<close> may be called meanwhile; the effect of the sweep is taken at its end.
  The interval itself is left out: an armed timer fires at any time.
\<close>

section \<open>The worker\<close>

record worker =
  wk_isRunning :: bool
  wk_timer :: "nat option"
  wk_armed :: "nat list"
  wk_polls :: nat
  wk_nextHandle :: nat

definition new_worker :: worker where
  "new_worker = \<lparr>wk_isRunning = False, wk_timer = None, wk_armed = [], wk_polls = 0, wk_nextHandle = 0\<rparr>"

text \<open>\<open>this.timer = setTimeout(poll, pollIntervalMs)\<close>\<close>

definition set_timer :: "worker \<Rightarrow> worker" where
  "set_timer w = w\<lparr>wk_timer := Some (wk_nextHandle w), wk_armed := wk_nextHandle w # wk_armed w, wk_nextHandle := wk_nextHandle w + 1\<rparr>"

definition start_worker :: "worker \<Rightarrow> worker" where
  "start_worker w = (if wk_isRunning w then w else set_timer (w\<lparr>wk_isRunning := True\<rparr>))"

definition stop_worker :: "worker \<Rightarrow> worker" where
  "stop_worker w =
     (let w' = w\<lparr>wk_isRunning := False\<rparr> in
      case wk_timer w of None \<Rightarrow> w' | Some h \<Rightarrow> w'\<lparr>wk_armed := removeAll h (wk_armed w'), wk_timer := None\<rparr>)"

text \<open>The closure up to its await, and from the end of the sweep.\<close>

definition poll_begins :: "nat \<Rightarrow> worker \<Rightarrow> worker" where
  "poll_begins h w =
     (if h \<notin> set (wk_armed w) then w
      else let w' = w\<lparr>wk_armed := removeAll h (wk_armed w)\<rparr>
           in if wk_isRunning w' then w'\<lparr>wk_polls := wk_polls w' + 1\<rparr> else w')"

definition poll_ends :: "worker \<Rightarrow> worker" where
  "poll_ends w = (let w' = w\<lparr>wk_polls := wk_polls w - 1\<rparr> in if wk_isRunning w' then set_timer w' else w')"

section \<open>The worker over the outbox\<close>

record ('d, 'k) worker_system =
  ws_worker :: worker
  ws_table :: "'d outbox_table"
  ws_broker :: 'k

record sweep_env =
  se_locked :: "string \<Rightarrow> bool"
  se_markErr :: "string \<Rightarrow> js_error option"
  se_now :: date

text \<open>A sweep ends with \<^term>\<open>None\<close> when its first statement fails; the error is swallowed.\<close>

datatype worker_event = is_WorkerStart: WorkerStart | WorkerStop | TimerFires nat | SweepEnds "sweep_env option"

fun worker_step :: "('d, 'k) publish_fn \<Rightarrow> worker_event \<Rightarrow> ('d, 'k) worker_system \<Rightarrow> ('d, 'k) worker_system" where
  "worker_step publish WorkerStart s = s\<lparr>ws_worker := start_worker (ws_worker s)\<rparr>"
| "worker_step publish WorkerStop s = s\<lparr>ws_worker := stop_worker (ws_worker s)\<rparr>"
| "worker_step publish (TimerFires h) s = s\<lparr>ws_worker := poll_begins h (ws_worker s)\<rparr>"
| "worker_step publish (SweepEnds env) s =
     (if wk_polls (ws_worker s) = 0 then s
      else
        let s' = (case env of
              None \<Rightarrow> s
            | Some v \<Rightarrow>
                (case publishPending publish (se_locked v) (se_markErr v) (se_now v) 50 None (ws_table s) (ws_broker s) of
                   (_, tbl, b) \<Rightarrow> s\<lparr>ws_table := tbl, ws_broker := b\<rparr>))
        in s'\<lparr>ws_worker := poll_ends (ws_worker s')\<rparr>)"

section \<open>Invariants\<close>

text \<open>Handles are fresh; a worker that runs has a next poll; one that does not run remembers no
  timer.\<close>

definition worker_inv :: "worker \<Rightarrow> bool" where
  "worker_inv w \<longleftrightarrow> distinct (wk_armed w) \<and> (\<forall>h \<in> set (wk_armed w). h < wk_nextHandle w) \<and>
     (wk_isRunning w \<longrightarrow> wk_armed w \<noteq> [] \<or> 0 < wk_polls w) \<and> (\<not> wk_isRunning w \<longrightarrow> wk_timer w = None)"

lemmas worker_defs = set_timer_def start_worker_def stop_worker_def poll_begins_def poll_ends_def

lemma worker_of_sweep [simp]:
  "ws_worker (case x of (_, tbl, b) \<Rightarrow> s\<lparr>ws_table := tbl, ws_broker := b\<rparr>) = ws_worker s"
  by (simp split: prod.splits)

lemma worker_step_worker:
  "ws_worker (worker_step publish e s) =
     (case e of
        WorkerStart \<Rightarrow> start_worker (ws_worker s)
      | WorkerStop \<Rightarrow> stop_worker (ws_worker s)
      | TimerFires h \<Rightarrow> poll_begins h (ws_worker s)
      | SweepEnds _ \<Rightarrow> if wk_polls (ws_worker s) = 0 then ws_worker s else poll_ends (ws_worker s))"
  by (cases e) (simp_all add: Let_def split: option.splits)

lemma worker_inv_ops:
  assumes "worker_inv w"
  shows "worker_inv (start_worker w)" "worker_inv (stop_worker w)" "worker_inv (poll_begins h w)" "worker_inv (poll_ends w)"
  using assms by (auto simp: worker_inv_def worker_defs Let_def distinct_removeAll less_Suc_eq split: option.splits)

interpretation outbox_worker: invariant_steps "worker_step publish" "\<lambda>s. worker_inv (ws_worker s)" for publish
  by unfold_locales (auto simp: worker_step_worker worker_inv_ops split: worker_event.splits)

text \<open>One chain of polls: the only armed timer is the remembered one, and none is armed during a
  sweep. It holds as long as \<open>start\<close> is not called on a stopped worker that is still sweeping.\<close>

definition one_chain :: "worker \<Rightarrow> bool" where
  "one_chain w \<longleftrightarrow> (if wk_polls w = 0 then wk_armed w = (if wk_isRunning w then case_option [] (\<lambda>h. [h]) (wk_timer w) else [])
     else wk_polls w = 1 \<and> wk_armed w = []) \<and> (wk_isRunning w \<longrightarrow> wk_timer w \<noteq> None)"

fun calm :: "('d, 'k) publish_fn \<Rightarrow> worker_event list \<Rightarrow> ('d, 'k) worker_system \<Rightarrow> bool" where
  "calm publish [] s \<longleftrightarrow> True"
| "calm publish (e # es) s \<longleftrightarrow>
     (is_WorkerStart e \<and> \<not> wk_isRunning (ws_worker s) \<longrightarrow> wk_polls (ws_worker s) = 0) \<and> calm publish es (worker_step publish e s)"

lemma one_chain_start: "one_chain w \<Longrightarrow> \<not> wk_isRunning w \<longrightarrow> wk_polls w = 0 \<Longrightarrow> one_chain (start_worker w)"
  by (cases "wk_isRunning w"; cases "wk_polls w = 0") (simp_all add: one_chain_def start_worker_def set_timer_def)

lemma one_chain_stop: "one_chain w \<Longrightarrow> one_chain (stop_worker w)"
  by (cases "wk_polls w = 0"; cases "wk_isRunning w"; cases "wk_timer w") (simp_all add: one_chain_def stop_worker_def Let_def)

lemma one_chain_begins: "one_chain w \<Longrightarrow> one_chain (poll_begins h w)"
  by (cases "wk_polls w = 0"; cases "wk_isRunning w"; cases "wk_timer w") (simp_all add: one_chain_def poll_begins_def)

lemma one_chain_ends: "one_chain w \<Longrightarrow> wk_polls w \<noteq> 0 \<Longrightarrow> one_chain (poll_ends w)"
  by (cases "wk_isRunning w") (simp_all add: one_chain_def poll_ends_def set_timer_def Let_def)

lemmas one_chain_ops = one_chain_start one_chain_stop one_chain_begins one_chain_ends

lemma one_chain_run:
  assumes "calm publish es s" "one_chain (ws_worker s)"
  shows "one_chain (ws_worker (fold (worker_step publish) es s))"
  using assms
proof (induction es arbitrary: s)
  case (Cons e es)
  have "one_chain (ws_worker (worker_step publish e s))"
    unfolding worker_step_worker using Cons.prems
    by (cases e) (auto intro: one_chain_ops simp del: worker_step.simps)
  then show ?case using Cons by simp
qed simp

lemma stopped_stays:
  assumes "WorkerStart \<notin> set es" "\<not> wk_isRunning (ws_worker s)"
  shows "\<not> wk_isRunning (ws_worker (fold (worker_step publish) es s)) \<and>
    wk_polls (ws_worker (fold (worker_step publish) es s)) \<le> wk_polls (ws_worker s) \<and>
    (wk_polls (ws_worker s) = 0 \<longrightarrow>
       ws_table (fold (worker_step publish) es s) = ws_table s \<and> ws_broker (fold (worker_step publish) es s) = ws_broker s)"
  using assms
proof (induction es arbitrary: s)
  case (Cons e es)
  let ?t = "worker_step publish e s"
  have "\<not> wk_isRunning (ws_worker ?t) \<and> wk_polls (ws_worker ?t) \<le> wk_polls (ws_worker s) \<and>
      (wk_polls (ws_worker s) = 0 \<longrightarrow> ws_table ?t = ws_table s \<and> ws_broker ?t = ws_broker s)"
    using Cons.prems
    by (cases e) (auto simp: worker_step_worker worker_defs Let_def split: option.splits)
  then show ?case using Cons.IH [of ?t] Cons.prems by auto
qed simp

section \<open>Properties\<close>

definition fresh_worker :: "'d outbox_table \<Rightarrow> 'k \<Rightarrow> ('d, 'k) worker_system" where
  "fresh_worker tbl b = \<lparr>ws_worker = new_worker, ws_table = tbl, ws_broker = b\<rparr>"

text \<open>
  C25: the publisher's worker. After any sequence of \<open>start\<close>, \<open>stop\<close>, timers and sweeps,
  failing ones included: a running worker always has a timer armed or a sweep under way, so
  polling never dies; as long as no \<open>start\<close> follows a \<open>stop\<close> while a sweep is still under way
  there is only one of them, so sweeps of one publisher do not overlap; and after a \<open>stop\<close>, until
  the next \<open>start\<close>, no sweep begins, and when none was under way table and broker stay as they
  are.
\<close>

theorem worker_lifecycle:
  assumes "s = fold (worker_step publish) es (fresh_worker tbl b)"
  shows "(wk_isRunning (ws_worker s) \<longrightarrow> wk_armed (ws_worker s) \<noteq> [] \<or> 0 < wk_polls (ws_worker s)) \<and>
    (calm publish es (fresh_worker tbl b) \<longrightarrow> length (wk_armed (ws_worker s)) + wk_polls (ws_worker s) \<le> 1) \<and>
    (\<forall>es'. WorkerStart \<notin> set es' \<longrightarrow>
       (let stopped = worker_step publish WorkerStop s; t = fold (worker_step publish) es' stopped in
        wk_polls (ws_worker t) \<le> wk_polls (ws_worker s) \<and>
        (wk_polls (ws_worker s) = 0 \<longrightarrow> ws_table t = ws_table s \<and> ws_broker t = ws_broker s)))"
proof (intro conjI allI impI)
  have "worker_inv (ws_worker (fresh_worker tbl b))" by (simp add: fresh_worker_def new_worker_def worker_inv_def)
  from outbox_worker.run_inv [where publish = publish, OF this, of es]
  show "wk_armed (ws_worker s) \<noteq> [] \<or> 0 < wk_polls (ws_worker s)" if "wk_isRunning (ws_worker s)"
    using that assms by (simp add: worker_inv_def)
next
  assume calm: "calm publish es (fresh_worker tbl b)"
  have "one_chain (ws_worker (fresh_worker tbl b))" by (simp add: one_chain_def fresh_worker_def new_worker_def)
  from one_chain_run [OF calm this] have "one_chain (ws_worker s)" by (simp only: assms)
  then show "length (wk_armed (ws_worker s)) + wk_polls (ws_worker s) \<le> 1"
    by (auto simp: one_chain_def split: if_splits option.splits)
next
  fix es'
  assume es': "WorkerStart \<notin> set es'"
  have st: "\<not> wk_isRunning (ws_worker (worker_step publish WorkerStop s))"
    "wk_polls (ws_worker (worker_step publish WorkerStop s)) = wk_polls (ws_worker s)"
    by (auto simp: stop_worker_def Let_def split: option.splits)
  from stopped_stays [OF es' st(1), of publish] st(2)
  show "let stopped = worker_step publish WorkerStop s; t = fold (worker_step publish) es' stopped in
      wk_polls (ws_worker t) \<le> wk_polls (ws_worker s) \<and>
      (wk_polls (ws_worker s) = 0 \<longrightarrow> ws_table t = ws_table s \<and> ws_broker t = ws_broker s)"
    by (simp add: Let_def)
qed

definition demo_sweep :: worker_event where
  "demo_sweep = SweepEnds (Some \<lparr>se_locked = (\<lambda>_. False), se_markErr = (\<lambda>_. None), se_now = 9\<rparr>)"

definition demo_worker :: "(unit, unit broker) worker_system" where
  "demo_worker = fold (worker_step broker_publish) [WorkerStart, TimerFires 0, demo_sweep] (fresh_worker demo_outbox (demo_broker False))"

theorem worker_lifecycle_witness:
  "wk_isRunning (ws_worker demo_worker) \<and> length (wk_armed (ws_worker demo_worker)) = 1 \<and>
   ws_table (fold (worker_step broker_publish) [WorkerStop, TimerFires 1, demo_sweep] demo_worker) = ws_table demo_worker \<and>
   countPending None (ws_table demo_worker) = 0"
proof -
  have c: "wk_isRunning (ws_worker demo_worker)" "wk_polls (ws_worker demo_worker) = 0" "countPending None (ws_table demo_worker) = 0"
    "calm broker_publish [WorkerStart, TimerFires 0, demo_sweep] (fresh_worker demo_outbox (demo_broker False))"
    by code_simp+
  have es: "WorkerStart \<notin> set [TimerFires 1, demo_sweep]" by (simp add: demo_sweep_def)
  note life = worker_lifecycle [OF demo_worker_def]
  have "wk_armed (ws_worker demo_worker) \<noteq> []" "length (wk_armed (ws_worker demo_worker)) \<le> 1" using life c(1,2,4) by auto
  then have "length (wk_armed (ws_worker demo_worker)) = 1" by (cases "wk_armed (ws_worker demo_worker)") auto
  moreover have "ws_table (fold (worker_step broker_publish) [TimerFires 1, demo_sweep] (worker_step broker_publish WorkerStop demo_worker)) =
      ws_table demo_worker"
    using life c(2) es unfolding Let_def by blast
  ultimately show ?thesis using c by (simp del: worker_step.simps)
qed

text \<open>A restart during a sweep: the old poll goes on beside the new one, and the two chains never
  merge again.\<close>

lemma restart_doubles_polling:
  "length (wk_armed (ws_worker (fold (worker_step broker_publish)
     [WorkerStart, TimerFires 0, WorkerStop, WorkerStart, SweepEnds None] (fresh_worker demo_outbox (demo_broker False))))) = 2"
  by code_simp

end
