(* ===== verification/LP_Consumer.thy ===== *)
theory LP_Consumer
  imports LP_Events
begin

text \<open>
  The consumer side, \<^verbatim>\<open>src/src/infrastructure/consumer\<close>: the inbox that makes a consumer's
  effect idempotent, the classification of errors, the retry loop and the dead letter queue.

  The effect of \<open>processTransactional\<close> works on the same database as the inbox and in the
  same transaction, so it is a function of the business tables that may throw; a throw rolls
  both back. The actions of the retry loop have effects of their own, which stay: they are
  functions of a state that is kept whether they throw or not. Thrown values are instances of
  \<open>Error\<close>; the back-off sleeps and the stack trace are left out.
\<close>

section \<open>IdempotentConsumer\<close>

datatype InboxStatus = InboxProcessing | InboxCompleted

type_synonym inbox = "(string \<times> string, InboxStatus) jsmap"

datatype ConsumerStatus = Processed | DuplicateSkipped

type_synonym ('d, 'db) side_effect = "'d domainEvent \<Rightarrow> 'db \<Rightarrow> 'db outcome"

definition processTransactional ::
    "string \<Rightarrow> ('d, 'db) side_effect \<Rightarrow> 'd domainEvent \<Rightarrow> inbox \<times> 'db \<Rightarrow> ConsumerStatus result \<times> inbox \<times> 'db" where
  "processTransactional consumerName sideEffect ev s =
     (case s of (inb, db) \<Rightarrow>
        let key = (evt_eventId ev, consumerName) in
        if map_of inb key = Some InboxCompleted then (Inr DuplicateSkipped, inb, db)
        else
          let inb1 = (if map_of inb key = None then AList.update key InboxProcessing inb else inb) in
          (case sideEffect ev db of
             (Some err, _) \<Rightarrow> (Inl err, inb, db)
           | (None, db') \<Rightarrow> (Inr Processed, AList.update key InboxCompleted inb1, db')))"

definition isProcessed :: "string \<Rightarrow> string \<Rightarrow> inbox \<Rightarrow> bool" where
  "isProcessed consumerName eventId inb \<longleftrightarrow> map_of inb (eventId, consumerName) = Some InboxCompleted"

definition clear_inbox :: "string \<Rightarrow> inbox \<Rightarrow> inbox" where
  "clear_inbox consumerName inb = filter (\<lambda>e. snd (fst e) \<noteq> consumerName) inb"

section \<open>Classification of errors\<close>

definition isTransientError :: "js_error \<Rightarrow> bool" where
  "isTransientError err =
     (case err of
        TransientError _ \<Rightarrow> True
      | _ \<Rightarrow>
          let msg = toLowerCase (message err) in
          str_includes msg ''deadlock'' \<or> str_includes msg ''connection reset'' \<or> str_includes msg ''timeout'' \<or>
          str_includes msg ''econnrefused'' \<or> str_includes msg ''rate limit'' \<or> str_includes msg ''503'' \<or>
          str_includes msg ''429'')"

fun is_poison :: "js_error \<Rightarrow> bool" where
  "is_poison (PermanentPoisonError _) = True"
| "is_poison _ = False"

section \<open>DeadLetterQueueRepository\<close>

datatype DeadLetterStatus = Dead | Replayed | Discarded

record 'd deadLetterRecord =
  dl_id :: string
  dl_eventId :: string
  dl_consumerName :: string
  dl_payload :: "'d domainEvent"
  dl_errorMessage :: string
  dl_attempts :: nat
  dl_failedAt :: date
  dl_replayedAt :: "date option"
  dl_status :: DeadLetterStatus

type_synonym 'd dlq = "'d deadLetterRecord list"

definition moveToDeadLetter ::
    "string \<Rightarrow> date \<Rightarrow> 'd domainEvent \<Rightarrow> string \<Rightarrow> js_error \<Rightarrow> nat \<Rightarrow> 'd dlq \<Rightarrow> string \<times> 'd dlq" where
  "moveToDeadLetter uuid now ev consumerName err attempts q =
     (uuid, q @ [\<lparr>dl_id = uuid, dl_eventId = evt_eventId ev, dl_consumerName = consumerName, dl_payload = ev,
        dl_errorMessage = message err, dl_attempts = attempts, dl_failedAt = now, dl_replayedAt = None,
        dl_status = Dead\<rparr>])"

definition fetchById :: "string \<Rightarrow> 'd dlq \<Rightarrow> 'd deadLetterRecord option" where
  "fetchById i q = find (\<lambda>r. dl_id r = i) q"

text \<open>Newest first; letters of one instant in reverse table order.\<close>

definition listDeadLetters :: "string option \<Rightarrow> 'd dlq \<Rightarrow> 'd deadLetterRecord list" where
  "listDeadLetters consumerName q =
     rev (sort_key dl_failedAt
       (filter (\<lambda>r. dl_status r = Dead \<and> (\<not> truthy consumerName \<or> consumerName = Some (dl_consumerName r))) q))"

definition markReplayed :: "date \<Rightarrow> string \<Rightarrow> 'd dlq \<Rightarrow> 'd dlq" where
  "markReplayed now i q =
     map (\<lambda>r. if dl_id r = i then r\<lparr>dl_status := Replayed, dl_replayedAt := Some now\<rparr> else r) q"

definition markDiscarded :: "string \<Rightarrow> 'd dlq \<Rightarrow> 'd dlq" where
  "markDiscarded i q = map (\<lambda>r. if dl_id r = i then r\<lparr>dl_status := Discarded\<rparr> else r) q"

definition clear_dlq :: "'d dlq \<Rightarrow> 'd dlq" where
  "clear_dlq q = []"

section \<open>ResilientMessageConsumer\<close>

record retryConfig =
  rc_maxAttempts :: nat
  rc_baseBackoffMs :: int

datatype consume_status = ConsumeSuccess | DlqDiverted string

type_synonym ('d, 's) consumer_action = "'d domainEvent \<Rightarrow> 's \<Rightarrow> 's outcome"

text \<open>\<open>attempt\<close> counts the calls made; the state and the queue are passed through. The
  identifier and the time are those of the one dead letter a call may write.\<close>

function consume_from ::
    "nat \<Rightarrow> string \<Rightarrow> string \<Rightarrow> date \<Rightarrow> ('d, 's) consumer_action \<Rightarrow> 'd domainEvent \<Rightarrow> nat \<Rightarrow> 's \<Rightarrow> 'd dlq \<Rightarrow>
     (consume_status \<times> nat) \<times> 's \<times> 'd dlq" where
  "consume_from maxAttempts consumerName uuid now action ev attempt s q =
     (if attempt < maxAttempts then
        (case action ev s of
           (None, s') \<Rightarrow> ((ConsumeSuccess, attempt + 1), s', q)
         | (Some err, s') \<Rightarrow>
             if is_poison err then
               (case moveToDeadLetter uuid now ev consumerName err (attempt + 1) q of
                  (i, q') \<Rightarrow> ((DlqDiverted i, attempt + 1), s', q'))
             else if isTransientError err \<and> attempt + 1 < maxAttempts then
               consume_from maxAttempts consumerName uuid now action ev (attempt + 1) s' q
             else
               (case moveToDeadLetter uuid now ev consumerName err (attempt + 1) q of
                  (i, q') \<Rightarrow> ((DlqDiverted i, attempt + 1), s', q')))
      else
        (case moveToDeadLetter uuid now ev consumerName (Error ''Max retry attempts exhausted'') attempt q of
           (i, q') \<Rightarrow> ((DlqDiverted i, attempt), s, q')))"
  by pat_completeness auto
termination
  by (relation "measure (\<lambda>(maxAttempts, _, _, _, _, _, attempt, _, _). maxAttempts - attempt)") auto

declare consume_from.simps [simp del]

definition consume ::
    "retryConfig \<Rightarrow> string \<Rightarrow> string \<Rightarrow> date \<Rightarrow> ('d, 's) consumer_action \<Rightarrow> 'd domainEvent \<Rightarrow> 's \<Rightarrow> 'd dlq \<Rightarrow>
     (consume_status \<times> nat) \<times> 's \<times> 'd dlq" where
  "consume cfg consumerName uuid now action ev s q =
     consume_from (rc_maxAttempts cfg) consumerName uuid now action ev 0 s q"

definition replay ::
    "date \<Rightarrow> string \<Rightarrow> ('d, 's) consumer_action \<Rightarrow> 's \<Rightarrow> 'd dlq \<Rightarrow> (bool \<times> string option) result \<times> 's \<times> 'd dlq" where
  "replay now deadLetterId action s q =
     (case fetchById deadLetterId q of
        None \<Rightarrow> (Inl (Error (''Dead letter record not found: '' @ deadLetterId)), s, q)
      | Some r \<Rightarrow>
          (case action (dl_payload r) s of
             (None, s') \<Rightarrow> (Inr (True, None), s', markReplayed now deadLetterId q)
           | (Some err, s') \<Rightarrow> (Inr (False, Some (message err)), s', q)))"

section \<open>Effectively-once processing\<close>

text \<open>The deliveries of a run, in order, with what each returned, and the tables at the end.\<close>

fun deliveries ::
    "string \<Rightarrow> ('d, 'db) side_effect \<Rightarrow> 'd domainEvent list \<Rightarrow> inbox \<times> 'db \<Rightarrow>
     ('d domainEvent \<times> ConsumerStatus result) list \<times> inbox \<times> 'db" where
  "deliveries c eff [] s = ([], s)"
| "deliveries c eff (ev # evs) s =
     (case processTransactional c eff ev s of (res, s1) \<Rightarrow>
        (case deliveries c eff evs s1 of (ress, s2) \<Rightarrow> ((ev, res) # ress, s2)))"

definition processed_events :: "('d domainEvent \<times> ConsumerStatus result) list \<Rightarrow> 'd domainEvent list" where
  "processed_events ress = map fst (filter (\<lambda>x. snd x = Inr Processed) ress)"

text \<open>The specification: each of these events applied once, none failing.\<close>

inductive applied :: "('d, 'db) side_effect \<Rightarrow> 'd domainEvent list \<Rightarrow> 'db \<Rightarrow> 'db \<Rightarrow> bool" for eff where
  applied_none: "applied eff [] db db"
| applied_one: "eff ev db = (None, db1) \<Longrightarrow> applied eff evs db1 db2 \<Longrightarrow> applied eff (ev # evs) db db2"

lemma process_cases:
  obtains (skipped) "processTransactional c eff ev (inb, db) = (Inr DuplicateSkipped, inb, db)"
      "isProcessed c (evt_eventId ev) inb"
  | (failed) err db' where "processTransactional c eff ev (inb, db) = (Inl err, inb, db)"
      "eff ev db = (Some err, db')" "\<not> isProcessed c (evt_eventId ev) inb"
  | (processed) db' inb' where "processTransactional c eff ev (inb, db) = (Inr Processed, inb', db')"
      "eff ev db = (None, db')" "\<not> isProcessed c (evt_eventId ev) inb"
      "\<And>i. isProcessed c i inb' \<longleftrightarrow> i = evt_eventId ev \<or> isProcessed c i inb"
proof (cases "isProcessed c (evt_eventId ev) inb")
  case True
  then show thesis by (intro skipped) (simp_all add: processTransactional_def isProcessed_def)
next
  case False
  obtain e db' where eff: "eff ev db = (e, db')" by fastforce
  show thesis
  proof (cases e)
    case None
    with False eff show thesis
      by (intro processed [where db' = db']) (auto simp: processTransactional_def isProcessed_def Let_def split: if_splits)
  next
    case (Some err)
    with False eff show thesis
      by (intro failed) (auto simp: processTransactional_def isProcessed_def Let_def)
  qed
qed

lemma deliveries_applied:
  assumes "deliveries c eff evs (inb, db) = (ress, inb', db')"
  shows "applied eff (processed_events ress) db db' \<and> distinct (map evt_eventId (processed_events ress)) \<and>
    (\<forall>i. isProcessed c i inb' \<longleftrightarrow> isProcessed c i inb \<or> i \<in> evt_eventId ` set (processed_events ress)) \<and>
    (\<forall>ev \<in> set (processed_events ress). \<not> isProcessed c (evt_eventId ev) inb)"
  using assms
proof (induction evs arbitrary: inb db ress)
  case Nil
  then show ?case by (auto simp: processed_events_def intro: applied.intros)
next
  case (Cons ev evs)
  obtain res inb1 db1 where p: "processTransactional c eff ev (inb, db) = (res, inb1, db1)" by (rule prod_cases3)
  obtain ress1 where d: "deliveries c eff evs (inb1, db1) = (ress1, inb', db')" "ress = (ev, res) # ress1"
    using Cons.prems p by (auto split: prod.splits)
  note IH = Cons.IH [OF d(1)]
  show ?case
  proof (cases rule: process_cases [of c eff ev inb db])
    case skipped
    with p d IH show ?thesis by (auto simp: processed_events_def)
  next
    case (failed err db')
    with p d IH show ?thesis by (auto simp: processed_events_def)
  next
    case (processed db2 inb2)
    then have "processed_events ress = ev # processed_events ress1" "db2 = db1" "inb2 = inb1"
      using p d by (auto simp: processed_events_def)
    with processed IH show ?thesis by (auto intro: applied.intros)
  qed
qed

lemma deliveries_all:
  assumes "deliveries c eff evs s = (ress, s')"
  shows "map fst ress = evs"
proof -
  have "map fst (fst (deliveries c eff evs s)) = evs" for s
  proof (induction evs arbitrary: s)
    case (Cons ev evs)
    show ?case using Cons.IH [of "snd (processTransactional c eff ev s)"] by (simp add: case_prod_beta)
  qed simp
  from this [of s] assms show ?thesis by simp
qed

text \<open>A delivery that does not throw leaves its event processed.\<close>

lemma delivered_processed:
  assumes "deliveries c eff evs (inb, db) = (ress, inb', db')" "(ev, res) \<in> set ress"
  shows "(\<exists>err. res = Inl err) \<or> isProcessed c (evt_eventId ev) inb'"
  using assms
proof (induction evs arbitrary: inb db ress)
  case (Cons e evs)
  obtain res1 inb1 db1 where p: "processTransactional c eff e (inb, db) = (res1, inb1, db1)" by (rule prod_cases3)
  obtain ress1 where d: "deliveries c eff evs (inb1, db1) = (ress1, inb', db')" "ress = (e, res1) # ress1"
    using Cons.prems(1) p by (auto split: prod.splits)
  show ?case
  proof (cases "(ev, res) \<in> set ress1")
    case True
    then show ?thesis using Cons.IH [OF d(1)] by blast
  next
    case False
    then have ev: "ev = e" "res = res1" using Cons.prems(2) d(2) by auto
    have "(\<exists>err. res1 = Inl err) \<or> isProcessed c (evt_eventId e) inb1"
      by (cases rule: process_cases [of c eff e inb db]) (use p in auto)
    then show ?thesis using deliveries_applied [OF d(1)] ev by blast
  qed
qed simp

section \<open>The retry loop\<close>

text \<open>The state after \<open>n\<close> calls of the action, and what the call after that throws.\<close>

fun after_calls :: "('d, 's) consumer_action \<Rightarrow> 'd domainEvent \<Rightarrow> nat \<Rightarrow> 's \<Rightarrow> 's" where
  "after_calls action ev 0 s = s"
| "after_calls action ev (Suc n) s = after_calls action ev n (snd (action ev s))"

definition thrown :: "('d, 's) consumer_action \<Rightarrow> 'd domainEvent \<Rightarrow> nat \<Rightarrow> 's \<Rightarrow> js_error option" where
  "thrown action ev n s = fst (action ev (after_calls action ev n s))"

lemma thrown_simps [simp]:
  "thrown action ev 0 s = fst (action ev s)"
  "thrown action ev (Suc n) s = thrown action ev n (snd (action ev s))"
  by (simp_all add: thrown_def)

text \<open>How a call that started with \<open>k\<close> attempts made ends with \<open>n\<close>.\<close>

definition consume_ends ::
    "nat \<Rightarrow> string \<Rightarrow> string \<Rightarrow> date \<Rightarrow> ('d, 's) consumer_action \<Rightarrow> 'd domainEvent \<Rightarrow> nat \<Rightarrow> 's \<Rightarrow> 'd dlq \<Rightarrow>
     consume_status \<Rightarrow> nat \<Rightarrow> 's \<Rightarrow> 'd dlq \<Rightarrow> bool" where
  "consume_ends maxAttempts c uuid now action ev k s q st n s' q' \<longleftrightarrow>
     s' = after_calls action ev (n - k) s \<and>
     (\<forall>j. Suc j < n - k \<longrightarrow> (\<exists>err. thrown action ev j s = Some err \<and> isTransientError err \<and> \<not> is_poison err)) \<and>
     (case st of
        ConsumeSuccess \<Rightarrow> thrown action ev (n - k - 1) s = None \<and> q' = q
      | DlqDiverted i \<Rightarrow> i = uuid \<and>
          (\<exists>err. thrown action ev (n - k - 1) s = Some err \<and> q' = snd (moveToDeadLetter uuid now ev c err n q) \<and>
             (n < maxAttempts \<longrightarrow> is_poison err \<or> \<not> isTransientError err)))"

lemma consume_from_ends:
  assumes "k < maxAttempts"
    and "consume_from maxAttempts c uuid now action ev k s q = ((st, n), s', q')"
  shows "k < n \<and> n \<le> maxAttempts \<and> consume_ends maxAttempts c uuid now action ev k s q st n s' q'"
  using assms
proof (induction "maxAttempts - k" arbitrary: k s)
  case 0
  then show ?case by simp
next
  case (Suc m)
  obtain e s1 where act: "action ev s = (e, s1)" by fastforce
  show ?case
  proof (cases "\<exists>err. e = Some err \<and> isTransientError err \<and> \<not> is_poison err \<and> Suc k < maxAttempts")
    case True
    then obtain err where err: "e = Some err" "isTransientError err" "\<not> is_poison err" "Suc k < maxAttempts" by blast
    have "consume_from maxAttempts c uuid now action ev (Suc k) s1 q = ((st, n), s', q')"
      using Suc.prems act err by (subst (asm) consume_from.simps) simp
    with Suc.hyps(2) err(4) have IH: "Suc k < n" "n \<le> maxAttempts"
      "consume_ends maxAttempts c uuid now action ev (Suc k) s1 q st n s' q'"
      using Suc.hyps(1) [of "Suc k" s1] by auto
    obtain d where d: "n - k = Suc (Suc d)" "n - Suc k = Suc d" using IH(1) by (metis Suc_diff_Suc Suc_lessD)
    have "\<exists>err. thrown action ev j s = Some err \<and> isTransientError err \<and> \<not> is_poison err" if "Suc j < n - k" for j
      using that IH(3) act err d by (cases j) (auto simp: consume_ends_def)
    with IH d act show ?thesis by (auto simp: consume_ends_def split: consume_status.splits)
  next
    case False
    have "n = Suc k \<and> consume_ends maxAttempts c uuid now action ev k s q st n s' q'"
      using Suc.prems act False
      by (subst (asm) consume_from.simps) (auto simp: consume_ends_def moveToDeadLetter_def split: option.splits if_splits)
    then show ?thesis using Suc.prems(1) by auto
  qed
qed

section \<open>Properties\<close>

text \<open>
  C10: at-least-once delivery has its effect once. For every sequence of deliveries to a
  consumer, repeated and failing ones included, starting with an empty inbox: the business
  tables at the end are those of applying the effect once to each event that was processed, in
  the order of processing; no two of these events share an identifier; and the inbox says that
  an event is processed exactly when it is one of them. A delivery whose effect throws leaves
  no trace, so it can be delivered again.
\<close>

theorem consumer_effectively_once:
  "case deliveries c eff evs ([], db) of
     (ress, inb, db') \<Rightarrow>
       map fst ress = evs \<and> applied eff (processed_events ress) db db' \<and>
       distinct (map evt_eventId (processed_events ress)) \<and>
       (\<forall>i. isProcessed c i inb \<longleftrightarrow> i \<in> set (map evt_eventId (processed_events ress)))"
proof -
  obtain ress inb db' where d: "deliveries c eff evs ([], db) = (ress, inb, db')" by (rule prod_cases3)
  from deliveries_all [OF d] deliveries_applied [OF d] d show ?thesis
    by (simp add: isProcessed_def)
qed

text \<open>
  C33: the retry loop always ends, and no event is dropped. A call makes at least one and at
  most the configured number of attempts; every attempt before the last threw a transient
  error that was not poison; it reports success exactly when the last attempt did not throw,
  and then writes no dead letter; otherwise it writes exactly one, with the event, the last
  error's message and the number of attempts, and it stops early only for an error that is
  poison or not transient.
\<close>

theorem consume_ends_in_success_or_dlq:
  assumes "0 < rc_maxAttempts cfg"
  shows "\<exists>st n s' q'. consume cfg c uuid now action ev s q = ((st, n), s', q') \<and> 0 < n \<and> n \<le> rc_maxAttempts cfg \<and>
    s' = after_calls action ev n s \<and>
    (\<forall>j. Suc j < n \<longrightarrow> (\<exists>err. thrown action ev j s = Some err \<and> isTransientError err \<and> \<not> is_poison err)) \<and>
    (case thrown action ev (n - 1) s of
       None \<Rightarrow> st = ConsumeSuccess \<and> q' = q
     | Some err \<Rightarrow> st = DlqDiverted uuid \<and> (n < rc_maxAttempts cfg \<longrightarrow> is_poison err \<or> \<not> isTransientError err) \<and>
         q' = q @ [\<lparr>dl_id = uuid, dl_eventId = evt_eventId ev, dl_consumerName = c, dl_payload = ev,
           dl_errorMessage = message err, dl_attempts = n, dl_failedAt = now, dl_replayedAt = None, dl_status = Dead\<rparr>])"
proof -
  obtain st n s' q' where run: "consume cfg c uuid now action ev s q = ((st, n), s', q')" by (metis prod.collapse)
  from consume_from_ends [OF assms run [unfolded consume_def]] run show ?thesis
    by (auto simp: consume_ends_def moveToDeadLetter_def split: consume_status.splits option.splits)
qed

theorem consume_ends_in_success_or_dlq_witness:
  "\<exists>n s' q'. consume \<lparr>rc_maxAttempts = 3, rc_baseBackoffMs = 20\<rparr> ''c'' ''u'' 7
      (\<lambda>ev k. if k < (1::nat) then (Some (Error ''Connection reset''), k + 1) else (None, k + 1))
      \<lparr>evt_eventId = ''e'', evt_eventType = ''t'', evt_aggregateId = ''a'', evt_version = 1, evt_occurredAt = ''o'',
       evt_producer = ''p'', evt_data = (), evt_metadata = None\<rparr> 0 [] = ((ConsumeSuccess, n), s', q') \<and> 0 < n \<and> n \<le> 3"
proof -
  let ?act = "\<lambda>ev k. if k < (1::nat) then (Some (Error ''Connection reset''), k + 1) else (None, k + 1)"
  let ?ev = "\<lparr>evt_eventId = ''e'', evt_eventType = ''t'', evt_aggregateId = ''a'', evt_version = 1, evt_occurredAt = ''o'',
       evt_producer = ''p'', evt_data = (), evt_metadata = None\<rparr>"
  have "fst (fst (consume \<lparr>rc_maxAttempts = 3, rc_baseBackoffMs = 20\<rparr> ''c'' ''u'' 7 ?act ?ev 0 [])) = ConsumeSuccess"
    by code_simp
  then show ?thesis
    using consume_ends_in_success_or_dlq [of "\<lparr>rc_maxAttempts = 3, rc_baseBackoffMs = 20\<rparr>" "''c''" "''u''" 7 ?act ?ev 0 "[]"]
    by auto
qed

end
