(* ===== verification/LP_Json.thy ===== *)
theory LP_Json
  imports LP_Prelude
begin

text \<open>
  JSON text: \<open>JSON.stringify\<close> and \<open>JSON.parse\<close> as far as the sources use them (event
  payloads, cached responses, request bodies), and the proof that the second reads back what
  the first prints. Values are what a JSON text can denote; numbers are whole numbers, and a
  literal with a fraction or an exponent is not accepted. Strings are 8-bit, so \<open>\\uXXXX\<close>
  above \<open>00FF\<close> is not accepted either. The members of an object are in insertion order;
  of two members with one name the parser keeps the last value at the first position.
\<close>

section \<open>Values and printing\<close>

datatype json =
    JNull
  | JBool bool
  | JNum int
  | JStr string
  | JArr "json list"
  | JObj "(string \<times> json) list"

definition hex_digit :: "nat \<Rightarrow> char" where
  "hex_digit n = char_of (if n < 10 then 48 + n else 87 + n)"

text \<open>The short escapes, by the character they stand for.\<close>

definition short_escapes :: "(char \<times> char) list" where
  "short_escapes = [(CHR 0x22, CHR 0x22), (CHR 0x5C, CHR 0x5C), (CHR 0x08, CHR ''b''), (CHR 0x0C, CHR ''f''),
     (CHR 0x0A, CHR ''n''), (CHR 0x0D, CHR ''r''), (CHR 0x09, CHR ''t'')]"

definition escape_char :: "char \<Rightarrow> string" where
  "escape_char c =
     (case map_of short_escapes c of
        Some e \<Rightarrow> [CHR 0x5C, e]
      | None \<Rightarrow>
          if (of_char c :: nat) < 32
          then [CHR 0x5C, CHR ''u'', CHR ''0'', CHR ''0'', hex_digit (of_char c div 16), hex_digit (of_char c mod 16)]
          else [c])"

definition quote :: "string \<Rightarrow> string" where
  "quote s = CHR 0x22 # concat (map escape_char s) @ [CHR 0x22]"

fun stringify :: "json \<Rightarrow> string"
  and stringify_items :: "json list \<Rightarrow> string"
  and stringify_members :: "(string \<times> json) list \<Rightarrow> string" where
  "stringify JNull = ''null''"
| "stringify (JBool b) = (if b then ''true'' else ''false'')"
| "stringify (JNum n) = show_int n"
| "stringify (JStr s) = quote s"
| "stringify (JArr vs) = CHR ''['' # (if vs = [] then '']'' else stringify_items vs)"
| "stringify (JObj ms) = CHR ''{'' # (if ms = [] then ''}'' else stringify_members ms)"
| "stringify_items [] = []"
| "stringify_items (v # vs) = stringify v @ (if vs = [] then '']'' else CHR '','' # stringify_items vs)"
| "stringify_members [] = []"
| "stringify_members ((k, v) # ms) =
     quote k @ CHR '':'' # stringify v @ (if ms = [] then ''}'' else CHR '','' # stringify_members ms)"

section \<open>Parsing\<close>

definition json_ws :: "char \<Rightarrow> bool" where
  "json_ws c \<longleftrightarrow> c \<in> {CHR '' '', CHR 0x09, CHR 0x0A, CHR 0x0D}"

abbreviation skip_ws :: "string \<Rightarrow> string" where
  "skip_ws \<equiv> dropWhile json_ws"

definition is_digit :: "char \<Rightarrow> bool" where
  "is_digit c \<longleftrightarrow> 48 \<le> (of_char c :: nat) \<and> (of_char c :: nat) \<le> 57"

definition hex_val :: "char \<Rightarrow> nat option" where
  "hex_val c = (let n = of_char c :: nat in
     if 48 \<le> n \<and> n \<le> 57 then Some (n - 48)
     else if 97 \<le> n \<and> n \<le> 102 then Some (n - 87)
     else if 65 \<le> n \<and> n \<le> 70 then Some (n - 55)
     else None)"

text \<open>The short escapes the parser reads: those above and \<open>\\/\<close>.\<close>

definition unescape :: "char \<Rightarrow> char option" where
  "unescape e = map_of ((CHR ''/'', CHR ''/'') # map prod.swap short_escapes) e"

definition unescape_u :: "char \<Rightarrow> char \<Rightarrow> char \<Rightarrow> char \<Rightarrow> char option" where
  "unescape_u a b c d =
     (case (hex_val a, hex_val b, hex_val c, hex_val d) of
        (Some h1, Some h2, Some h3, Some h4) \<Rightarrow>
          if h1 = 0 \<and> h2 = 0 then Some (char_of (16 * h3 + h4)) else None
      | _ \<Rightarrow> None)"

text \<open>The rest of a string literal after its opening quote: the string, and the text behind
  the closing quote.\<close>

fun parse_string :: "string \<Rightarrow> (string \<times> string) option" where
  "parse_string [] = None"
| "parse_string (c # r) =
     (if c = CHR 0x22 then Some ([], r)
      else if c = CHR 0x5C then
        (case r of
           [] \<Rightarrow> None
         | e # r1 \<Rightarrow>
             if e = CHR ''u'' then
               (case r1 of
                  x1 # x2 # x3 # x4 # r2 \<Rightarrow>
                    (case unescape_u x1 x2 x3 x4 of
                       None \<Rightarrow> None
                     | Some d \<Rightarrow> map_option (\<lambda>(s, r'). (d # s, r')) (parse_string r2))
                | _ \<Rightarrow> None)
             else
               (case unescape e of
                  None \<Rightarrow> None
                | Some d \<Rightarrow> map_option (\<lambda>(s, r'). (d # s, r')) (parse_string r1)))
      else if (of_char c :: nat) < 32 then None
      else map_option (\<lambda>(s, r'). (c # s, r')) (parse_string r))"

definition parse_number :: "string \<Rightarrow> (json \<times> string) option" where
  "parse_number s =
     (let neg = (s \<noteq> [] \<and> hd s = CHR ''-'');
          r = (if neg then tl s else s);
          ds = takeWhile is_digit r;
          rest = dropWhile is_digit r
      in if ds = [] \<or> hd ds = CHR ''0'' \<and> tl ds \<noteq> [] then None
         else if rest \<noteq> [] \<and> hd rest \<in> {CHR ''.'', CHR ''e'', CHR ''E''} then None
         else Some (JNum (if neg then - int (read_nat ds) else int (read_nat ds)), rest))"

definition parse_word :: "string \<Rightarrow> (json \<times> string) option" where
  "parse_word s =
     (if prefix ''null'' s then Some (JNull, drop 4 s)
      else if prefix ''true'' s then Some (JBool True, drop 4 s)
      else if prefix ''false'' s then Some (JBool False, drop 5 s)
      else parse_number s)"

definition js_object :: "(string \<times> json) list \<Rightarrow> json" where
  "js_object ms = JObj (fold (\<lambda>(k, v). AList.update k v) ms [])"

text \<open>The descent. The comparisons of lengths always hold where they stand; they make the
  recursion well-founded by themselves.\<close>

lemma skip_ws_Cons: "skip_ws s = c # r \<Longrightarrow> length r < length s"
  using length_dropWhile_le [of json_ws s] by simp

function parse_value :: "string \<Rightarrow> (json \<times> string) option"
  and parse_items :: "string \<Rightarrow> (json list \<times> string) option"
  and parse_members :: "string \<Rightarrow> ((string \<times> json) list \<times> string) option" where
  "parse_value s =
     (case skip_ws s of
        [] \<Rightarrow> None
      | c # r \<Rightarrow>
          if c = CHR 0x22 then map_option (\<lambda>(t, r'). (JStr t, r')) (parse_string r)
          else if c = CHR ''['' then
            (case skip_ws r of
               [] \<Rightarrow> None
             | d # r1 \<Rightarrow>
                 if d = CHR '']'' then Some (JArr [], r1)
                 else map_option (\<lambda>(vs, r'). (JArr vs, r')) (parse_items r))
          else if c = CHR ''{'' then
            (case skip_ws r of
               [] \<Rightarrow> None
             | d # r1 \<Rightarrow>
                 if d = CHR ''}'' then Some (JObj [], r1)
                 else map_option (\<lambda>(ms, r'). (js_object ms, r')) (parse_members r))
          else parse_word (c # r))"
| "parse_items s =
     (case parse_value s of
        None \<Rightarrow> None
      | Some (v, r) \<Rightarrow>
          (case skip_ws r of
             [] \<Rightarrow> None
           | c # r1 \<Rightarrow>
               if c = CHR '']'' then Some ([v], r1)
               else if c = CHR '','' \<and> length r1 < length s
               then map_option (\<lambda>(vs, r'). (v # vs, r')) (parse_items r1)
               else None))"
| "parse_members s =
     (case skip_ws s of
        [] \<Rightarrow> None
      | c # r \<Rightarrow>
          if c \<noteq> CHR 0x22 then None
          else (case parse_string r of
            None \<Rightarrow> None
          | Some (k, r1) \<Rightarrow>
              (case skip_ws r1 of
                 [] \<Rightarrow> None
               | c2 # r2 \<Rightarrow>
                   if c2 \<noteq> CHR '':'' \<or> length s \<le> length r2 then None
                   else (case parse_value r2 of
                     None \<Rightarrow> None
                   | Some (v, r3) \<Rightarrow>
                       (case skip_ws r3 of
                          [] \<Rightarrow> None
                        | c4 # r4 \<Rightarrow>
                            if c4 = CHR ''}'' then Some ([(k, v)], r4)
                            else if c4 = CHR '','' \<and> length r4 < length s
                            then map_option (\<lambda>(ms, r'). ((k, v) # ms, r')) (parse_members r4)
                            else None)))))"
  by pat_completeness auto
termination
  by (relation "measure (\<lambda>x. case x of Inl s \<Rightarrow> 2 * length s
    | Inr (Inl s) \<Rightarrow> 2 * length s + 1 | Inr (Inr s) \<Rightarrow> 2 * length s)") (auto dest: skip_ws_Cons)

declare parse_value.simps [simp del] parse_items.simps [simp del] parse_members.simps [simp del]

text \<open>\<open>JSON.parse\<close>; \<^term>\<open>None\<close> is a \<open>SyntaxError\<close>.\<close>

definition json_parse :: "string \<Rightarrow> json option" where
  "json_parse s =
     (case parse_value s of
        None \<Rightarrow> None
      | Some (v, r) \<Rightarrow> if skip_ws r = [] then Some v else None)"

section \<open>Reading back what was printed\<close>

text \<open>The values of which no object has two members of one name: the only ones there are.\<close>

fun wf_json :: "json \<Rightarrow> bool" where
  "wf_json (JArr vs) = (\<forall>v \<in> set vs. wf_json v)"
| "wf_json (JObj ms) = (distinct (map fst ms) \<and> (\<forall>m \<in> set ms. wf_json (snd m)))"
| "wf_json _ = True"

subsection \<open>Strings\<close>

lemma unescape_short: "map_of short_escapes c = Some e \<Longrightarrow> unescape e = Some c \<and> e \<noteq> CHR ''u''"
  by (auto simp: short_escapes_def unescape_def split: if_splits)

lemma hex_val_digit: "n < 16 \<Longrightarrow> hex_val (hex_digit n) = Some n"
  by (simp add: hex_val_def hex_digit_def Let_def)

lemma parse_escaped:
  "parse_string (escape_char c @ r) = map_option (\<lambda>(s, r'). (c # s, r')) (parse_string r)"
proof (cases "map_of short_escapes c")
  case (Some e)
  then show ?thesis using unescape_short [OF Some] by (simp add: escape_char_def)
next
  case None
  have u: "unescape_u (CHR ''0'') (CHR ''0'') (hex_digit (of_char c div 16)) (hex_digit (of_char c mod 16)) = Some c"
    if "(of_char c :: nat) < 32"
    using that hex_val_digit [of "of_char c div 16"] hex_val_digit [of "of_char c mod 16"]
    by (simp add: unescape_u_def hex_val_def [of "CHR ''0''"])
  have "c \<noteq> CHR 0x22" "c \<noteq> CHR 0x5C" using None by (auto simp: short_escapes_def split: if_splits)
  with None u show ?thesis by (simp add: escape_char_def)
qed

lemma parse_string_quoted: "parse_string (concat (map escape_char s) @ CHR 0x22 # r) = Some (s, r)"
  by (induction s) (simp_all add: parse_escaped)

lemma quote_parse: "quote s @ r = CHR 0x22 # concat (map escape_char s) @ CHR 0x22 # r"
  by (simp add: quote_def)

subsection \<open>Numbers\<close>

lemma is_digit_digit [simp]: "n < 10 \<Longrightarrow> is_digit (digit n)"
  by (simp add: is_digit_def digit_def)

lemma show_nat_digits: "\<forall>c \<in> set (show_nat n). is_digit c"
proof (induction n rule: show_nat.induct)
  case (1 n)
  then show ?case by (cases "n < 10") (simp_all add: show_nat.simps [of n])
qed

lemma show_nat_nonempty [simp]: "show_nat n \<noteq> []"
  by (simp add: show_nat.simps [of n])

lemma show_nat_hd: "0 < n \<Longrightarrow> hd (show_nat n) \<noteq> CHR ''0''"
proof (induction n rule: show_nat.induct)
  case (1 n)
  show ?case
  proof (cases "n < 10")
    case True
    have "digit n \<noteq> CHR ''0''"
    proof
      assume "digit n = CHR ''0''"
      then have "digit_val (digit n) = digit_val (CHR ''0'')" by simp
      with True 1 show False by (simp add: digit_val_def [of "CHR ''0''"])
    qed
    with True show ?thesis by (simp add: show_nat.simps [of n])
  next
    case False
    with 1 have "hd (show_nat (n div 10)) \<noteq> CHR ''0''" by simp
    with False show ?thesis by (simp add: show_nat.simps [of n])
  qed
qed

lemma show_nat_zero: "show_nat 0 = ''0''"
  by code_simp

text \<open>What may stand behind a value: nothing, or a separator.\<close>

definition value_end :: "string \<Rightarrow> bool" where
  "value_end r \<longleftrightarrow> r = [] \<or> hd r \<in> {CHR '','', CHR '']'', CHR ''}''}"

lemma value_endD:
  assumes "value_end r"
  shows "takeWhile is_digit r = []" "dropWhile is_digit r = r"
    "r \<noteq> [] \<longrightarrow> hd r \<notin> {CHR ''.'', CHR ''e'', CHR ''E''}"
  using assms by (cases r; auto simp: value_end_def is_digit_def)+

lemma not_digit_minus: "\<not> is_digit (CHR ''-'')"
  by (simp add: is_digit_def)

lemma parse_show_int:
  assumes "value_end r"
  shows "parse_number (show_int n @ r) = Some (JNum n, r)"
proof -
  have tw: "takeWhile is_digit (show_nat k @ r) = show_nat k" "dropWhile is_digit (show_nat k @ r) = r" for k
    using value_endD(1,2) [OF assms] show_nat_digits [of k] by (simp_all add: takeWhile_append2 dropWhile_append2)
  have lead: "hd (show_nat k) \<noteq> CHR ''0'' \<or> tl (show_nat k) = []" for k
    using show_nat_hd [of k] show_nat_zero by (cases "k = 0") auto
  have nd: "hd (show_nat k @ r) \<noteq> CHR ''-''" for k
    using show_nat_digits [of k] not_digit_minus by (cases "show_nat k") auto
  show ?thesis
  proof (cases "n < 0")
    case True
    then show ?thesis
      using tw [of "nat (- n)"] lead [of "nat (- n)"] value_endD(3) [OF assms]
      by (auto simp: parse_number_def show_int_def Let_def)
  next
    case False
    then show ?thesis
      using tw [of "nat n"] lead [of "nat n"] nd [of "nat n"] value_endD(3) [OF assms]
      by (auto simp: parse_number_def show_int_def Let_def)
  qed
qed

text \<open>A printed number starts with a digit or a minus sign.\<close>

lemma show_int_hd: "\<exists>c cs. show_int n = c # cs \<and> (is_digit c \<or> c = CHR ''-'')"
proof (cases "n < 0")
  case True
  then show ?thesis by (simp add: show_int_def)
next
  case False
  then show ?thesis using show_nat_digits [of "nat n"] by (cases "show_nat (nat n)") (auto simp: show_int_def)
qed

lemma parse_word_int:
  assumes "value_end r"
  shows "parse_word (show_int n @ r) = Some (JNum n, r)"
proof -
  obtain c cs where c: "show_int n = c # cs" "is_digit c \<or> c = CHR ''-''" using show_int_hd by blast
  then have "c \<notin> {CHR ''n'', CHR ''t'', CHR ''f''}" by (auto simp: is_digit_def)
  then have "parse_word (show_int n @ r) = parse_number (show_int n @ r)" by (auto simp: parse_word_def c(1))
  then show ?thesis using parse_show_int [OF assms] by simp
qed

subsection \<open>Values\<close>

lemma ws_facts [simp]:
  "\<not> json_ws (CHR 0x22)" "\<not> json_ws (CHR ''['')" "\<not> json_ws (CHR '']'')" "\<not> json_ws (CHR ''{'')"
  "\<not> json_ws (CHR ''}'')" "\<not> json_ws (CHR '','')" "\<not> json_ws (CHR '':'')" "\<not> json_ws (CHR ''n'')"
  "\<not> json_ws (CHR ''t'')" "\<not> json_ws (CHR ''f'')" "\<not> json_ws (CHR ''-'')"
  by (simp_all add: json_ws_def)

lemma digit_not_ws: "is_digit c \<Longrightarrow> \<not> json_ws c"
  by (auto simp: is_digit_def json_ws_def)

lemma parse_value_int:
  assumes "value_end r"
  shows "parse_value (show_int n @ r) = Some (JNum n, r)"
proof -
  obtain c cs where c: "show_int n = c # cs" "is_digit c \<or> c = CHR ''-''" using show_int_hd by blast
  then have "\<not> json_ws c" "c \<notin> {CHR 0x22, CHR ''['', CHR ''{''}" by (auto simp: digit_not_ws is_digit_def)
  then have "parse_value (show_int n @ r) = parse_word (show_int n @ r)"
    by (subst parse_value.simps) (simp add: c(1))
  then show ?thesis using parse_word_int [OF assms] by simp
qed

text \<open>A printed value starts with a character that is no white space and closes nothing.\<close>

lemma stringify_hd: "\<exists>c cs. stringify v = c # cs \<and> \<not> json_ws c \<and> c \<notin> {CHR '']'', CHR ''}''}"
proof (cases v)
  case (JNum n)
  obtain c cs where "show_int n = c # cs" "is_digit c \<or> c = CHR ''-''" using show_int_hd by blast
  with JNum show ?thesis by (auto simp: digit_not_ws is_digit_def)
qed (auto simp: quote_def)

lemma js_object_distinct: "distinct (map fst ms) \<Longrightarrow> js_object ms = JObj ms"
  using fold_update_new [of "[]" fst ms snd] by (simp add: js_object_def case_prod_beta')

lemma value_end_sep [simp]: "value_end (CHR '','' # r)" "value_end (CHR '']'' # r)" "value_end (CHR ''}'' # r)"
  by (simp_all add: value_end_def)

lemma parse_stringify:
  shows parse_value_stringify: "wf_json v \<Longrightarrow> value_end r \<Longrightarrow> parse_value (stringify v @ r) = Some (v, r)"
    and parse_items_stringify: "\<forall>v \<in> set vs. wf_json v \<Longrightarrow> vs \<noteq> [] \<Longrightarrow> parse_items (stringify_items vs @ r) = Some (vs, r)"
    and parse_members_stringify: "\<forall>m \<in> set ms. wf_json (snd m) \<Longrightarrow> ms \<noteq> [] \<Longrightarrow>
      parse_members (stringify_members ms @ r) = Some (ms, r)"
proof (induction v and vs and ms arbitrary: r and r and r rule: stringify_stringify_items_stringify_members.induct)
  case (3 n)
  then show ?case by (simp add: parse_value_int)
next
  case (4 s)
  show ?case by (subst parse_value.simps) (simp add: quote_parse parse_string_quoted)
next
  case (5 vs)
  show ?case
  proof (cases vs)
    case Nil
    then show ?thesis by (subst parse_value.simps) simp
  next
    case (Cons v vs')
    obtain c cs where c: "stringify v = c # cs" "\<not> json_ws c" "c \<noteq> CHR '']''" using stringify_hd [of v] by auto
    have "parse_items (stringify_items vs @ r) = Some (vs, r)" using 5 Cons by simp
    with c Cons show ?thesis by (subst parse_value.simps) simp
  qed
next
  case (6 ms)
  show ?case
  proof (cases ms)
    case Nil
    then show ?thesis by (subst parse_value.simps) simp
  next
    case (Cons m ms')
    obtain k v where m: "m = (k, v)" by fastforce
    have "parse_members (stringify_members ms @ r) = Some (ms, r)" using 6 Cons by simp
    moreover have "js_object ms = JObj ms" using 6 by (simp add: js_object_distinct)
    ultimately show ?thesis using Cons m by (subst parse_value.simps) (simp add: quote_parse)
  qed
next
  case (8 v vs)
  let ?rest = "(if vs = [] then '']'' else CHR '','' # stringify_items vs) @ r"
  have v: "parse_value (stringify v @ ?rest) = Some (v, ?rest)" using 8 by (intro 8) auto
  obtain c cs where c: "stringify v = c # cs" using stringify_hd by blast
  show ?case
  proof (cases "vs = []")
    case True
    with v show ?thesis by (subst parse_items.simps) simp
  next
    case False
    then have "parse_items (stringify_items vs @ r) = Some (vs, r)" using 8 by simp
    with v False c show ?thesis by (subst parse_items.simps) simp
  qed
next
  case (10 k v ms)
  let ?rest = "(if ms = [] then ''}'' else CHR '','' # stringify_members ms) @ r"
  have v: "parse_value (stringify v @ ?rest) = Some (v, ?rest)" using 10 by (intro 10) auto
  show ?case
  proof (cases "ms = []")
    case True
    with v show ?thesis by (subst parse_members.simps) (simp add: quote_parse parse_string_quoted)
  next
    case False
    then have "parse_members (stringify_members ms @ r) = Some (ms, r)" using 10 by simp
    with v False show ?thesis by (subst parse_members.simps) (simp add: quote_parse parse_string_quoted)
  qed
qed ((subst parse_value.simps, simp add: parse_word_def; fail) | simp)+

text \<open>\<open>JSON.parse\<close> inverts \<open>JSON.stringify\<close>.\<close>

lemma json_round_trip: "wf_json v \<Longrightarrow> json_parse (stringify v) = Some v"
  using parse_value_stringify [of v "[]"] by (simp add: json_parse_def value_end_def)

lemma stringify_inject: "wf_json v \<Longrightarrow> wf_json w \<Longrightarrow> stringify v = stringify w \<longleftrightarrow> v = w"
  by (metis json_round_trip option.inject)

end
