(* ===== verification/LP_Serializer.thy ===== *)
theory LP_Serializer
  imports LP_Json LP_Events
begin

text \<open>
  \<^verbatim>\<open>src/src/shared/events/EventSerializer.ts\<close>: the JSON form of the event envelope, its
  validation in both directions, and the upcasting of old payloads. \<open>deserialize\<close> returns
  the parsed object as it is, members the envelope does not know included; \<open>event_view\<close> reads
  the envelope off such an object. The text of the engine's \<open>SyntaxError\<close> is an argument.
\<close>

section \<open>The envelope as JSON\<close>

definition property :: "string \<Rightarrow> json \<Rightarrow> json option" where
  "property k j = (case j of JObj ms \<Rightarrow> map_of ms k | _ \<Rightarrow> None)"

text \<open>A member whose value is \<open>undefined\<close> is not printed.\<close>

definition optional :: "string \<Rightarrow> string option \<Rightarrow> (string \<times> json) list" where
  "optional k v = (case v of None \<Rightarrow> [] | Some s \<Rightarrow> [(k, JStr s)])"

definition metadata_json :: "eventMetadata \<Rightarrow> json" where
  "metadata_json md = JObj (optional ''correlationId'' (md_correlationId md) @ optional ''causationId'' (md_causationId md) @
     optional ''idempotencyKey'' (md_idempotencyKey md) @ optional ''userId'' (md_userId md))"

definition event_json :: "json \<Rightarrow> 'd domainEvent \<Rightarrow> json" where
  "event_json data ev = JObj
     ([(''eventId'', JStr (evt_eventId ev)), (''eventType'', JStr (evt_eventType ev)),
       (''aggregateId'', JStr (evt_aggregateId ev)), (''version'', JNum (evt_version ev)),
       (''occurredAt'', JStr (evt_occurredAt ev)), (''producer'', JStr (evt_producer ev)), (''data'', data)] @
      (case evt_metadata ev of None \<Rightarrow> [] | Some md \<Rightarrow> [(''metadata'', metadata_json md)]))"

section \<open>serialize and deserialize\<close>

text \<open>\<^term>\<open>None\<close> as payload is \<open>undefined\<close>.\<close>

definition serialize :: "json option domainEvent \<Rightarrow> string result" where
  "serialize ev =
     (if evt_eventId ev = [] then Inl (Error ''DomainEvent must have an eventId'')
      else if evt_eventType ev = [] then Inl (Error ''DomainEvent must have an eventType'')
      else if evt_aggregateId ev = [] then Inl (Error ''DomainEvent must have an aggregateId'')
      else if evt_version ev < 1 then Inl (Error ''DomainEvent must have a valid version >= 1'')
      else if evt_occurredAt ev = [] then Inl (Error ''DomainEvent must have an occurredAt timestamp'')
      else if evt_producer ev = [] then Inl (Error ''DomainEvent must have a producer name'')
      else case evt_data ev of
        None \<Rightarrow> Inl (Error ''DomainEvent must have a data payload'')
      | Some d \<Rightarrow>
          if d = JNull then Inl (Error ''DomainEvent must have a data payload'')
          else Inr (stringify (event_json d ev)))"

text \<open>The check \<open>!x || typeof x !== 'string'\<close>, negated.\<close>

definition text_property :: "string \<Rightarrow> json \<Rightarrow> bool" where
  "text_property k j = (case property k j of Some (JStr s) \<Rightarrow> s \<noteq> [] | _ \<Rightarrow> False)"

definition version_property :: "json \<Rightarrow> bool" where
  "version_property j = (case property ''version'' j of Some (JNum n) \<Rightarrow> 1 \<le> n | _ \<Rightarrow> False)"

definition deserialize :: "string \<Rightarrow> string \<Rightarrow> json result" where
  "deserialize syntaxMessage rawJson =
     (case json_parse rawJson of
        None \<Rightarrow> Inl (Error (''Failed to parse event JSON: '' @ syntaxMessage))
      | Some j \<Rightarrow>
          if (case j of JObj _ \<Rightarrow> False | JArr _ \<Rightarrow> False | _ \<Rightarrow> True)
          then Inl (Error ''Deserialized event must be an object'')
          else if \<not> text_property ''eventId'' j then Inl (Error ''Invalid or missing eventId in event envelope'')
          else if \<not> text_property ''eventType'' j then Inl (Error ''Invalid or missing eventType in event envelope'')
          else if \<not> text_property ''aggregateId'' j then Inl (Error ''Invalid or missing aggregateId in event envelope'')
          else if \<not> version_property j then Inl (Error ''Invalid or missing version in event envelope'')
          else if \<not> text_property ''occurredAt'' j then Inl (Error ''Invalid or missing occurredAt in event envelope'')
          else if \<not> text_property ''producer'' j then Inl (Error ''Invalid or missing producer in event envelope'')
          else if property ''data'' j = None \<or> property ''data'' j = Some JNull
          then Inl (Error ''Invalid or missing data payload in event envelope'')
          else Inr j)"

text \<open>How the caller reads the returned object as a \<open>DomainEvent\<close>.\<close>

definition text_of :: "string \<Rightarrow> json \<Rightarrow> string option" where
  "text_of k j = (case property k j of Some (JStr s) \<Rightarrow> Some s | _ \<Rightarrow> None)"

definition metadata_view :: "json \<Rightarrow> eventMetadata" where
  "metadata_view j = \<lparr>md_correlationId = text_of ''correlationId'' j, md_causationId = text_of ''causationId'' j,
     md_idempotencyKey = text_of ''idempotencyKey'' j, md_userId = text_of ''userId'' j\<rparr>"

definition event_view :: "json \<Rightarrow> json option domainEvent" where
  "event_view j =
     \<lparr>evt_eventId = case_option [] id (text_of ''eventId'' j), evt_eventType = case_option [] id (text_of ''eventType'' j),
      evt_aggregateId = case_option [] id (text_of ''aggregateId'' j),
      evt_version = (case property ''version'' j of Some (JNum n) \<Rightarrow> n | _ \<Rightarrow> 0),
      evt_occurredAt = case_option [] id (text_of ''occurredAt'' j),
      evt_producer = case_option [] id (text_of ''producer'' j),
      evt_data = property ''data'' j, evt_metadata = map_option metadata_view (property ''metadata'' j)\<rparr>"

section \<open>Upcasting\<close>

text \<open>The static table of upcasters. A payload is an object; an upcaster may throw.\<close>

type_synonym js_record = "(string, json) jsmap"
type_synonym upcaster_table = "(string, js_record \<Rightarrow> js_record result) jsmap"

definition upcaster_key :: "string \<Rightarrow> int \<Rightarrow> int \<Rightarrow> string" where
  "upcaster_key eventType fromVersion toVersion =
     eventType @ CHR '':'' # show_int fromVersion @ ''-'' @ CHR ''>'' # show_int toVersion"

definition registerUpcaster ::
    "string \<Rightarrow> int \<Rightarrow> int \<Rightarrow> (js_record \<Rightarrow> js_record result) \<Rightarrow> upcaster_table \<Rightarrow> upcaster_table" where
  "registerUpcaster eventType fromVersion toVersion upcaster ups =
     AList.update (upcaster_key eventType fromVersion toVersion) upcaster ups"

definition clearUpcasters :: "upcaster_table \<Rightarrow> upcaster_table" where
  "clearUpcasters ups = []"

function upcast_data :: "upcaster_table \<Rightarrow> string \<Rightarrow> int \<Rightarrow> int \<Rightarrow> js_record \<Rightarrow> js_record result" where
  "upcast_data ups eventType currentVersion targetVersion currentData =
     (if currentVersion < targetVersion then
        (case map_of ups (upcaster_key eventType currentVersion (currentVersion + 1)) of
           None \<Rightarrow> Inl (Error (''No upcaster registered for '' @ eventType @ '' from version '' @
             show_int currentVersion @ '' to '' @ show_int (currentVersion + 1)))
         | Some f \<Rightarrow>
             rbind (f currentData) (upcast_data ups eventType (currentVersion + 1) targetVersion))
      else Inr currentData)"
  by pat_completeness auto
termination
  by (relation "measure (\<lambda>(_, _, currentVersion, targetVersion, _). nat (targetVersion - currentVersion))") auto

declare upcast_data.simps [simp del]

definition upcast :: "upcaster_table \<Rightarrow> js_record domainEvent \<Rightarrow> int \<Rightarrow> js_record domainEvent result" where
  "upcast ups ev targetVersion =
     rbind (upcast_data ups (evt_eventType ev) (evt_version ev) targetVersion (evt_data ev)) (\<lambda>d.
       Inr (ev\<lparr>evt_version := targetVersion, evt_data := d\<rparr>))"

section \<open>Round trip\<close>

lemma property_JObj [simp]: "property k (JObj ms) = map_of ms k"
  by (simp add: property_def)

lemma optional_simps [simp]: "optional k None = []" "optional k (Some s) = [(k, JStr s)]"
  by (simp_all add: optional_def)

lemma wf_event_json: "wf_json data \<Longrightarrow> wf_json (event_json data ev)"
  by (auto simp: event_json_def metadata_json_def optional_def split: option.splits)

lemma metadata_view_json [simp]: "metadata_view (metadata_json md) = md"
  by (cases md) (auto simp: metadata_view_def metadata_json_def text_of_def optional_def split: option.splits)

lemma event_view_json: "evt_data ev = Some d \<Longrightarrow> event_view (event_json d ev) = ev"
  by (cases ev) (auto simp: event_view_def event_json_def text_of_def split: option.splits)

lemma serialize_Inr:
  "serialize ev = Inr s \<longleftrightarrow>
     evt_eventId ev \<noteq> [] \<and> evt_eventType ev \<noteq> [] \<and> evt_aggregateId ev \<noteq> [] \<and> 1 \<le> evt_version ev \<and>
     evt_occurredAt ev \<noteq> [] \<and> evt_producer ev \<noteq> [] \<and>
     (\<exists>d. evt_data ev = Some d \<and> d \<noteq> JNull \<and> s = stringify (event_json d ev))"
  by (auto simp: serialize_def split: option.splits)

text \<open>What \<open>deserialize\<close> lets through: an object whose envelope is one \<open>serialize\<close> accepts.\<close>

definition valid_envelope :: "json \<Rightarrow> bool" where
  "valid_envelope j \<longleftrightarrow>
     text_property ''eventId'' j \<and> text_property ''eventType'' j \<and> text_property ''aggregateId'' j \<and>
     version_property j \<and> text_property ''occurredAt'' j \<and> text_property ''producer'' j \<and>
     property ''data'' j \<noteq> None \<and> property ''data'' j \<noteq> Some JNull"

lemma text_property_object: "text_property k j \<Longrightarrow> \<exists>ms. j = JObj ms"
  by (cases j) (simp_all add: text_property_def property_def)

lemma deserialize_valid: "deserialize msg raw = Inr j \<longleftrightarrow> json_parse raw = Some j \<and> valid_envelope j"
proof (cases "json_parse raw")
  case None
  then show ?thesis by (simp add: deserialize_def)
next
  case (Some k)
  show ?thesis
  proof (cases "text_property ''eventId'' k")
    case True
    then obtain ms where "k = JObj ms" using text_property_object by blast
    with Some True show ?thesis by (auto simp: deserialize_def valid_envelope_def)
  next
    case False
    with Some show ?thesis by (auto simp: deserialize_def valid_envelope_def)
  qed
qed

lemma text_property_view: "text_property k j \<longleftrightarrow> case_option [] id (text_of k j) \<noteq> []"
  by (auto simp: text_property_def text_of_def split: option.splits json.splits)

lemma version_property_view: "version_property j \<longleftrightarrow> 1 \<le> evt_version (event_view j)"
  by (auto simp: version_property_def event_view_def split: option.splits json.splits)

lemma valid_envelope_view: "valid_envelope j \<longleftrightarrow> (\<exists>s. serialize (event_view j) = Inr s)"
  by (auto simp: valid_envelope_def serialize_Inr text_property_view version_property_view)
    (auto simp: event_view_def)

section \<open>The table of upcasters\<close>

lemma split_at_last:
  assumes "xs @ c # ys = xs' @ c # ys'" "c \<notin> set ys" "c \<notin> set ys'"
  shows "xs = xs' \<and> ys = ys'"
proof -
  have tw: "takeWhile (\<lambda>x. x \<noteq> c) (rev (zs @ c # us)) = rev us" if "c \<notin> set us" for zs us
    using that takeWhile_append2 [of "rev us" "\<lambda>x. x \<noteq> c" "c # rev zs"] by auto
  have "rev ys = rev ys'" using tw [OF assms(2), of xs] tw [OF assms(3), of xs'] assms(1) by simp
  with assms(1) show ?thesis by simp
qed

lemma show_int_chars: "c \<in> set (show_int n) \<Longrightarrow> is_digit c \<or> c = CHR ''-''"
  using show_nat_digits by (auto simp: show_int_def split: if_splits)

lemma show_int_inject [simp]: "show_int m = show_int n \<longleftrightarrow> m = n"
proof
  assume "show_int m = show_int n"
  then have "parse_number (show_int m @ []) = parse_number (show_int n @ [])" by simp
  then show "m = n" using parse_show_int [of "[]"] by (simp add: value_end_def)
qed simp

lemma upcaster_key_inject [simp]:
  "upcaster_key t a b = upcaster_key t' a' b' \<longleftrightarrow> t = t' \<and> a = a' \<and> b = b'"
proof
  assume eq: "upcaster_key t a b = upcaster_key t' a' b'"
  let ?X = "show_int a @ ''-'' @ CHR ''>'' # show_int b" and ?Y = "show_int a' @ ''-'' @ CHR ''>'' # show_int b'"
  have colon: "CHR '':'' \<notin> set ?X" "CHR '':'' \<notin> set ?Y"
    using show_int_chars [of "CHR '':''"] by (auto simp: is_digit_def)
  have gt: "CHR ''>'' \<notin> set (show_int n)" for n
    using show_int_chars [of "CHR ''>''" n] by (auto simp: is_digit_def)
  have "t = t' \<and> ?X = ?Y" using eq colon unfolding upcaster_key_def by (rule split_at_last)
  moreover from this have "(show_int a @ ''-'') @ CHR ''>'' # show_int b = (show_int a' @ ''-'') @ CHR ''>'' # show_int b'"
    by simp
  then have "show_int a @ ''-'' = show_int a' @ ''-'' \<and> show_int b = show_int b'" by (rule split_at_last) (rule gt)+
  ultimately show "t = t' \<and> a = a' \<and> b = b'" by simp
qed simp

lemma registered_upcaster:
  "map_of (registerUpcaster t a b f ups) (upcaster_key t' a' b') =
     (if t' = t \<and> a' = a \<and> b' = b then Some f else map_of ups (upcaster_key t' a' b'))"
  by (simp add: registerUpcaster_def)

lemma upcast_data_append:
  assumes "u \<le> v" "v \<le> w"
  shows "upcast_data ups t u w d = rbind (upcast_data ups t u v d) (upcast_data ups t v w)"
  using assms
proof (induction "nat (v - u)" arbitrary: u d)
  case 0
  then show ?case by (simp add: upcast_data.simps [of ups t u u])
next
  case (Suc n)
  then have lt: "u < v" "u < w" by simp_all
  show ?case
  proof (cases "map_of ups (upcaster_key t u (u + 1))")
    case None
    with lt show ?thesis by (simp add: upcast_data.simps [of ups t u])
  next
    case (Some f)
    have IH: "upcast_data ups t (u + 1) w d' = rbind (upcast_data ups t (u + 1) v d') (upcast_data ups t v w)" for d'
      using Suc lt by (intro Suc.hyps) auto
    from Some lt show ?thesis
      by (cases "f d") (simp_all add: upcast_data.simps [of ups t u] IH)
  qed
qed

section \<open>Properties\<close>

text \<open>
  C14: an event survives the wire. Whatever event \<open>serialize\<close> accepts, \<open>deserialize\<close>
  accepts the text it printed, and the envelope read off the result is the event itself:
  every field, the payload and the optional metadata, whatever characters they contain.
\<close>

theorem event_round_trip:
  assumes "serialize ev = Inr s" and "evt_data ev = Some d" and "wf_json d"
  shows "\<exists>j. deserialize syntaxMessage s = Inr j \<and> event_view j = ev"
proof -
  have s: "s = stringify (event_json d ev)" using assms(1,2) by (simp add: serialize_Inr)
  have view: "event_view (event_json d ev) = ev" using assms(2) by (rule event_view_json)
  have "json_parse s = Some (event_json d ev)"
    unfolding s using assms(3) by (intro json_round_trip wf_event_json)
  moreover have "valid_envelope (event_json d ev)" using assms(1) by (simp add: valid_envelope_view view)
  ultimately show ?thesis using view by (auto simp: deserialize_valid)
qed

definition demo_wire_event :: "json option domainEvent" where
  "demo_wire_event = \<lparr>evt_eventId = ''e-1'', evt_eventType = ''order.confirmed'', evt_aggregateId = ''o-1'',
     evt_version = 2, evt_occurredAt = ''2026-10-01T12:00:00.000Z'', evt_producer = ''launchpad'',
     evt_data = Some (JObj [(''note'', JStr [CHR 0x22, CHR 0x0A, CHR 0x5C, CHR 0x01]), (''qty'', JArr [JNum 2, JNum (-7), JNull])]),
     evt_metadata = Some \<lparr>md_correlationId = Some ''c'', md_causationId = None, md_idempotencyKey = None, md_userId = Some ''u''\<rparr>\<rparr>"

theorem event_round_trip_witness:
  "\<exists>s j. serialize demo_wire_event = Inr s \<and> deserialize ''m'' s = Inr j \<and> event_view j = demo_wire_event"
proof -
  let ?d = "JObj [(''note'', JStr [CHR 0x22, CHR 0x0A, CHR 0x5C, CHR 0x01]), (''qty'', JArr [JNum 2, JNum (-7), JNull])]"
  have ser: "serialize demo_wire_event = Inr (stringify (event_json ?d demo_wire_event))"
    by (simp add: serialize_def demo_wire_event_def)
  have "evt_data demo_wire_event = Some ?d" "wf_json ?d" by (simp_all add: demo_wire_event_def)
  from event_round_trip [OF ser this] ser show ?thesis by blast
qed

text \<open>
  \<open>deserialize\<close> accepts exactly the well-formed texts whose envelope \<open>serialize\<close> would
  accept: it returns the parsed object, unknown members included, when all checks of the
  envelope pass, and throws otherwise.
\<close>

theorem deserialize_validates:
  "deserialize syntaxMessage raw = Inr j \<longleftrightarrow>
     json_parse raw = Some j \<and> (\<exists>s. serialize (event_view j) = Inr s)"
  by (simp add: deserialize_valid valid_envelope_view)

text \<open>
  Upcasting goes through the versions one by one: from version \<open>u\<close> to \<open>w\<close> it gives
  what upcasting to any version between and from there to \<open>w\<close> gives, result or error, with
  every other field of the event unchanged; and what is looked up for a step is what was last
  registered for exactly that event type and pair of versions.
\<close>

theorem upcast_composes:
  assumes "evt_version ev \<le> v" "v \<le> w"
  shows "upcast ups ev w = rbind (upcast ups ev v) (\<lambda>e. upcast ups e w) \<and>
    (\<forall>e. upcast ups ev w = Inr e \<longleftrightarrow>
      (\<exists>d. upcast_data ups (evt_eventType ev) (evt_version ev) w (evt_data ev) = Inr d \<and>
        e = ev\<lparr>evt_version := w, evt_data := d\<rparr>)) \<and>
    map_of (registerUpcaster t a b f ups) (upcaster_key t' a' b') =
      (if t' = t \<and> a' = a \<and> b' = b then Some f else map_of ups (upcaster_key t' a' b'))"
proof -
  have "upcast ups ev w = rbind (upcast ups ev v) (\<lambda>e. upcast ups e w)"
    unfolding upcast_def upcast_data_append [OF assms]
    by (cases "upcast_data ups (evt_eventType ev) (evt_version ev) v (evt_data ev)") simp_all
  moreover have "(upcast ups ev w = Inr e) = (\<exists>d. upcast_data ups (evt_eventType ev) (evt_version ev) w (evt_data ev) = Inr d \<and>
      e = ev\<lparr>evt_version := w, evt_data := d\<rparr>)" for e by (auto simp: upcast_def)
  ultimately show ?thesis by (simp only: registered_upcaster simp_thms)
qed

definition demo_upcasters :: upcaster_table where
  "demo_upcasters = registerUpcaster ''order.confirmed'' 2 3 (\<lambda>d. Inr (AList.update ''tier'' (JStr ''GA'') d))
     (registerUpcaster ''order.confirmed'' 1 2 (\<lambda>d. Inr (AList.update ''email'' (JStr ''a'') d)) [])"

definition demo_v1 :: "js_record domainEvent" where
  "demo_v1 = \<lparr>evt_eventId = ''e-1'', evt_eventType = ''order.confirmed'', evt_aggregateId = ''o-1'', evt_version = 1,
     evt_occurredAt = ''t'', evt_producer = ''p'', evt_data = [], evt_metadata = None\<rparr>"

theorem upcast_composes_witness:
  "upcast demo_upcasters demo_v1 3 = rbind (upcast demo_upcasters demo_v1 2) (\<lambda>e. upcast demo_upcasters e 3)"
  using upcast_composes [of demo_v1 2 3 demo_upcasters] by (simp add: demo_v1_def)

text \<open>A target below the event's version relabels the event and leaves its payload as it is.\<close>

lemma upcast_relabels:
  "t \<le> evt_version ev \<Longrightarrow> upcast ups ev t = Inr (ev\<lparr>evt_version := t\<rparr>)"
  by (simp add: upcast_def upcast_data.simps [of ups "evt_eventType ev" "evt_version ev" t])

end
