(* ===== verification/LP_Migrations.thy ===== *)
theory LP_Migrations
  imports LP_Prelude "HOL-Library.Char_ord" "HOL-Library.List_Lexorder"
begin

text \<open>
  The migration runner, \<^verbatim>\<open>src/src/infrastructure/db/runMigrations.ts\<close>. The directory is an
  association list of names and contents, in the order the file system lists them; running a
  script is the parameter \<open>query\<close>, which may throw and has then left the database as it says.
  A client is taken from the pool and given back.
\<close>

section \<open>runMigrations\<close>

type_synonym 'db query_fn = "string \<Rightarrow> 'db \<Rightarrow> 'db outcome"

record 'db migration_state =
  mg_db :: 'db
  mg_clients :: nat

text \<open>\<open>readdirSync(...).filter(f => f.endsWith('.sql')).sort()\<close>: by code units.\<close>

definition sql_files :: "(string \<times> string) list \<Rightarrow> string list" where
  "sql_files dir = sort (filter (\<lambda>f. suffix ''.sql'' f) (map fst dir))"

fun run_files :: "(string \<times> string) list \<Rightarrow> 'db query_fn \<Rightarrow> string list \<Rightarrow> 'db \<Rightarrow> 'db outcome" where
  "run_files dir query [] db = (None, db)"
| "run_files dir query (f # fs) db =
     (case map_of dir f of
        None \<Rightarrow> (Some (Error ''ENOENT''), db)
      | Some sql \<Rightarrow>
          (case query sql db of
             (Some err, db') \<Rightarrow> (Some err, db')
           | (None, db') \<Rightarrow> run_files dir query fs db'))"

definition runMigrations :: "(string \<times> string) list \<Rightarrow> 'db query_fn \<Rightarrow> 'db migration_state \<Rightarrow> 'db migration_state outcome" where
  "runMigrations dir query s =
     (let taken = s\<lparr>mg_clients := mg_clients s + 1\<rparr> in
      case run_files dir query (sql_files dir) (mg_db taken) of
        (err, db') \<Rightarrow> (err, taken\<lparr>mg_db := db', mg_clients := mg_clients taken - 1\<rparr>))"

section \<open>Order and failures\<close>

lemma sql_files_found: "f \<in> set (sql_files dir) \<Longrightarrow> \<exists>sql. map_of dir f = Some sql"
  by (auto simp: sql_files_def) (metis domD dom_map_of_conv_image_fst image_eqI fst_conv)

text \<open>All of \<open>applied\<close> ran, and the run ended there or with the error of the next script.\<close>

definition stopped_after ::
    "(string \<times> string) list \<Rightarrow> 'db query_fn \<Rightarrow> string list \<Rightarrow> string list \<Rightarrow> 'db \<Rightarrow> js_error option \<Rightarrow> 'db \<Rightarrow> bool" where
  "stopped_after dir query applied rest db err db' \<longleftrightarrow>
     (let reached = fold (\<lambda>f d. snd (query (the (map_of dir f)) d)) applied db in
      case err of
        None \<Rightarrow> rest = [] \<and> db' = reached
      | Some e \<Rightarrow> rest \<noteq> [] \<and> query (the (map_of dir (hd rest))) reached = (Some e, db'))"

lemma run_files_outcome:
  assumes "run_files dir query fs db = (err, db')" "\<forall>f \<in> set fs. map_of dir f \<noteq> None"
  shows "\<exists>applied rest. fs = applied @ rest \<and> stopped_after dir query applied rest db err db'"
  using assms
proof (induction fs arbitrary: db)
  case Nil
  then show ?case by (simp add: stopped_after_def)
next
  case (Cons f fs)
  obtain sql where sql: "map_of dir f = Some sql" using Cons.prems(2) by auto
  obtain e1 db1 where q: "query sql db = (e1, db1)" by fastforce
  show ?case
  proof (cases e1)
    case None
    have "run_files dir query fs db1 = (err, db')" using Cons.prems(1) sql q None by simp
    then obtain applied rest where "fs = applied @ rest" "stopped_after dir query applied rest db1 err db'"
      using Cons.IH [of db1] Cons.prems(2) by auto
    then show ?thesis using sql q by (intro exI [of _ "f # applied"] exI [of _ rest]) (simp add: stopped_after_def)
  next
    case (Some e)
    have "err = Some e" "db' = db1" using Cons.prems(1) sql q Some by simp_all
    then show ?thesis using sql q Some by (intro exI [of _ "[]"] exI [of _ "f # fs"]) (simp add: stopped_after_def)
  qed
qed

text \<open>The scripts run in the order of their names up to the first that throws, and the client
  is given back either way. Nothing records which scripts have run: the next start runs them all
  again.\<close>

theorem migrations_in_order:
  assumes "runMigrations dir query s = (err, s')"
  shows "mg_clients s' = mg_clients s \<and> sorted (sql_files dir) \<and>
    (\<exists>applied rest. sql_files dir = applied @ rest \<and> stopped_after dir query applied rest (mg_db s) err (mg_db s'))"
proof -
  obtain db' where run: "run_files dir query (sql_files dir) (mg_db s) = (err, db')" and s': "mg_db s' = db'" "mg_clients s' = mg_clients s"
    using assms by (auto simp: runMigrations_def Let_def split: prod.splits)
  have "\<forall>f \<in> set (sql_files dir). map_of dir f \<noteq> None" using sql_files_found by fastforce
  from run_files_outcome [OF run this] have "\<exists>applied rest. sql_files dir = applied @ rest \<and>
      stopped_after dir query applied rest (mg_db s) err (mg_db s')" by (simp only: s')
  moreover have "sorted (sql_files dir)" by (simp add: sql_files_def)
  ultimately show ?thesis using s'(2) by blast
qed

end
