(* ===== verification/LP_Cache.thy ===== *)
theory LP_Cache
  imports LP_Json Complex_Main
begin

text \<open>
  The cache: \<open>RedisCacheService\<close> and \<open>RequestCoalescer\<close>
  (\<^verbatim>\<open>src/src/infrastructure/cache\<close>). Redis holds texts with a time to live; an argument of
  each operation says whether Redis answers, and an operation on a Redis that does not is
  counted as an error and otherwise ignored. The options of the connection are not modelled.
\<close>

section \<open>RedisCacheService\<close>

record cache_entry =
  ce_data :: string
  ce_expiresAt :: int

record cacheService =
  cs_redis :: "(string, cache_entry) jsmap"
  cs_hits :: int
  cs_misses :: int
  cs_errors :: int
  cs_sets :: int
  cs_dels :: int

definition new_cacheService :: cacheService where
  "new_cacheService = \<lparr>cs_redis = [], cs_hits = 0, cs_misses = 0, cs_errors = 0, cs_sets = 0, cs_dels = 0\<rparr>"

text \<open>The Redis commands \<open>GET\<close> and \<open>SET key value EX seconds\<close>; the latter refuses a time to
  live that is not positive.\<close>

definition redis_read :: "int \<Rightarrow> string \<Rightarrow> cacheService \<Rightarrow> string option" where
  "redis_read now key c =
     (case map_of (cs_redis c) key of
        None \<Rightarrow> None
      | Some e \<Rightarrow> if now < ce_expiresAt e then Some (ce_data e) else None)"

definition cache_get :: "bool \<Rightarrow> int \<Rightarrow> string \<Rightarrow> cacheService \<Rightarrow> json option \<times> cacheService" where
  "cache_get up now key c =
     (if \<not> up then (None, c\<lparr>cs_errors := cs_errors c + 1, cs_misses := cs_misses c + 1\<rparr>)
      else if \<not> truthy (redis_read now key c) then (None, c\<lparr>cs_misses := cs_misses c + 1\<rparr>)
      else
        let c1 = c\<lparr>cs_hits := cs_hits c + 1\<rparr> in
        case json_parse (the (redis_read now key c)) of
          None \<Rightarrow> (None, c1\<lparr>cs_errors := cs_errors c1 + 1, cs_misses := cs_misses c1 + 1\<rparr>)
        | Some v \<Rightarrow> (Some v, c1))"

definition cache_set :: "bool \<Rightarrow> int \<Rightarrow> string \<Rightarrow> json \<Rightarrow> int \<Rightarrow> cacheService \<Rightarrow> cacheService" where
  "cache_set up now key v ttlSeconds c =
     (if \<not> up \<or> ttlSeconds \<le> 0 then c\<lparr>cs_errors := cs_errors c + 1\<rparr>
      else c\<lparr>cs_redis := AList.update key \<lparr>ce_data = stringify v, ce_expiresAt = now + ttlSeconds * 1000\<rparr> (cs_redis c),
             cs_sets := cs_sets c + 1\<rparr>)"

definition cache_del :: "bool \<Rightarrow> string \<Rightarrow> cacheService \<Rightarrow> cacheService" where
  "cache_del up key c =
     (if \<not> up then c\<lparr>cs_errors := cs_errors c + 1\<rparr>
      else c\<lparr>cs_redis := AList.delete key (cs_redis c), cs_dels := cs_dels c + 1\<rparr>)"

text \<open>The hit rate in percent, rounded to two decimals.\<close>

definition hitRate :: "cacheService \<Rightarrow> rat" where
  "hitRate c =
     (let totalReads = cs_hits c + cs_misses c;
          rate = (if 0 < totalReads then of_int (cs_hits c) / of_int totalReads * 100 else 0) :: rat
      in of_int \<lfloor>rate * 100 + 1 / 2\<rfloor> / 100)"

definition resetMetrics :: "cacheService \<Rightarrow> cacheService" where
  "resetMetrics c = c\<lparr>cs_hits := 0, cs_misses := 0, cs_errors := 0, cs_sets := 0, cs_dels := 0\<rparr>"

text \<open>The connection: the delay before the client's \<open>times\<close>-th attempt to reconnect, the listener
  on its \<open>error\<close> events, and what \<open>close\<close> does in each state of the client, where \<open>QUIT\<close> may
  fail. The commands in between are those of the client library.\<close>

definition retryStrategy :: "int \<Rightarrow> int" where
  "retryStrategy n = min (n * 100) 2000"

definition on_redis_error :: "cacheService \<Rightarrow> cacheService" where
  "on_redis_error c = c\<lparr>cs_errors := cs_errors c + 1\<rparr>"

datatype redis_command = Quit | Disconnect

definition close_cache :: "string \<Rightarrow> bool \<Rightarrow> redis_command list" where
  "close_cache status quitOk =
     (if status = ''ready'' \<or> status = ''connecting'' then if quitOk then [Quit] else [Quit, Disconnect] else [Disconnect])"

lemma close_cache_closes: "last (close_cache status quitOk) = Disconnect \<or> quitOk \<and> last (close_cache status quitOk) = Quit"
  by (simp add: close_cache_def)

lemma retryStrategy_bounds: "1 \<le> n \<Longrightarrow> 100 \<le> retryStrategy n \<and> retryStrategy n \<le> 2000"
  by (simp add: retryStrategy_def)

section \<open>Laws of the cache\<close>

text \<open>The caller's view: what an unexpired entry decodes to.\<close>

definition cached :: "int \<Rightarrow> string \<Rightarrow> cacheService \<Rightarrow> json option" where
  "cached now key c =
     (if truthy (redis_read now key c) then json_parse (the (redis_read now key c)) else None)"

lemma stringify_truthy: "truthy (Some (stringify v))"
  using stringify_hd [of v] by auto

lemma cache_get_result: "fst (cache_get up now key c) = (if up then cached now key c else None)"
  by (simp add: cache_get_def cached_def Let_def split: option.splits)

lemma cache_get_redis [simp]: "cs_redis (snd (cache_get up now key c)) = cs_redis c"
  by (simp add: cache_get_def Let_def split: option.splits)

lemma cached_redis: "cs_redis c' = cs_redis c \<Longrightarrow> cached now key c' = cached now key c"
  by (simp add: cached_def redis_read_def)

lemma cached_get [simp]: "cached now key (snd (cache_get up t k c)) = cached now key c"
  by (rule cached_redis) simp

lemma cached_set:
  assumes "wf_json v"
  shows "cached t k (cache_set up now key v ttl c) =
    (if up \<and> 0 < ttl \<and> k = key then if t < now + ttl * 1000 then Some v else None else cached t k c)"
  using stringify_truthy [of v] json_round_trip [OF assms]
  by (auto simp: cached_def cache_set_def redis_read_def simp del: truthy.simps)
    (simp_all add: truthy.simps)

lemma cached_del: "cached t k (cache_del up key c) = (if up \<and> k = key then None else cached t k c)"
  by (auto simp: cached_def cache_del_def redis_read_def)

text \<open>An entry that has expired stays expired.\<close>

lemma cached_later: "cached t k c = Some v \<Longrightarrow> t' \<le> t \<Longrightarrow> cached t' k c = Some v"
  by (auto simp: cached_def redis_read_def split: option.splits if_splits)

text \<open>
  The contract of a cache, \<open>ICacheService\<close>: \<open>view\<close> is what a read at a time would find. A read
  that finds the store down finds nothing; a \<open>set\<close> is seen until it expires, a \<open>del\<close> at once,
  and neither touches another key. A client that keeps to it may rely on what it reads:
  \<open>truthful\<close> says that whatever is found under a key is right for it.
\<close>

definition truthful :: "(int \<Rightarrow> string \<Rightarrow> 'c \<Rightarrow> json option) \<Rightarrow> (string \<Rightarrow> json \<Rightarrow> bool) \<Rightarrow> int \<Rightarrow> 'c \<Rightarrow> bool" where
  "truthful view ok now c \<longleftrightarrow> (\<forall>k v. view now k c = Some v \<longrightarrow> ok k v)"

locale cache_service =
  fixes get :: "bool \<Rightarrow> int \<Rightarrow> string \<Rightarrow> 'c \<Rightarrow> json option \<times> 'c"
    and set :: "bool \<Rightarrow> int \<Rightarrow> string \<Rightarrow> json \<Rightarrow> int \<Rightarrow> 'c \<Rightarrow> 'c"
    and del :: "bool \<Rightarrow> string \<Rightarrow> 'c \<Rightarrow> 'c"
    and view :: "int \<Rightarrow> string \<Rightarrow> 'c \<Rightarrow> json option"
  assumes get_view: "fst (get up now key c) = (if up then view now key c else None)"
    and get_keeps: "view t k (snd (get up now key c)) = view t k c"
    and set_view: "wf_json v \<Longrightarrow> view t k (set up now key v ttl c) =
      (if up \<and> 0 < ttl \<and> k = key then if t < now + ttl * 1000 then Some v else None else view t k c)"
    and del_view: "view t k (del up key c) = (if up \<and> k = key then None else view t k c)"
    and view_earlier: "view t k c = Some v \<Longrightarrow> t' \<le> t \<Longrightarrow> view t' k c = Some v"
begin

lemma hit_right: "truthful view ok now c \<Longrightarrow> fst (get up now key c) = Some v \<Longrightarrow> ok key v"
  by (auto simp: truthful_def get_view split: if_splits)

lemma get_truthful: "truthful view ok now (snd (get up t key c)) = truthful view ok now c"
  by (simp add: truthful_def get_keeps)

lemma set_truthful: "truthful view ok now c \<Longrightarrow> ok key v \<Longrightarrow> wf_json v \<Longrightarrow> truthful view ok now (set up t key v ttl c)"
  by (auto simp: truthful_def set_view split: if_splits)

lemma del_truthful:
  "truthful view ok now c \<Longrightarrow> (\<And>k v. k \<noteq> key \<Longrightarrow> ok k v \<Longrightarrow> ok' k v) \<Longrightarrow> truthful view ok' now (del True key c)"
  by (auto simp: truthful_def del_view split: if_splits)

lemma truthful_later: "truthful view ok now c \<Longrightarrow> now \<le> now' \<Longrightarrow> truthful view ok now' c"
  unfolding truthful_def using view_earlier by blast

end

interpretation redis_cache: cache_service cache_get cache_set cache_del cached
  by unfold_locales (rule cache_get_result cached_get cached_set cached_del cached_later; assumption)+

text \<open>Every read is counted once as a hit or a miss, and twice when the stored text does not
  parse.\<close>

lemma cache_get_counts:
  "cs_hits (snd (cache_get up now key c)) + cs_misses (snd (cache_get up now key c)) =
     cs_hits c + cs_misses c + (if up \<and> truthy (redis_read now key c) \<and> cached now key c = None then 2 else 1)"
  by (auto simp: cache_get_def cached_def Let_def split: option.splits)

lemma hitRate_bounds: "0 \<le> cs_hits c \<Longrightarrow> 0 \<le> cs_misses c \<Longrightarrow> 0 \<le> hitRate c \<and> hitRate c \<le> 100"
proof -
  assume a: "0 \<le> cs_hits c" "0 \<le> cs_misses c"
  define rate :: rat where "rate = (if 0 < cs_hits c + cs_misses c
    then of_int (cs_hits c) / of_int (cs_hits c + cs_misses c) * 100 else 0)"
  have "0 \<le> rate" "rate \<le> 100" using a by (auto simp: rate_def divide_simps)
  then have "0 \<le> rate * 100 + 1 / 2" "rate * 100 + 1 / 2 < of_int (10000 + 1)" by simp_all
  then have "0 \<le> \<lfloor>rate * 100 + 1 / 2\<rfloor>" "\<lfloor>rate * 100 + 1 / 2\<rfloor> < 10001" by (simp_all add: floor_less_iff)
  then show ?thesis by (simp add: hitRate_def Let_def flip: rate_def)
qed

section \<open>RequestCoalescer\<close>

text \<open>A promise is known by the number of the call that created it.\<close>

record coalescer =
  co_inFlight :: "(string, nat) jsmap"
  co_coalescedCount :: nat
  co_primaryExecutions :: nat

definition new_coalescer :: coalescer where
  "new_coalescer = \<lparr>co_inFlight = [], co_coalescedCount = 0, co_primaryExecutions = 0\<rparr>"

text \<open>\<open>do\<close>: the promise to wait for, which is the caller's own when it started the
  execution; and the \<open>finally\<close> of an execution.\<close>

definition coalesce :: "string \<Rightarrow> nat \<Rightarrow> coalescer \<Rightarrow> nat \<times> coalescer" where
  "coalesce key n c =
     (case map_of (co_inFlight c) key of
        Some p \<Rightarrow> (p, c\<lparr>co_coalescedCount := co_coalescedCount c + 1\<rparr>)
      | None \<Rightarrow> (n, c\<lparr>co_primaryExecutions := co_primaryExecutions c + 1,
                      co_inFlight := AList.update key n (co_inFlight c)\<rparr>))"

definition settle :: "string \<Rightarrow> coalescer \<Rightarrow> coalescer" where
  "settle key c = c\<lparr>co_inFlight := AList.delete key (co_inFlight c)\<rparr>"

definition activeInFlight :: "coalescer \<Rightarrow> nat" where
  "activeInFlight c = length (co_inFlight c)"

definition resetCoalescerStats :: "coalescer \<Rightarrow> coalescer" where
  "resetCoalescerStats c = c\<lparr>co_primaryExecutions := 0, co_coalescedCount := 0\<rparr>"

end
