(* ===== verification/LP_EventStore.thy ===== *)
theory LP_EventStore
  imports LP_Catalog LP_Inventory LP_InventoryDb
begin

text \<open>
  Events in Postgres and the use cases on them: \<open>PostgresEventRepository\<close>
  (\<^verbatim>\<open>src/src/modules/catalog/infrastructure\<close>) over the tables of the first migration with
  their constraints, and \<open>CreateEvent\<close>, \<open>GetEventById\<close> and \<open>UpdateEventStatus\<close>
  (\<^verbatim>\<open>src/src/modules/catalog/application\<close>).

  A method is a function of the committed tables; a transaction that fails leaves them as
  they were. The database's reading of a UUID is the parameter \<open>uuid_in\<close>: \<^term>\<open>None\<close> for
  a text that is none, and otherwise the canonical spelling under which it is stored and
  printed. \<open>new Date(text)\<close> is the parameter \<open>parse_date\<close>. Rows come back in insertion
  order. The time stamps of the rows, which no code reads, are left out.
\<close>

section \<open>Tables\<close>

record event_row =
  er_id :: string
  er_organizer_id :: string
  er_title :: string
  er_status :: string
  er_sale_start_at :: date
  er_sale_end_at :: date

record ticket_type_row =
  tr_id :: string
  tr_event_id :: string
  tr_name :: string
  tr_price_cents :: int
  tr_currency :: string
  tr_capacity :: int

record catalog_db =
  cdb_events :: "(string, event_row) jsmap"
  cdb_ticket_types :: "ticket_type_row list"
  cdb_pools :: "(string, pool_row) jsmap"

type_synonym uuid_reader = "string \<Rightarrow> string option"

definition uuid_column :: "uuid_reader \<Rightarrow> string \<Rightarrow> string result" where
  "uuid_column uuid_in s =
     (case uuid_in s of
        None \<Rightarrow> Inl (DatabaseError (''invalid input syntax for type uuid: '' @ s))
      | Some u \<Rightarrow> Inr u)"

text \<open>A value for a column \<open>VARCHAR(n)\<close>: no zero byte; what does not fit is an error unless
  it is spaces, which are cut off.\<close>

definition varchar_column :: "nat \<Rightarrow> string \<Rightarrow> string result" where
  "varchar_column n s =
     (if CHR 0x00 \<in> set s then Inl (DatabaseError ''invalid byte sequence for encoding'')
      else if \<forall>c \<in> set (drop n s). c = CHR '' '' then Inr (take n s)
      else Inl (DatabaseError ''value too long for type character varying''))"

definition checked :: "bool \<Rightarrow> 'a \<Rightarrow> 'a result" where
  "checked ok x = (if ok then Inr x else Inl db_error)"

section \<open>PostgresEventRepository\<close>

text \<open>\<open>INSERT INTO events ... ON CONFLICT (id) DO UPDATE\<close>\<close>

definition upsert_event :: "uuid_reader \<Rightarrow> event \<Rightarrow> catalog_db \<Rightarrow> catalog_db result" where
  "upsert_event uuid_in e db =
     rbind (uuid_column uuid_in (ev_id e)) (\<lambda>u.
     rbind (varchar_column 255 (ev_organizerId e)) (\<lambda>org.
     rbind (varchar_column 255 (ev_title e)) (\<lambda>title.
     rbind (varchar_column 50 (event_status_str (ev_status e))) (\<lambda>status.
     rbind (checked (startAt (ev_saleWindow e) < endAt (ev_saleWindow e)) ()) (\<lambda>_.
       let row = (case map_of (cdb_events db) u of
             None \<Rightarrow> \<lparr>er_id = u, er_organizer_id = org, er_title = title, er_status = status,
               er_sale_start_at = startAt (ev_saleWindow e), er_sale_end_at = endAt (ev_saleWindow e)\<rparr>
           | Some old \<Rightarrow> old\<lparr>er_title := title, er_status := status,
               er_sale_start_at := startAt (ev_saleWindow e), er_sale_end_at := endAt (ev_saleWindow e)\<rparr>)
       in Inr (db\<lparr>cdb_events := AList.update u row (cdb_events db)\<rparr>))))))"

text \<open>\<open>INSERT INTO ticket_types ... ON CONFLICT (id) DO NOTHING\<close>\<close>

definition insert_ticket_type :: "uuid_reader \<Rightarrow> ticketType \<Rightarrow> catalog_db \<Rightarrow> catalog_db result" where
  "insert_ticket_type uuid_in tt db =
     rbind (uuid_column uuid_in (tt_id tt)) (\<lambda>u.
     rbind (uuid_column uuid_in (tt_eventId tt)) (\<lambda>eid.
     rbind (varchar_column 255 (tt_name tt)) (\<lambda>name.
     rbind (varchar_column 10 (currency (tt_price tt))) (\<lambda>cur.
     rbind (checked (0 \<le> amountCents (tt_price tt) \<and> int4 (amountCents (tt_price tt)) \<and>
                     0 < tt_capacity tt \<and> int4 (tt_capacity tt)) ()) (\<lambda>_.
       if u \<in> set (map tr_id (cdb_ticket_types db)) then Inr db
       else checked (map_of (cdb_events db) eid \<noteq> None)
         (db\<lparr>cdb_ticket_types := cdb_ticket_types db @
            [\<lparr>tr_id = u, tr_event_id = eid, tr_name = name, tr_price_cents = amountCents (tt_price tt),
              tr_currency = cur, tr_capacity = tt_capacity tt\<rparr>]\<rparr>))))))"

text \<open>\<open>INSERT INTO inventory_pools ... ON CONFLICT (ticket_type_id) DO NOTHING\<close>\<close>

definition insert_pool :: "uuid_reader \<Rightarrow> inventoryPool \<Rightarrow> catalog_db \<Rightarrow> catalog_db result" where
  "insert_pool uuid_in p db =
     rbind (uuid_column uuid_in (pool_ticketTypeId p)) (\<lambda>u.
       let row = \<lparr>pr_total = totalCapacity p, pr_available = availableQuantity p, pr_reserved = reservedQuantity p,
                  pr_sold = soldQuantity p\<rparr> in
       rbind (checked (pool_row_ok row) ()) (\<lambda>_.
         if map_of (cdb_pools db) u \<noteq> None then Inr db
         else checked (u \<in> set (map tr_id (cdb_ticket_types db)))
           (db\<lparr>cdb_pools := AList.update u row (cdb_pools db)\<rparr>)))"

fun each_statement :: "('a \<Rightarrow> catalog_db \<Rightarrow> catalog_db result) \<Rightarrow> 'a list \<Rightarrow> catalog_db \<Rightarrow> catalog_db result" where
  "each_statement stmt [] db = Inr db"
| "each_statement stmt (x # xs) db = rbind (stmt x db) (each_statement stmt xs)"

definition save_event :: "uuid_reader \<Rightarrow> event \<Rightarrow> inventoryPool list \<Rightarrow> catalog_db \<Rightarrow> catalog_db outcome" where
  "save_event uuid_in e inventoryPools db =
     (case rbind (upsert_event uuid_in e db) (\<lambda>db1.
           rbind (each_statement (insert_ticket_type uuid_in) (ticketTypes_of e) db1)
             (each_statement (insert_pool uuid_in) inventoryPools)) of
        Inl err \<Rightarrow> (Some err, db)
      | Inr db' \<Rightarrow> (None, db'))"

fun load_ticket_types :: "ticket_type_row list \<Rightarrow> event \<Rightarrow> event result" where
  "load_ticket_types [] e = Inr e"
| "load_ticket_types (r # rs) e =
     rbind (new_Money (JInt (tr_price_cents r)) (tr_currency r)) (\<lambda>price.
     rbind (addTicketType (tr_id r) (tr_name r) price (JInt (tr_capacity r)) e) (\<lambda>(_, e').
       load_ticket_types rs e'))"

definition load_status :: "string \<Rightarrow> event \<Rightarrow> event result" where
  "load_status status e =
     (if status = ''SCHEDULED'' then schedule e
      else if status = ''LIVE'' then
        rbind (if ev_status e = EventStatus.DRAFT then schedule e else Inr e) publish
      else if status = ''CANCELLED'' then cancel_event e
      else Inr e)"

definition rows_of :: "string \<Rightarrow> catalog_db \<Rightarrow> ticket_type_row list" where
  "rows_of u db = filter (\<lambda>r. tr_event_id r = u) (cdb_ticket_types db)"

definition find_event :: "uuid_reader \<Rightarrow> string \<Rightarrow> catalog_db \<Rightarrow> event option result" where
  "find_event uuid_in i db =
     rbind (uuid_column uuid_in i) (\<lambda>u.
       case map_of (cdb_events db) u of
         None \<Rightarrow> Inr None
       | Some row \<Rightarrow>
           rbind (new_TimeWindow (Some (er_sale_start_at row)) (Some (er_sale_end_at row))) (\<lambda>saleWindow.
           rbind (event_create (er_id row) (er_organizer_id row) (er_title row) saleWindow) (\<lambda>e.
           rbind (load_ticket_types (rows_of u db) e) (\<lambda>e1.
           rbind (load_status (er_status row) e1) (\<lambda>e2. Inr (Some e2))))))"

definition updateStatus :: "uuid_reader \<Rightarrow> event \<Rightarrow> catalog_db \<Rightarrow> catalog_db outcome" where
  "updateStatus uuid_in e db =
     (case rbind (uuid_column uuid_in (ev_id e)) (\<lambda>u.
           rbind (varchar_column 50 (event_status_str (ev_status e))) (\<lambda>status.
             case map_of (cdb_events db) u of
               None \<Rightarrow> Inr db
             | Some row \<Rightarrow> Inr (db\<lparr>cdb_events := AList.update u (row\<lparr>er_status := status\<rparr>) (cdb_events db)\<rparr>))) of
        Inl err \<Rightarrow> (Some err, db)
      | Inr db' \<Rightarrow> (None, db'))"

section \<open>The use cases\<close>

record ticketTypeDTO =
  td_id :: "string option"
  td_name :: string
  td_priceCents :: jsnum
  td_currency :: "string option"
  td_capacity :: jsnum

record createEventRequestDTO =
  cr_organizerId :: string
  cr_title :: string
  cr_saleStartAt :: string
  cr_saleEndAt :: string
  cr_ticketTypes :: "ticketTypeDTO list"

record ticketTypeResponse =
  tp_id :: string
  tp_name :: string
  tp_priceCents :: int
  tp_currency :: string
  tp_capacity :: int

record eventResponseDTO =
  ed_id :: string
  ed_organizerId :: string
  ed_title :: string
  ed_status :: string
  ed_saleStartAt :: string
  ed_saleEndAt :: string
  ed_ticketTypes :: "ticketTypeResponse list"

definition toDTO :: "event \<Rightarrow> eventResponseDTO" where
  "toDTO e =
     \<lparr>ed_id = ev_id e, ed_organizerId = ev_organizerId e, ed_title = ev_title e,
      ed_status = event_status_str (ev_status e), ed_saleStartAt = toISOString (startAt (ev_saleWindow e)),
      ed_saleEndAt = toISOString (endAt (ev_saleWindow e)),
      ed_ticketTypes = map (\<lambda>tt. \<lparr>tp_id = tt_id tt, tp_name = tt_name tt, tp_priceCents = amountCents (tt_price tt),
        tp_currency = currency (tt_price tt), tp_capacity = tt_capacity tt\<rparr>) (ticketTypes_of e)\<rparr>"

text \<open>The loop over the requested ticket types; \<open>uuids\<close> are what \<open>randomUUID\<close> returns for
  those without an identifier.\<close>

fun create_ticket_types ::
    "(nat \<Rightarrow> string) \<Rightarrow> nat \<Rightarrow> ticketTypeDTO list \<Rightarrow> event \<Rightarrow> inventoryPool list \<Rightarrow> (event \<times> inventoryPool list) result" where
  "create_ticket_types uuids n [] e pools = Inr (e, pools)"
| "create_ticket_types uuids n (dto # dtos) e pools =
     (let ttId = or_default (td_id dto) (uuids n) in
      rbind (new_Money (td_priceCents dto) (or_default (td_currency dto) ''USD'')) (\<lambda>price.
      rbind (addTicketType ttId (td_name dto) price (td_capacity dto) e) (\<lambda>(_, e').
      rbind (new_InventoryPool ttId (td_capacity dto)) (\<lambda>p.
        create_ticket_types uuids (Suc n) dtos e' (pools @ [p])))))"

definition build_event ::
    "(string \<Rightarrow> date option) \<Rightarrow> string \<Rightarrow> (nat \<Rightarrow> string) \<Rightarrow> createEventRequestDTO \<Rightarrow> (event \<times> inventoryPool list) result" where
  "build_event parse_date eventId uuids dto =
     rbind (new_TimeWindow (parse_date (cr_saleStartAt dto)) (parse_date (cr_saleEndAt dto))) (\<lambda>saleWindow.
     rbind (event_create eventId (cr_organizerId dto) (cr_title dto) saleWindow) (\<lambda>e.
       create_ticket_types uuids 0 (cr_ticketTypes dto) e []))"

definition create_event ::
    "uuid_reader \<Rightarrow> (string \<Rightarrow> date option) \<Rightarrow> string \<Rightarrow> (nat \<Rightarrow> string) \<Rightarrow> createEventRequestDTO \<Rightarrow> catalog_db \<Rightarrow>
     eventResponseDTO result \<times> catalog_db" where
  "create_event uuid_in parse_date eventId uuids dto db =
     (case build_event parse_date eventId uuids dto of
        Inl err \<Rightarrow> (Inl err, db)
      | Inr (e, pools) \<Rightarrow>
          (case save_event uuid_in e pools db of
             (Some err, db') \<Rightarrow> (Inl err, db')
           | (None, db') \<Rightarrow> (Inr (toDTO e), db')))"

definition get_event :: "uuid_reader \<Rightarrow> string \<Rightarrow> catalog_db \<Rightarrow> eventResponseDTO option result" where
  "get_event uuid_in i db = rbind (find_event uuid_in i db) (\<lambda>e. Inr (map_option toDTO e))"

definition status_transition :: "string \<Rightarrow> event \<Rightarrow> event result" where
  "status_transition targetStatus e =
     (if targetStatus = ''SCHEDULED'' then schedule e
      else if targetStatus = ''LIVE'' then publish e
      else if targetStatus = ''CANCELLED'' then cancel_event e
      else Inl (Error (''Invalid status transition target: '' @ targetStatus)))"

definition update_event_status ::
    "uuid_reader \<Rightarrow> string \<Rightarrow> string \<Rightarrow> catalog_db \<Rightarrow> eventResponseDTO option result \<times> catalog_db" where
  "update_event_status uuid_in i targetStatus db =
     (case find_event uuid_in i db of
        Inl err \<Rightarrow> (Inl err, db)
      | Inr None \<Rightarrow> (Inr None, db)
      | Inr (Some e) \<Rightarrow>
          if event_status_str (ev_status e) = targetStatus then (Inr (Some (toDTO e)), db)
          else case status_transition targetStatus e of
            Inl err \<Rightarrow> (Inl err, db)
          | Inr e' \<Rightarrow>
              (case updateStatus uuid_in e' db of
                 (Some err, db') \<Rightarrow> (Inl err, db')
               | (None, db') \<Rightarrow> (Inr (Some (toDTO e')), db')))"

section \<open>Statements that succeed\<close>

definition uuid_laws :: "uuid_reader \<Rightarrow> bool" where
  "uuid_laws uuid_in \<longleftrightarrow> (\<forall>s u. uuid_in s = Some u \<longrightarrow> uuid_in u = Some u \<and> \<not> blank u)"

lemma uuid_column_Inr [simp]: "uuid_column uuid_in s = Inr u \<longleftrightarrow> uuid_in s = Some u"
  by (simp add: uuid_column_def split: option.splits)

lemma checked_Inr [simp]: "checked ok x = Inr y \<longleftrightarrow> ok \<and> y = x"
  by (auto simp: checked_def)

lemma varchar_Inr:
  "varchar_column n s = Inr t \<longleftrightarrow> CHR 0x00 \<notin> set s \<and> (\<forall>c \<in> set (drop n s). c = CHR '' '') \<and> t = take n s"
  by (auto simp: varchar_column_def)

lemma varchar_blank: "varchar_column n s = Inr t \<Longrightarrow> blank t = blank s"
proof -
  assume "varchar_column n s = Inr t"
  then have t: "t = take n s" and sp: "\<forall>c \<in> set (drop n s). js_space c" by (auto simp: varchar_Inr js_space_def)
  have "set s = set (take n s) \<union> set (drop n s)" by (metis append_take_drop_id set_append)
  with t sp show ?thesis by (auto simp: blank_iff trim_eq_Nil_iff)
qed

lemma varchar_trimmed:
  assumes "varchar_column n s = Inr t" "trim s = s"
  shows "t = s"
proof (cases "drop n s = []")
  case True
  then show ?thesis using assms(1) by (simp add: varchar_Inr)
next
  case False
  then have s: "s \<noteq> []" by auto
  have "last s = CHR '' ''" using assms(1) False by (metis varchar_Inr last_drop last_in_set drop_eq_Nil not_le)
  moreover have "\<not> js_space (last s)"
  proof -
    have "rev (dropWhile js_space (rev (dropWhile js_space s))) = s" using assms(2) by (simp add: trim_def)
    then have "dropWhile js_space (rev (dropWhile js_space s)) = rev s" by (metis rev_rev_ident)
    then have "\<not> js_space (hd (rev s))" using s by (metis hd_dropWhile rev_is_Nil_conv)
    then show ?thesis using s by (simp add: hd_rev)
  qed
  ultimately show ?thesis by (simp add: js_space_def)
qed

lemma varchar_short: "varchar_column n s = Inr t \<Longrightarrow> length s \<le> n \<Longrightarrow> t = s"
  by (simp add: varchar_Inr)

section \<open>The invariant of the tables\<close>

definition ticket_row_ok :: "ticket_type_row \<Rightarrow> bool" where
  "ticket_row_ok r \<longleftrightarrow> \<not> blank (tr_id r) \<and> \<not> blank (tr_name r) \<and> 0 \<le> tr_price_cents r \<and>
     \<not> blank (tr_currency r) \<and> 0 < tr_capacity r"

definition event_row_ok :: "uuid_reader \<Rightarrow> catalog_db \<Rightarrow> string \<Rightarrow> event_row \<Rightarrow> bool" where
  "event_row_ok uuid_in db u row \<longleftrightarrow>
     er_id row = u \<and> uuid_in u = Some u \<and> \<not> blank u \<and> \<not> blank (er_organizer_id row) \<and> \<not> blank (er_title row) \<and>
     er_sale_start_at row < er_sale_end_at row \<and>
     (er_status row = ''DRAFT'' \<or> er_status row = ''CANCELLED'' \<or>
      (er_status row = ''SCHEDULED'' \<or> er_status row = ''LIVE'') \<and> rows_of u db \<noteq> [])"

definition catalog_ok :: "uuid_reader \<Rightarrow> catalog_db \<Rightarrow> bool" where
  "catalog_ok uuid_in db \<longleftrightarrow>
     (\<forall>u row. map_of (cdb_events db) u = Some row \<longrightarrow> event_row_ok uuid_in db u row) \<and>
     (\<forall>r \<in> set (cdb_ticket_types db). ticket_row_ok r \<and> map_of (cdb_events db) (tr_event_id r) \<noteq> None) \<and>
     distinct (map tr_id (cdb_ticket_types db)) \<and>
     (\<forall>u. map_of (cdb_pools db) u \<noteq> None \<longrightarrow> u \<in> set (map tr_id (cdb_ticket_types db)))"

text \<open>What a row and its ticket types load to.\<close>

definition ticket_of_row :: "string \<Rightarrow> ticket_type_row \<Rightarrow> ticketType" where
  "ticket_of_row u r = \<lparr>tt_id = tr_id r, tt_eventId = u, tt_name = trim (tr_name r),
     tt_price = \<lparr>amountCents = tr_price_cents r, currency = toUpperCase (tr_currency r)\<rparr>, tt_capacity = tr_capacity r\<rparr>"

definition status_of_str :: "string \<Rightarrow> EventStatus" where
  "status_of_str s = (if s = ''SCHEDULED'' then EventStatus.SCHEDULED else if s = ''LIVE'' then EventStatus.LIVE
     else if s = ''CANCELLED'' then EventStatus.CANCELLED else EventStatus.DRAFT)"

definition loaded_event :: "catalog_db \<Rightarrow> event_row \<Rightarrow> event" where
  "loaded_event db row =
     \<lparr>ev_id = er_id row, ev_organizerId = er_organizer_id row, ev_title = trim (er_title row),
      ev_saleWindow = \<lparr>startAt = er_sale_start_at row, endAt = er_sale_end_at row\<rparr>,
      ev_status = status_of_str (er_status row),
      ev_ticketTypes = map (\<lambda>r. (tr_id r, ticket_of_row (er_id row) r)) (rows_of (er_id row) db)\<rparr>"

lemma load_ticket_types_ok:
  assumes "\<forall>r \<in> set rs. ticket_row_ok r" "ev_status e = EventStatus.DRAFT"
  shows "load_ticket_types rs e = Inr (e\<lparr>ev_ticketTypes :=
    fold (\<lambda>r. AList.update (tr_id r) (ticket_of_row (ev_id e) r)) rs (ev_ticketTypes e)\<rparr>)"
  using assms
proof (induction rs arbitrary: e)
  case Nil
  then show ?case by simp
next
  case (Cons r rs)
  have "new_Money (JInt (tr_price_cents r)) (tr_currency r) =
      Inr \<lparr>amountCents = tr_price_cents r, currency = toUpperCase (tr_currency r)\<rparr>"
    and "addTicketType (tr_id r) (tr_name r) \<lparr>amountCents = tr_price_cents r, currency = toUpperCase (tr_currency r)\<rparr>
        (JInt (tr_capacity r)) e =
      Inr (ticket_of_row (ev_id e) r, e\<lparr>ev_ticketTypes := AList.update (tr_id r) (ticket_of_row (ev_id e) r) (ev_ticketTypes e)\<rparr>)"
    using Cons.prems by (simp_all add: ctor_defs op_defs ticket_row_ok_def ticket_of_row_def)
  with Cons show ?case by simp
qed

lemma load_status_ok:
  assumes "ev_status e = EventStatus.DRAFT"
    and "s = ''DRAFT'' \<or> s = ''CANCELLED'' \<or> (s = ''SCHEDULED'' \<or> s = ''LIVE'') \<and> ev_ticketTypes e \<noteq> []"
  shows "load_status s e = Inr (e\<lparr>ev_status := status_of_str s\<rparr>)"
  using assms by (cases e) (auto simp: load_status_def status_of_str_def op_defs)

lemma find_event_row:
  assumes "catalog_ok uuid_in db" "uuid_in i = Some u"
  shows "find_event uuid_in i db = Inr (map_option (loaded_event db) (map_of (cdb_events db) u))"
proof (cases "map_of (cdb_events db) u")
  case None
  then show ?thesis using assms(2) by (simp add: find_event_def uuid_column_def)
next
  case (Some row)
  have ok: "event_row_ok uuid_in db u row" using assms(1) Some by (simp add: catalog_ok_def)
  have rows: "\<forall>r \<in> set (rows_of u db). ticket_row_ok r" "distinct (map tr_id (rows_of u db))"
    using assms(1) by (auto simp: catalog_ok_def rows_of_def distinct_map_filter)
  have tts: "fold (\<lambda>r. AList.update (tr_id r) (ticket_of_row u r)) (rows_of u db) [] =
      map (\<lambda>r. (tr_id r, ticket_of_row u r)) (rows_of u db)"
    using fold_update_new [of "[]" tr_id "rows_of u db"] rows(2) by simp
  define e0 where "e0 = \<lparr>ev_id = u, ev_organizerId = er_organizer_id row, ev_title = trim (er_title row),
      ev_saleWindow = \<lparr>startAt = er_sale_start_at row, endAt = er_sale_end_at row\<rparr>,
      ev_status = EventStatus.DRAFT, ev_ticketTypes = []\<rparr>"
  have "event_create (er_id row) (er_organizer_id row) (er_title row)
      \<lparr>startAt = er_sale_start_at row, endAt = er_sale_end_at row\<rparr> = Inr e0"
    using ok by (simp add: ctor_defs event_row_ok_def e0_def)
  moreover have "load_ticket_types (rows_of u db) e0 =
      Inr (e0\<lparr>ev_ticketTypes := map (\<lambda>r. (tr_id r, ticket_of_row u r)) (rows_of u db)\<rparr>)"
    using load_ticket_types_ok [OF rows(1), of e0] tts by (simp add: e0_def)
  moreover have "load_status (er_status row) (e0\<lparr>ev_ticketTypes := map (\<lambda>r. (tr_id r, ticket_of_row u r)) (rows_of u db)\<rparr>) =
      Inr (loaded_event db row)"
    using ok by (subst load_status_ok) (auto simp: e0_def event_row_ok_def loaded_event_def)
  ultimately show ?thesis
    using Some assms(2) ok by (simp add: find_event_def uuid_column_def event_row_ok_def)
qed

lemma wf_loaded_event:
  assumes "catalog_ok uuid_in db" "map_of (cdb_events db) u = Some row"
  shows "wf_event (loaded_event db row)"
proof -
  have ok: "event_row_ok uuid_in db u row" using assms by (simp add: catalog_ok_def)
  have "\<forall>r \<in> set (rows_of u db). ticket_row_ok r" "distinct (map tr_id (rows_of u db))"
    using assms(1) by (auto simp: catalog_ok_def rows_of_def distinct_map_filter)
  then show ?thesis
    using ok by (auto simp: wf_event_def loaded_event_def event_row_ok_def wf_timeWindow_def status_of_str_def
        wf_ticketType_def ticket_of_row_def ticket_row_ok_def wf_money_def comp_def)
qed

section \<open>Every operation keeps the invariant\<close>

lemma each_statement_keeps:
  assumes "\<And>x db db'. x \<in> set xs \<Longrightarrow> P db \<Longrightarrow> stmt x db = Inr db' \<Longrightarrow> P db'"
    and "P db" "each_statement stmt xs db = Inr db'"
  shows "P db'"
  using assms
proof (induction xs arbitrary: db)
  case Nil
  then show ?case by simp
next
  case (Cons x xs)
  then obtain db1 where "stmt x db = Inr db1" "each_statement stmt xs db1 = Inr db'" by auto
  with Cons show ?case by (metis list.set_intros)
qed

text \<open>Rows are added and never taken away, so a row that is fine stays so.\<close>

lemma event_row_ok_mono:
  "event_row_ok uuid_in db u row \<Longrightarrow> (rows_of u db \<noteq> [] \<Longrightarrow> rows_of u db' \<noteq> []) \<Longrightarrow> event_row_ok uuid_in db' u row"
  by (auto simp: event_row_ok_def)

lemma upsert_keeps:
  assumes ok: "catalog_ok uuid_in db" and laws: "uuid_laws uuid_in"
    and e: "wf_event e" "ev_status e = EventStatus.DRAFT" and up: "upsert_event uuid_in e db = Inr db'"
  shows "catalog_ok uuid_in db'"
proof -
  obtain u org title status where c: "uuid_in (ev_id e) = Some u" "varchar_column 255 (ev_organizerId e) = Inr org"
    "varchar_column 255 (ev_title e) = Inr title" "varchar_column 50 (event_status_str (ev_status e)) = Inr status"
    using up by (auto simp: upsert_event_def)
  have status: "status = ''DRAFT''" using c(4) e(2) by (simp add: varchar_Inr)
  have nb: "\<not> blank org" "\<not> blank title" using e(1) varchar_blank [OF c(2)] varchar_blank [OF c(3)] by (auto simp: wf_event_def)
  have u: "uuid_in u = Some u" "\<not> blank u" using laws c(1) by (auto simp: uuid_laws_def)
  obtain row where db': "db' = db\<lparr>cdb_events := AList.update u row (cdb_events db)\<rparr>"
    and row: "row = (case map_of (cdb_events db) u of
             None \<Rightarrow> \<lparr>er_id = u, er_organizer_id = org, er_title = title, er_status = status,
               er_sale_start_at = startAt (ev_saleWindow e), er_sale_end_at = endAt (ev_saleWindow e)\<rparr>
           | Some old \<Rightarrow> old\<lparr>er_title := title, er_status := status,
               er_sale_start_at := startAt (ev_saleWindow e), er_sale_end_at := endAt (ev_saleWindow e)\<rparr>)"
    using up c by (auto simp: upsert_event_def Let_def)
  have rows: "rows_of v db' = rows_of v db" for v by (simp add: db' rows_of_def)
  have "event_row_ok uuid_in db' u row"
    using ok nb u status e(1) unfolding row catalog_ok_def
    by (auto simp: event_row_ok_def wf_event_def wf_timeWindow_def split: option.splits)
  then show ?thesis
    using ok unfolding catalog_ok_def
    by (auto simp: db' intro: event_row_ok_mono [where db = db] simp: rows [unfolded db'])
qed

lemma insert_ticket_type_keeps:
  assumes ok: "catalog_ok uuid_in db" and laws: "uuid_laws uuid_in"
    and tt: "wf_ticketType eid tt" and ins: "insert_ticket_type uuid_in tt db = Inr db'"
  shows "catalog_ok uuid_in db'"
proof (cases "db' = db")
  case True
  then show ?thesis using ok by simp
next
  case False
  then obtain u v vrow name cur where c: "uuid_in (tt_id tt) = Some u" "varchar_column 255 (tt_name tt) = Inr name"
    "varchar_column 10 (currency (tt_price tt)) = Inr cur" "u \<notin> set (map tr_id (cdb_ticket_types db))"
    "map_of (cdb_events db) v = Some vrow" "uuid_in (tt_eventId tt) = Some v"
    and db': "db' = db\<lparr>cdb_ticket_types := cdb_ticket_types db @ [\<lparr>tr_id = u, tr_event_id = v, tr_name = name,
      tr_price_cents = amountCents (tt_price tt), tr_currency = cur, tr_capacity = tt_capacity tt\<rparr>]\<rparr>"
    using ins by (auto simp: insert_ticket_type_def split: if_splits)
  have "\<not> blank u" using laws c(1) by (auto simp: uuid_laws_def)
  moreover have "\<not> blank name" "\<not> blank cur"
    using tt varchar_blank [OF c(2)] varchar_blank [OF c(3)] by (auto simp: wf_ticketType_def wf_money_def)
  moreover have "0 \<le> amountCents (tt_price tt)" "0 < tt_capacity tt" using tt by (auto simp: wf_ticketType_def wf_money_def)
  moreover have "rows_of w db \<noteq> [] \<Longrightarrow> rows_of w db' \<noteq> []" for w by (simp add: db' rows_of_def)
  ultimately show ?thesis
    using ok c(4,5) event_row_ok_mono [of uuid_in db _ _ db'] unfolding catalog_ok_def
    by (auto simp: db' ticket_row_ok_def)
qed

lemma insert_pool_keeps:
  assumes "catalog_ok uuid_in db" "insert_pool uuid_in p db = Inr db'"
  shows "catalog_ok uuid_in db'"
proof -
  have "cdb_events db' = cdb_events db" "cdb_ticket_types db' = cdb_ticket_types db"
    and "\<forall>u. map_of (cdb_pools db') u \<noteq> None \<longrightarrow> map_of (cdb_pools db) u \<noteq> None \<or> u \<in> set (map tr_id (cdb_ticket_types db))"
    using assms(2) by (auto simp: insert_pool_def Let_def split: if_splits)
  then show ?thesis using assms(1) by (auto simp: catalog_ok_def event_row_ok_def rows_of_def)
qed

lemma save_event_keeps:
  assumes "catalog_ok uuid_in db" "uuid_laws uuid_in" "wf_event e" "ev_status e = EventStatus.DRAFT"
  shows "catalog_ok uuid_in (snd (save_event uuid_in e pools db))"
proof -
  have "catalog_ok uuid_in db'" if run: "rbind (upsert_event uuid_in e db) (\<lambda>db1.
      rbind (each_statement (insert_ticket_type uuid_in) (ticketTypes_of e) db1)
        (each_statement (insert_pool uuid_in) pools)) = Inr db'" for db'
  proof -
    from run obtain db1 db2 where s: "upsert_event uuid_in e db = Inr db1"
      "each_statement (insert_ticket_type uuid_in) (ticketTypes_of e) db1 = Inr db2"
      "each_statement (insert_pool uuid_in) pools db2 = Inr db'" by auto
    have "catalog_ok uuid_in db1" using assms s(1) upsert_keeps by blast
    moreover have "wf_ticketType (ev_id e) tt" if "tt \<in> set (ticketTypes_of e)" for tt
      using assms(3) that by (auto simp: wf_event_def ticketTypes_of_def)
    ultimately have "catalog_ok uuid_in db2"
      using s(2) assms(2) by (auto intro: each_statement_keeps [where P = "catalog_ok uuid_in"] insert_ticket_type_keeps)
    then show ?thesis using s(3) insert_pool_keeps by (rule each_statement_keeps [where P = "catalog_ok uuid_in", rotated])
  qed
  then show ?thesis using assms(1) by (auto simp: save_event_def split: sum.splits)
qed

text \<open>What the request loop builds is a well-formed draft.\<close>

lemma create_ticket_types_wf:
  assumes "create_ticket_types uuids n dtos e pools = Inr (e', pools')" "wf_event e" "ev_status e = EventStatus.DRAFT"
  shows "wf_event e' \<and> ev_status e' = EventStatus.DRAFT \<and> ev_id e' = ev_id e \<and> ev_organizerId e' = ev_organizerId e"
  using assms
proof (induction dtos arbitrary: n e pools)
  case Nil
  then show ?case by simp
next
  case (Cons dto dtos)
  obtain price tt e1 p where s: "new_Money (td_priceCents dto) (or_default (td_currency dto) ''USD'') = Inr price"
    "addTicketType (or_default (td_id dto) (uuids n)) (td_name dto) price (td_capacity dto) e = Inr (tt, e1)"
    "create_ticket_types uuids (Suc n) dtos e1 (pools @ [p]) = Inr (e', pools')"
    using Cons.prems(1) by (simp add: Let_def del: new_Money_Inr) blast
  have "wf_event e1" using addTicketType_wf [OF Cons.prems(2) new_Money_wf [OF s(1)] s(2)] .
  moreover have "ev_status e1 = EventStatus.DRAFT" "ev_id e1 = ev_id e" "ev_organizerId e1 = ev_organizerId e"
    using s(2) Cons.prems(3) by (auto simp: op_defs split: if_splits)
  ultimately show ?case using Cons.IH [OF s(3)] by simp
qed

lemma build_event_wf:
  assumes "build_event parse_date eventId uuids dto = Inr (e, pools)"
  shows "wf_event e" "ev_status e = EventStatus.DRAFT" "ev_id e = eventId" "ev_organizerId e = cr_organizerId dto"
proof -
  obtain w e0 where s: "new_TimeWindow (parse_date (cr_saleStartAt dto)) (parse_date (cr_saleEndAt dto)) = Inr w"
    "event_create eventId (cr_organizerId dto) (cr_title dto) w = Inr e0"
    "create_ticket_types uuids 0 (cr_ticketTypes dto) e0 [] = Inr (e, pools)"
    using assms by (auto simp: build_event_def)
  have "wf_event e0" using s(1,2) by (intro event_create_wf) (auto simp: new_TimeWindow_Inr wf_timeWindow_def)
  moreover have "ev_status e0 = EventStatus.DRAFT" "ev_id e0 = eventId" "ev_organizerId e0 = cr_organizerId dto"
    using s(2) by (auto simp: ctor_defs split: if_splits)
  ultimately show "wf_event e" "ev_status e = EventStatus.DRAFT" "ev_id e = eventId" "ev_organizerId e = cr_organizerId dto"
    using create_ticket_types_wf [OF s(3)] by simp_all
qed

lemma create_event_keeps:
  assumes "catalog_ok uuid_in db" "uuid_laws uuid_in"
  shows "catalog_ok uuid_in (snd (create_event uuid_in parse_date eventId uuids dto db))"
proof (cases "build_event parse_date eventId uuids dto")
  case (Inl err)
  then show ?thesis using assms by (simp add: create_event_def)
next
  case (Inr x)
  obtain e pools where x: "x = (e, pools)" by fastforce
  have "catalog_ok uuid_in (snd (save_event uuid_in e pools db))"
    using save_event_keeps [OF assms build_event_wf(1,2)] Inr x by blast
  with Inr x show ?thesis by (auto simp: create_event_def split: prod.splits option.splits)
qed

section \<open>Status updates\<close>

definition set_status :: "string \<Rightarrow> event_row \<Rightarrow> EventStatus \<Rightarrow> catalog_db \<Rightarrow> catalog_db" where
  "set_status u row st db =
     db\<lparr>cdb_events := AList.update u (row\<lparr>er_status := event_status_str st\<rparr>) (cdb_events db)\<rparr>"

lemma updateStatus_row:
  assumes "uuid_in (ev_id e) = Some u" "map_of (cdb_events db) u = Some row"
  shows "updateStatus uuid_in e db = (None, set_status u row (ev_status e) db)"
proof -
  have "varchar_column 50 (event_status_str (ev_status e)) = Inr (event_status_str (ev_status e))"
    by (cases "ev_status e") (simp_all add: varchar_column_def)
  then show ?thesis using assms by (simp add: updateStatus_def set_status_def uuid_column_def)
qed

lemma row_status_str: "event_row_ok uuid_in db u row \<Longrightarrow> event_status_str (ev_status (loaded_event db row)) = er_status row"
  by (auto simp: event_row_ok_def loaded_event_def status_of_str_def)

text \<open>The transitions of a stored event.\<close>

definition allowed_change :: "string \<Rightarrow> string \<Rightarrow> bool \<Rightarrow> bool" where
  "allowed_change from target hasTickets \<longleftrightarrow>
     target = ''SCHEDULED'' \<and> from = ''DRAFT'' \<and> hasTickets \<or>
     target = ''LIVE'' \<and> (from = ''DRAFT'' \<or> from = ''SCHEDULED'') \<and> hasTickets \<or>
     target = ''CANCELLED'' \<and> (from = ''DRAFT'' \<or> from = ''SCHEDULED'' \<or> from = ''LIVE'')"

lemma status_transition_loaded:
  assumes "event_row_ok uuid_in db u row" "er_status row \<noteq> target"
  shows "if allowed_change (er_status row) target (rows_of u db \<noteq> [])
    then status_transition target (loaded_event db row) = Inr (loaded_event db row\<lparr>ev_status := status_of_str target\<rparr>)
    else \<exists>err. status_transition target (loaded_event db row) = Inl err"
  using assms
  by (auto simp: allowed_change_def status_transition_def op_defs loaded_event_def event_row_ok_def status_of_str_def)

lemma set_status_keeps:
  assumes "catalog_ok uuid_in db" "map_of (cdb_events db) u = Some row"
    and "st = EventStatus.CANCELLED \<or> (st = EventStatus.SCHEDULED \<or> st = EventStatus.LIVE) \<and> rows_of u db \<noteq> []"
  shows "catalog_ok uuid_in (set_status u row st db)"
proof -
  have rows: "rows_of v (set_status u row st db) = rows_of v db" for v by (simp add: set_status_def rows_of_def)
  have "event_row_ok uuid_in (set_status u row st db) u (row\<lparr>er_status := event_status_str st\<rparr>)"
    using assms unfolding catalog_ok_def event_row_ok_def rows by auto
  then show ?thesis
    using assms(1) event_row_ok_mono [of uuid_in db _ _ "set_status u row st db", unfolded rows]
    unfolding catalog_ok_def by (auto simp: set_status_def)
qed

lemma update_status_run:
  assumes ok: "catalog_ok uuid_in db" and i: "uuid_in i = Some u" and row: "map_of (cdb_events db) u = Some row"
  shows "if er_status row = target then update_event_status uuid_in i target db = (Inr (Some (toDTO (loaded_event db row))), db)
    else if allowed_change (er_status row) target (rows_of u db \<noteq> [])
    then update_event_status uuid_in i target db =
      (Inr (Some (toDTO (loaded_event db row\<lparr>ev_status := status_of_str target\<rparr>))), set_status u row (status_of_str target) db)
    else (\<exists>err. update_event_status uuid_in i target db = (Inl err, db))"
proof -
  have rok: "event_row_ok uuid_in db u row" using ok row by (simp add: catalog_ok_def)
  have f: "find_event uuid_in i db = Inr (Some (loaded_event db row))" using find_event_row [OF ok i] row by simp
  have "updateStatus uuid_in (loaded_event db row\<lparr>ev_status := st\<rparr>) db = (None, set_status u row st db)" for st
    using rok row by (subst updateStatus_row) (auto simp: event_row_ok_def loaded_event_def)
  then show ?thesis
    using status_transition_loaded [OF rok, of target] f row_status_str [OF rok]
    by (auto simp: update_event_status_def split: if_splits)
qed

lemma update_status_keeps:
  assumes "catalog_ok uuid_in db"
  shows "catalog_ok uuid_in (snd (update_event_status uuid_in i target db))"
proof (cases "uuid_in i")
  case None
  then show ?thesis using assms by (simp add: update_event_status_def find_event_def uuid_column_def)
next
  case (Some u)
  show ?thesis
  proof (cases "map_of (cdb_events db) u")
    case None
    then show ?thesis using assms find_event_row [OF assms Some] by (simp add: update_event_status_def)
  next
    case row: (Some row)
    have "catalog_ok uuid_in (set_status u row (status_of_str target) db)"
      if "allowed_change (er_status row) target (rows_of u db \<noteq> [])"
      using set_status_keeps [OF assms row] that by (auto simp: allowed_change_def status_of_str_def)
    then show ?thesis using update_status_run [OF assms Some row, of target] assms by (auto split: if_splits)
  qed
qed

text \<open>Any sequence of the use cases.\<close>

datatype catalog_op = CreateEvent string "nat \<Rightarrow> string" createEventRequestDTO | UpdateEventStatus string string

fun catalog_step :: "uuid_reader \<Rightarrow> (string \<Rightarrow> date option) \<Rightarrow> catalog_op \<Rightarrow> catalog_db \<Rightarrow> catalog_db" where
  "catalog_step uuid_in parse_date (CreateEvent eventId uuids dto) db = snd (create_event uuid_in parse_date eventId uuids dto db)"
| "catalog_step uuid_in parse_date (UpdateEventStatus i target) db = snd (update_event_status uuid_in i target db)"

interpretation catalog: invariant_steps "catalog_step uuid_in parse_date" "\<lambda>db. uuid_laws uuid_in \<longrightarrow> catalog_ok uuid_in db"
  for uuid_in parse_date
proof unfold_locales
  fix db a
  assume "uuid_laws uuid_in \<longrightarrow> catalog_ok uuid_in db"
  then show "uuid_laws uuid_in \<longrightarrow> catalog_ok uuid_in (catalog_step uuid_in parse_date a db)"
    by (cases a) (auto intro: create_event_keeps update_status_keeps)
qed

definition empty_catalog :: catalog_db where
  "empty_catalog = \<lparr>cdb_events = [], cdb_ticket_types = [], cdb_pools = []\<rparr>"

lemma catalog_ok_empty: "catalog_ok uuid_in empty_catalog"
  by (simp add: catalog_ok_def empty_catalog_def)

end
