(* ===== verification/LP_EventUseCases.thy ===== *)
theory LP_EventUseCases
  imports LP_EventStore
begin

text \<open>
  The properties of the event use cases: what was created is what is served, every stored
  event loads, and a status update does exactly what the life cycle allows. Also what goes
  wrong when a client chooses identifiers that are in use, or repeats one.
\<close>

section \<open>Saving a new event\<close>

definition row_of_ticket :: "ticketType \<Rightarrow> ticket_type_row" where
  "row_of_ticket tt = \<lparr>tr_id = tt_id tt, tr_event_id = tt_eventId tt, tr_name = tt_name tt,
     tr_price_cents = amountCents (tt_price tt), tr_currency = currency (tt_price tt), tr_capacity = tt_capacity tt\<rparr>"

lemma ticket_of_row_of_ticket: "wf_ticketType eid tt \<Longrightarrow> ticket_of_row eid (row_of_ticket tt) = tt"
  by (cases tt) (auto simp: ticket_of_row_def row_of_ticket_def wf_ticketType_def wf_money_def)

text \<open>Identifiers in the spelling the database prints, and a currency that fits its column.\<close>

definition storable :: "uuid_reader \<Rightarrow> ticketType \<Rightarrow> bool" where
  "storable uuid_in tt \<longleftrightarrow> uuid_in (tt_id tt) = Some (tt_id tt) \<and> length (currency (tt_price tt)) \<le> 10"

lemma insert_new_ticket:
  assumes "insert_ticket_type uuid_in tt db = Inr db'" "storable uuid_in tt" "wf_ticketType eid tt"
    and "uuid_in eid = Some eid" "tt_id tt \<notin> set (map tr_id (cdb_ticket_types db))"
  shows "db' = db\<lparr>cdb_ticket_types := cdb_ticket_types db @ [row_of_ticket tt]\<rparr>"
proof -
  have eid: "tt_eventId tt = eid" "trim (tt_name tt) = tt_name tt" using assms(3) by (auto simp: wf_ticketType_def)
  obtain name cur where c: "varchar_column 255 (tt_name tt) = Inr name" "varchar_column 10 (currency (tt_price tt)) = Inr cur"
    and db': "db' = db\<lparr>cdb_ticket_types := cdb_ticket_types db @ [\<lparr>tr_id = tt_id tt, tr_event_id = eid, tr_name = name,
      tr_price_cents = amountCents (tt_price tt), tr_currency = cur, tr_capacity = tt_capacity tt\<rparr>]\<rparr>"
    using assms eid by (auto simp: insert_ticket_type_def storable_def)
  have "name = tt_name tt" "cur = currency (tt_price tt)"
    using varchar_trimmed [OF c(1)] varchar_short [OF c(2)] eid(2) assms(2) by (auto simp: storable_def)
  with db' eid show ?thesis by (simp add: row_of_ticket_def)
qed

lemma insert_new_tickets:
  assumes "each_statement (insert_ticket_type uuid_in) tts db = Inr db'" "uuid_in eid = Some eid"
    and "\<forall>tt \<in> set tts. storable uuid_in tt \<and> wf_ticketType eid tt"
    and "distinct (map tr_id (cdb_ticket_types db) @ map tt_id tts)"
  shows "db' = db\<lparr>cdb_ticket_types := cdb_ticket_types db @ map row_of_ticket tts\<rparr>"
  using assms
proof (induction tts arbitrary: db)
  case Nil
  then show ?case by simp
next
  case (Cons tt tts)
  then obtain db1 where s: "insert_ticket_type uuid_in tt db = Inr db1"
    "each_statement (insert_ticket_type uuid_in) tts db1 = Inr db'" by auto
  have db1: "db1 = db\<lparr>cdb_ticket_types := cdb_ticket_types db @ [row_of_ticket tt]\<rparr>"
    using insert_new_ticket [OF s(1)] Cons.prems by auto
  have "db' = db1\<lparr>cdb_ticket_types := cdb_ticket_types db1 @ map row_of_ticket tts\<rparr>"
    using Cons.IH [OF s(2)] Cons.prems by (auto simp: db1 row_of_ticket_def)
  then show ?case by (simp add: db1)
qed

definition row_of_pool :: "inventoryPool \<Rightarrow> pool_row" where
  "row_of_pool p = \<lparr>pr_total = totalCapacity p, pr_available = availableQuantity p, pr_reserved = reservedQuantity p,
     pr_sold = soldQuantity p\<rparr>"

lemma insert_new_pools:
  assumes "each_statement (insert_pool uuid_in) ps db = Inr db'"
    and "\<forall>p \<in> set ps. uuid_in (pool_ticketTypeId p) = Some (pool_ticketTypeId p)"
    and "distinct (map pool_ticketTypeId ps)" "\<forall>p \<in> set ps. map_of (cdb_pools db) (pool_ticketTypeId p) = None"
  shows "cdb_events db' = cdb_events db \<and> cdb_ticket_types db' = cdb_ticket_types db \<and>
    (\<forall>u. map_of (cdb_pools db') u = (case find (\<lambda>p. pool_ticketTypeId p = u) ps of
       Some p \<Rightarrow> Some (row_of_pool p) | None \<Rightarrow> map_of (cdb_pools db) u))"
  using assms
proof (induction ps arbitrary: db)
  case Nil
  then show ?case by simp
next
  case (Cons p ps)
  then obtain db1 where s: "insert_pool uuid_in p db = Inr db1" "each_statement (insert_pool uuid_in) ps db1 = Inr db'" by auto
  have db1: "db1 = db\<lparr>cdb_pools := AList.update (pool_ticketTypeId p) (row_of_pool p) (cdb_pools db)\<rparr>"
    using s(1) Cons.prems by (auto simp: insert_pool_def Let_def row_of_pool_def)
  have IH: "cdb_events db' = cdb_events db1 \<and> cdb_ticket_types db' = cdb_ticket_types db1 \<and>
    (\<forall>u. map_of (cdb_pools db') u = (case find (\<lambda>p. pool_ticketTypeId p = u) ps of
       Some p \<Rightarrow> Some (row_of_pool p) | None \<Rightarrow> map_of (cdb_pools db1) u))"
    by (rule Cons.IH [OF s(2)]) (use Cons.prems in \<open>auto simp: db1 intro: rev_image_eqI\<close>)
  have "find (\<lambda>q. pool_ticketTypeId q = pool_ticketTypeId p) ps = None"
    using Cons.prems(3) by (auto simp: find_None_iff intro: rev_image_eqI)
  with IH show ?case by (auto simp: db1 split: option.splits)
qed

lemma upsert_new:
  assumes "upsert_event uuid_in e db = Inr db'" "wf_event e" "uuid_in (ev_id e) = Some (ev_id e)"
    and "map_of (cdb_events db) (ev_id e) = None" "length (ev_organizerId e) \<le> 255"
  shows "db' = db\<lparr>cdb_events := AList.update (ev_id e) \<lparr>er_id = ev_id e, er_organizer_id = ev_organizerId e,
    er_title = ev_title e, er_status = event_status_str (ev_status e), er_sale_start_at = startAt (ev_saleWindow e),
    er_sale_end_at = endAt (ev_saleWindow e)\<rparr> (cdb_events db)\<rparr>"
proof -
  obtain org title status where c: "varchar_column 255 (ev_organizerId e) = Inr org"
    "varchar_column 255 (ev_title e) = Inr title" "varchar_column 50 (event_status_str (ev_status e)) = Inr status"
    using assms(1) by (auto simp: upsert_event_def)
  have "org = ev_organizerId e" "title = ev_title e"
    using varchar_short [OF c(1) assms(5)] varchar_trimmed [OF c(2)] assms(2) by (auto simp: wf_event_def)
  moreover have "length (event_status_str (ev_status e)) \<le> 50" by (cases "ev_status e") simp_all
  then have "status = event_status_str (ev_status e)" using varchar_short [OF c(3)] by simp
  ultimately have "org = ev_organizerId e" "title = ev_title e" "status = event_status_str (ev_status e)" by simp_all
  then show ?thesis using assms(1,3,4) c by (auto simp: upsert_event_def)
qed

lemma status_of_str_str: "st \<noteq> EventStatus.ENDED \<Longrightarrow> status_of_str (event_status_str st) = st"
  by (cases st) (simp_all add: status_of_str_def)

text \<open>A new event that was saved is found again, as it was, and no other event changed.\<close>

lemma saved_event_found:
  assumes ok: "catalog_ok uuid_in db" and laws: "uuid_laws uuid_in"
    and e: "wf_event e" "ev_status e = EventStatus.DRAFT" "uuid_in (ev_id e) = Some (ev_id e)" "length (ev_organizerId e) \<le> 255"
    and new: "map_of (cdb_events db) (ev_id e) = None"
    and tts: "\<forall>tt \<in> set (ticketTypes_of e). storable uuid_in tt"
    and fresh: "distinct (map tr_id (cdb_ticket_types db) @ map tt_id (ticketTypes_of e))"
    and pools: "\<forall>p \<in> set pools. uuid_in (pool_ticketTypeId p) = Some (pool_ticketTypeId p)"
      "distinct (map pool_ticketTypeId pools)" "\<forall>p \<in> set pools. map_of (cdb_pools db) (pool_ticketTypeId p) = None"
    and save: "save_event uuid_in e pools db = (None, db')"
  shows "find_event uuid_in (ev_id e) db' = Inr (Some e) \<and>
    (\<forall>i u. uuid_in i = Some u \<and> u \<noteq> ev_id e \<longrightarrow> find_event uuid_in i db' = find_event uuid_in i db) \<and>
    (\<forall>p \<in> set pools. map_of (cdb_pools db') (pool_ticketTypeId p) = Some (row_of_pool p))"
proof -
  obtain db1 db2 where s: "upsert_event uuid_in e db = Inr db1"
    "each_statement (insert_ticket_type uuid_in) (ticketTypes_of e) db1 = Inr db2"
    "each_statement (insert_pool uuid_in) pools db2 = Inr db'"
    using save by (auto simp: save_event_def split: sum.splits)
  note db1 = upsert_new [OF s(1) e(1,3) new e(4)]
  have wf: "\<forall>tt \<in> set (ticketTypes_of e). wf_ticketType (ev_id e) tt"
    using e(1) by (auto simp: wf_event_def ticketTypes_of_def)
  have db2: "db2 = db1\<lparr>cdb_ticket_types := cdb_ticket_types db1 @ map row_of_ticket (ticketTypes_of e)\<rparr>"
    by (rule insert_new_tickets [OF s(2) e(3)]) (use tts wf fresh db1 in auto)
  have p: "cdb_events db' = cdb_events db2 \<and> cdb_ticket_types db' = cdb_ticket_types db2 \<and>
    (\<forall>u. map_of (cdb_pools db') u = (case find (\<lambda>p. pool_ticketTypeId p = u) pools of
       Some p \<Rightarrow> Some (row_of_pool p) | None \<Rightarrow> map_of (cdb_pools db2) u))"
    by (rule insert_new_pools [OF s(3) pools(1,2)]) (use pools(3) db1 db2 in auto)
  have ok': "catalog_ok uuid_in db'" using save_event_keeps [OF ok laws e(1,2), of pools] save by simp
  have own: "rows_of (ev_id e) db' = map row_of_ticket (ticketTypes_of e)"
    and other: "u \<noteq> ev_id e \<Longrightarrow> rows_of u db' = rows_of u db" for u
  proof -
    have "\<forall>r \<in> set (cdb_ticket_types db). tr_event_id r \<noteq> ev_id e" using ok new by (auto simp: catalog_ok_def)
    then have "filter (\<lambda>r. tr_event_id r = ev_id e) (cdb_ticket_types db) = []" by (simp add: filter_empty_conv)
    moreover have "\<forall>tt \<in> set (ticketTypes_of e). tt_eventId tt = ev_id e" using wf by (auto simp: wf_ticketType_def)
    ultimately show "rows_of (ev_id e) db' = map row_of_ticket (ticketTypes_of e)"
      and "u \<noteq> ev_id e \<Longrightarrow> rows_of u db' = rows_of u db"
      using p by (auto simp: rows_of_def db1 db2 row_of_ticket_def filter_map comp_def filter_empty_conv intro!: filter_True)
  qed
  have "map (\<lambda>r. (tr_id r, ticket_of_row (ev_id e) r)) (map row_of_ticket (ticketTypes_of e)) = ev_ticketTypes e"
  proof -
    have "(tr_id (row_of_ticket (snd x)), ticket_of_row (ev_id e) (row_of_ticket (snd x))) = x" if "x \<in> set (ev_ticketTypes e)" for x
    proof -
      have "fst x = tt_id (snd x)" "wf_ticketType (ev_id e) (snd x)" using e(1) that by (auto simp: wf_event_def)
      then show ?thesis using ticket_of_row_of_ticket by (cases x) (auto simp: row_of_ticket_def)
    qed
    then show ?thesis by (auto simp: ticketTypes_of_def comp_def intro: map_idI)
  qed
  then have "find_event uuid_in (ev_id e) db' = Inr (Some e)"
    using find_event_row [OF ok' e(3)] p own e(1,2)
    by (cases e) (auto simp: db1 db2 loaded_event_def status_of_str_def wf_event_def)
  moreover have "find_event uuid_in i db' = find_event uuid_in i db" if "uuid_in i = Some u" "u \<noteq> ev_id e" for i u
  proof (cases "map_of (cdb_events db) u")
    case None
    with that show ?thesis using find_event_row [OF ok' that(1)] find_event_row [OF ok that(1)] p by (simp add: db1 db2)
  next
    case (Some row)
    then have "er_id row = u" using ok by (auto simp: catalog_ok_def event_row_ok_def)
    with that Some show ?thesis
      using find_event_row [OF ok' that(1)] find_event_row [OF ok that(1)] p other by (simp add: db1 db2 loaded_event_def)
  qed
  moreover have "map_of (cdb_pools db') (pool_ticketTypeId q) = Some (row_of_pool q)" if "q \<in> set pools" for q
  proof -
    have "find (\<lambda>p. pool_ticketTypeId p = pool_ticketTypeId q) pools = Some q"
      using that pools(2) by (induction pools) auto
    with p show ?thesis by simp
  qed
  ultimately show ?thesis by blast
qed

section \<open>Building an event from a request\<close>

fun requested_ids :: "(nat \<Rightarrow> string) \<Rightarrow> nat \<Rightarrow> ticketTypeDTO list \<Rightarrow> string list" where
  "requested_ids uuids n [] = []"
| "requested_ids uuids n (dto # dtos) = or_default (td_id dto) (uuids n) # requested_ids uuids (Suc n) dtos"

definition pool_of_ticket :: "ticketType \<Rightarrow> inventoryPool" where
  "pool_of_ticket tt = \<lparr>pool_ticketTypeId = tt_id tt, totalCapacity = tt_capacity tt, availableQuantity = tt_capacity tt,
     reservedQuantity = 0, soldQuantity = 0\<rparr>"

lemma create_ticket_types_pools:
  assumes "create_ticket_types uuids n dtos e pools = Inr (e', pools')"
    and "distinct (map fst (ev_ticketTypes e) @ requested_ids uuids n dtos)" "pools = map pool_of_ticket (ticketTypes_of e)"
  shows "map fst (ev_ticketTypes e') = map fst (ev_ticketTypes e) @ requested_ids uuids n dtos \<and>
    pools' = map pool_of_ticket (ticketTypes_of e')"
  using assms
proof (induction dtos arbitrary: n e pools)
  case Nil
  then show ?case by auto
next
  case (Cons dto dtos)
  let ?i = "or_default (td_id dto) (uuids n)"
  obtain price tt e1 p where s: "addTicketType ?i (td_name dto) price (td_capacity dto) e = Inr (tt, e1)"
    "new_InventoryPool ?i (td_capacity dto) = Inr p" "create_ticket_types uuids (Suc n) dtos e1 (pools @ [p]) = Inr (e', pools')"
    using Cons.prems(1) by (auto simp: Let_def)
  have tt: "ev_ticketTypes e1 = ev_ticketTypes e @ [(?i, tt)]" "p = pool_of_ticket tt"
    using s(1,2) Cons.prems(2) AList_update_new [of ?i "ev_ticketTypes e" tt]
    by (auto simp: op_defs ctor_defs pool_of_ticket_def split: if_splits jsnum.splits)
  have "map fst (ev_ticketTypes e') = map fst (ev_ticketTypes e1) @ requested_ids uuids (Suc n) dtos \<and>
      pools' = map pool_of_ticket (ticketTypes_of e')"
    by (rule Cons.IH [OF s(3)]) (use Cons.prems(2,3) tt in \<open>auto simp: ticketTypes_of_def\<close>)
  then show ?case by (simp add: tt)
qed

lemma build_event_pools:
  assumes "build_event parse_date eventId uuids dto = Inr (e, pools)" "distinct (requested_ids uuids 0 (cr_ticketTypes dto))"
  shows "map tt_id (ticketTypes_of e) = requested_ids uuids 0 (cr_ticketTypes dto)" "pools = map pool_of_ticket (ticketTypes_of e)"
proof -
  obtain w e0 where s: "event_create eventId (cr_organizerId dto) (cr_title dto) w = Inr e0"
    "create_ticket_types uuids 0 (cr_ticketTypes dto) e0 [] = Inr (e, pools)"
    using assms(1) by (auto simp: build_event_def)
  have "ev_ticketTypes e0 = []" using s(1) by (auto simp: ctor_defs split: if_splits)
  then have "map fst (ev_ticketTypes e) = requested_ids uuids 0 (cr_ticketTypes dto) \<and> pools = map pool_of_ticket (ticketTypes_of e)"
    using create_ticket_types_pools [OF s(2)] assms(2) by (simp add: ticketTypes_of_def)
  moreover have "map fst (ev_ticketTypes e) = map tt_id (ticketTypes_of e)"
    using build_event_wf(1) [OF assms(1)] by (auto simp: wf_event_def ticketTypes_of_def)
  ultimately show "map tt_id (ticketTypes_of e) = requested_ids uuids 0 (cr_ticketTypes dto)"
    "pools = map pool_of_ticket (ticketTypes_of e)" by simp_all
qed

section \<open>What an operation leaves alone\<close>

text \<open>The answer for an identifier depends on its row and on its ticket types only.\<close>

lemma get_event_frame:
  assumes "catalog_ok uuid_in db" "catalog_ok uuid_in db'" "uuid_in j = Some v"
    and "map_of (cdb_events db') v = map_of (cdb_events db) v" "rows_of v db' = rows_of v db"
  shows "get_event uuid_in j db' = get_event uuid_in j db"
proof (cases "map_of (cdb_events db) v")
  case None
  with assms show ?thesis using find_event_row [OF assms(1,3)] find_event_row [OF assms(2,3)] by (simp add: get_event_def)
next
  case (Some row)
  then have "er_id row = v" using assms(1) by (auto simp: catalog_ok_def event_row_ok_def)
  with Some assms show ?thesis
    using find_event_row [OF assms(1,3)] find_event_row [OF assms(2,3)] by (simp add: get_event_def loaded_event_def)
qed

lemma rows_of_set_status [simp]: "rows_of v (set_status u row st db) = rows_of v db"
  by (simp add: set_status_def rows_of_def)

lemma get_event_set_status_other:
  assumes "catalog_ok uuid_in db" "catalog_ok uuid_in (set_status u row st db)" "uuid_in j = Some v" "v \<noteq> u"
  shows "get_event uuid_in j (set_status u row st db) = get_event uuid_in j db"
proof (rule get_event_frame [OF assms(1-3)])
  show "map_of (cdb_events (set_status u row st db)) v = map_of (cdb_events db) v" using assms(4) by (simp add: set_status_def)
qed simp

lemma get_event_set_status_same:
  assumes "catalog_ok uuid_in (set_status u row st db)" "uuid_in i = Some u" "st \<noteq> EventStatus.ENDED"
  shows "get_event uuid_in i (set_status u row st db) = Inr (Some (toDTO (loaded_event db row\<lparr>ev_status := st\<rparr>)))"
proof -
  have "loaded_event (set_status u row st db) (row\<lparr>er_status := event_status_str st\<rparr>) = loaded_event db row\<lparr>ev_status := st\<rparr>"
    using assms(3) by (simp add: loaded_event_def status_of_str_str)
  then show ?thesis using find_event_row [OF assms(1,2)] by (simp add: get_event_def set_status_def)
qed

lemma insert_ticket_type_frame:
  assumes "insert_ticket_type uuid_in tt db = Inr db'" "uuid_in (tt_eventId tt) = Some eid" "v \<noteq> eid"
  shows "rows_of v db' = rows_of v db \<and> cdb_events db' = cdb_events db"
  using assms by (auto simp: insert_ticket_type_def rows_of_def split: if_splits)

lemma save_event_frame:
  assumes "save_event uuid_in e pools db = (err, db')" "wf_event e" "uuid_in (ev_id e) = Some eid" "v \<noteq> eid"
  shows "rows_of v db' = rows_of v db \<and> map_of (cdb_events db') v = map_of (cdb_events db) v"
proof (cases err)
  case (Some _)
  then show ?thesis using assms(1) by (auto simp: save_event_def split: sum.splits)
next
  case None
  then obtain db1 db2 where s: "upsert_event uuid_in e db = Inr db1"
    "each_statement (insert_ticket_type uuid_in) (ticketTypes_of e) db1 = Inr db2"
    "each_statement (insert_pool uuid_in) pools db2 = Inr db'"
    using assms(1) by (auto simp: save_event_def split: sum.splits)
  let ?P = "\<lambda>d d'. rows_of v d' = rows_of v d \<and> map_of (cdb_events d') v = map_of (cdb_events d) v"
  have "?P db db1" using s(1) assms(3,4) by (auto simp: upsert_event_def Let_def rows_of_def)
  moreover have "\<forall>tt \<in> set (ticketTypes_of e). tt_eventId tt = ev_id e"
    using assms(2) by (auto simp: wf_event_def ticketTypes_of_def wf_ticketType_def)
  ultimately have "?P db db2"
    using insert_ticket_type_frame [OF _ _ assms(4)] assms(3)
    by (intro each_statement_keeps [where P = "?P db", OF _ _ s(2)]) fastforce+
  then show ?thesis
    by (intro each_statement_keeps [where P = "?P db", OF _ _ s(3)])
      (auto simp: insert_pool_def Let_def rows_of_def split: if_splits)
qed

lemma create_event_frame:
  assumes "catalog_ok uuid_in db" "uuid_laws uuid_in" "uuid_in eventId = Some eventId" "uuid_in j = Some v" "v \<noteq> eventId"
  shows "get_event uuid_in j (snd (create_event uuid_in parse_date eventId uuids dto db)) = get_event uuid_in j db"
proof (cases "build_event parse_date eventId uuids dto")
  case (Inl err)
  then show ?thesis by (simp add: create_event_def)
next
  case (Inr x)
  obtain e pools where x: "x = (e, pools)" by fastforce
  obtain err db' where save: "save_event uuid_in e pools db = (err, db')" by fastforce
  note wf = build_event_wf [OF Inr [unfolded x]]
  have "catalog_ok uuid_in db'" using save_event_keeps [OF assms(1,2) wf(1,2), of pools] save by simp
  moreover have "rows_of v db' = rows_of v db \<and> map_of (cdb_events db') v = map_of (cdb_events db) v"
    using save_event_frame [OF save wf(1)] wf(3) assms(3,5) by simp
  ultimately have "get_event uuid_in j db' = get_event uuid_in j db" using get_event_frame assms(1,4) by blast
  then show ?thesis using Inr x save by (auto simp: create_event_def split: option.splits)
qed

section \<open>Properties\<close>


text \<open>
  C21: every stored event loads. After any sequence of event creations and status updates,
  with whatever requests and whichever of them fail, reading an event throws only when the
  identifier is not a UUID: it finds an event exactly when there is a row, and the event is
  well formed under its own identifier.
\<close>

theorem catalog_always_loads:
  assumes "uuid_laws uuid_in" and "db = fold (catalog_step uuid_in parse_date) ops empty_catalog"
  shows "\<forall>i u. uuid_in i = Some u \<longrightarrow>
    (\<exists>found. find_event uuid_in i db = Inr found \<and> (found = None \<longleftrightarrow> map_of (cdb_events db) u = None) \<and>
      (\<forall>e. found = Some e \<longrightarrow> wf_event e \<and> ev_id e = u))"
proof -
  have ok: "catalog_ok uuid_in db"
    using catalog.run_inv [of uuid_in empty_catalog parse_date ops] catalog_ok_empty assms by blast
  have "ev_id (loaded_event db row) = u" if "map_of (cdb_events db) u = Some row" for u row
    using ok that by (auto simp: catalog_ok_def event_row_ok_def loaded_event_def)
  then show ?thesis using find_event_row [OF ok] wf_loaded_event [OF ok] by auto
qed


section \<open>A concrete catalog\<close>

text \<open>Identifiers are any texts that are not blank, and times are printed as numbers.\<close>

definition demo_uuid :: uuid_reader where
  "demo_uuid s = (if blank s then None else Some s)"

definition demo_date :: "string \<Rightarrow> date option" where
  "demo_date s = (if s = ''open'' then Some 0 else if s = ''close'' then Some 3600000 else None)"

definition demo_request :: createEventRequestDTO where
  "demo_request = \<lparr>cr_organizerId = ''org'', cr_title = '' Gig '', cr_saleStartAt = ''open'', cr_saleEndAt = ''close'',
     cr_ticketTypes = [\<lparr>td_id = None, td_name = ''GA'', td_priceCents = JInt 500, td_currency = None, td_capacity = JInt 2\<rparr>,
       \<lparr>td_id = Some ''vip'', td_name = ''VIP'', td_priceCents = JInt 900, td_currency = Some ''eur'', td_capacity = JInt 1\<rparr>]\<rparr>"

definition demo_uuids :: "nat \<Rightarrow> string" where
  "demo_uuids n = ''u'' @ show_nat n"

lemma demo_uuid_laws: "uuid_laws demo_uuid"
  by (simp add: uuid_laws_def demo_uuid_def)

definition demo_catalog :: catalog_db where
  "demo_catalog = snd (create_event demo_uuid demo_date ''e1'' demo_uuids demo_request empty_catalog)"

definition demo_response :: eventResponseDTO where
  "demo_response = (case create_event demo_uuid demo_date ''e1'' demo_uuids demo_request empty_catalog of
     (Inr r, _) \<Rightarrow> r | (Inl _, _) \<Rightarrow> \<lparr>ed_id = [], ed_organizerId = [], ed_title = [], ed_status = [],
       ed_saleStartAt = [], ed_saleEndAt = [], ed_ticketTypes = []\<rparr>)"

lemma demo_created: "create_event demo_uuid demo_date ''e1'' demo_uuids demo_request empty_catalog = (Inr demo_response, demo_catalog)"
  by code_simp

lemma demo_catalog_ok: "catalog_ok demo_uuid demo_catalog"
  unfolding demo_catalog_def by (rule create_event_keeps [OF catalog_ok_empty demo_uuid_laws])


definition demo_ops :: "catalog_op list" where
  "demo_ops = [CreateEvent ''e1'' demo_uuids demo_request, UpdateEventStatus ''e1'' ''LIVE'', UpdateEventStatus ''e1'' ''DRAFT'']"

theorem catalog_always_loads_witness:
  "\<exists>e. find_event demo_uuid ''e1'' (fold (catalog_step demo_uuid demo_date) demo_ops empty_catalog) = Inr (Some e) \<and> wf_event e"
proof -
  define db where "db = fold (catalog_step demo_uuid demo_date) demo_ops empty_catalog"
  have row: "map_of (cdb_events db) ''e1'' \<noteq> None" unfolding db_def by code_simp
  have "demo_uuid ''e1'' = Some ''e1''" by code_simp
  with catalog_always_loads [OF demo_uuid_laws db_def] obtain found where
    "find_event demo_uuid ''e1'' db = Inr found" "found = None \<longleftrightarrow> map_of (cdb_events db) ''e1'' = None"
    "\<forall>e. found = Some e \<longrightarrow> wf_event e \<and> ev_id e = ''e1''" by blast
  with row show ?thesis unfolding db_def [symmetric] by (cases found) simp_all
qed

definition demo_row :: event_row where
  "demo_row = \<lparr>er_id = ''e1'', er_organizer_id = ''org'', er_title = ''Gig'', er_status = ''DRAFT'',
     er_sale_start_at = 0, er_sale_end_at = 3600000\<rparr>"


section \<open>What the identifiers of a request can break\<close>

text \<open>A ticket type of a second event under an identifier in use is acknowledged and not stored.\<close>

definition colliding_request :: createEventRequestDTO where
  "colliding_request = demo_request\<lparr>cr_ticketTypes := [\<lparr>td_id = Some ''vip'', td_name = ''Box'', td_priceCents = JInt 100,
     td_currency = None, td_capacity = JInt 50\<rparr>]\<rparr>"

lemma ticket_type_silently_dropped:
  "(case create_event demo_uuid demo_date ''e2'' demo_uuids colliding_request demo_catalog of
      (Inr resp, db) \<Rightarrow> length (ed_ticketTypes resp) = 1 \<and>
        (case get_event demo_uuid ''e2'' db of Inr (Some served) \<Rightarrow> ed_ticketTypes served = [] | _ \<Rightarrow> False)
    | (Inl _, _) \<Rightarrow> False)"
  by code_simp

text \<open>A request that repeats an identifier stores the last ticket type with the pool of the first.\<close>

definition repeating_request :: createEventRequestDTO where
  "repeating_request = demo_request\<lparr>cr_ticketTypes := [
     \<lparr>td_id = Some ''x'', td_name = ''GA'', td_priceCents = JInt 100, td_currency = None, td_capacity = JInt 500\<rparr>,
     \<lparr>td_id = Some ''x'', td_name = ''VIP'', td_priceCents = JInt 900, td_currency = None, td_capacity = JInt 5\<rparr>]\<rparr>"

lemma repeated_id_oversized_pool:
  "(case create_event demo_uuid demo_date ''e3'' demo_uuids repeating_request empty_catalog of
      (Inr resp, db) \<Rightarrow> map tp_capacity (ed_ticketTypes resp) = [5] \<and> map_option pr_total (map_of (cdb_pools db) ''x'') = Some 500
    | (Inl _, _) \<Rightarrow> False)"
  by code_simp

text \<open>A stored status \<open>ENDED\<close> loads as a draft, which can be published again.\<close>

lemma ended_row_loads_as_draft:
  "(case find_event demo_uuid ''e1'' (demo_catalog\<lparr>cdb_events := [(''e1'', demo_row\<lparr>er_status := ''ENDED''\<rparr>)]\<rparr>) of
      Inr (Some e) \<Rightarrow> ev_status e = EventStatus.DRAFT | _ \<Rightarrow> False)"
  by code_simp

end
