(* ===== verification/LP_CachedEvents.thy ===== *)
theory LP_CachedEvents
  imports LP_Cache LP_EventUseCases
begin

text \<open>
  Cached reads of events: \<open>CachedGetEventByIdUseCase\<close>
  (\<^verbatim>\<open>src/src/modules/catalog/application\<close>) over the cache, the coalescer and the tables, one
  await at a time, together with the invalidation the controller does after a status update.
  Reads of one process interleave at their awaits; the tables and the cache are shared with
  everything else. A promise of the coalescer is known by the read that started it, and its
  value is the answer of that read.
\<close>

section \<open>Responses as JSON\<close>

definition ticket_json :: "ticketTypeResponse \<Rightarrow> json" where
  "ticket_json t = JObj [(''id'', JStr (tp_id t)), (''name'', JStr (tp_name t)), (''priceCents'', JNum (tp_priceCents t)),
     (''currency'', JStr (tp_currency t)), (''capacity'', JNum (tp_capacity t))]"

definition dto_json :: "eventResponseDTO \<Rightarrow> json" where
  "dto_json d = JObj [(''id'', JStr (ed_id d)), (''organizerId'', JStr (ed_organizerId d)), (''title'', JStr (ed_title d)),
     (''status'', JStr (ed_status d)), (''saleStartAt'', JStr (ed_saleStartAt d)), (''saleEndAt'', JStr (ed_saleEndAt d)),
     (''ticketTypes'', JArr (map ticket_json (ed_ticketTypes d)))]"

lemma wf_dto_json [simp]: "wf_json (dto_json d)"
  by (auto simp: dto_json_def ticket_json_def)

fun json_truthy :: "json \<Rightarrow> bool" where
  "json_truthy JNull = False"
| "json_truthy (JBool b) = b"
| "json_truthy (JNum n) = (n \<noteq> 0)"
| "json_truthy (JStr s) = (s \<noteq> [])"
| "json_truthy (JArr _) = True"
| "json_truthy (JObj _) = True"

lemma dto_json_truthy [simp]: "json_truthy (dto_json d)"
  by (simp add: dto_json_def)

section \<open>CachedGetEventByIdUseCase\<close>

definition getCacheKey :: "string \<Rightarrow> string" where
  "getCacheKey i = ''events:v1:'' @ i"

lemma getCacheKey_inject [simp]: "getCacheKey i = getCacheKey j \<longleftrightarrow> i = j"
  by (simp add: getCacheKey_def)

datatype read_source = FromCache | FromDb

datatype read_pc =
    CheckCache
  | EnterFlight
  | JoinFlight nat
  | LoadDb
  | StoreCache json
  | Answered read_source "json option result"

record read_req =
  rd_id :: string
  rd_pc :: read_pc

record read_system =
  rs_db :: catalog_db
  rs_cache :: cacheService
  rs_flight :: coalescer
  rs_reads :: "nat \<Rightarrow> read_req option"

abbreviation set_pc :: "nat \<Rightarrow> read_req \<Rightarrow> read_pc \<Rightarrow> read_system \<Rightarrow> read_system" where
  "set_pc n r pc s \<equiv> s\<lparr>rs_reads := (rs_reads s)(n \<mapsto> r\<lparr>rd_pc := pc\<rparr>)\<rparr>"

text \<open>The answer of the load, and the \<open>finally\<close> of its promise.\<close>

definition finish_load :: "bool \<Rightarrow> nat \<Rightarrow> read_req \<Rightarrow> json option result \<Rightarrow> read_system \<Rightarrow> read_system" where
  "finish_load coalescing n r res s =
     set_pc n r (Answered FromDb res)
       (s\<lparr>rs_flight := (if coalescing then settle (getCacheKey (rd_id r)) (rs_flight s) else rs_flight s)\<rparr>)"

definition read_advance :: "uuid_reader \<Rightarrow> bool \<Rightarrow> int \<Rightarrow> bool \<Rightarrow> int \<Rightarrow> nat \<Rightarrow> read_system \<Rightarrow> read_system" where
  "read_advance uuid_in coalescing ttlSeconds up now n s =
     (case rs_reads s n of
        None \<Rightarrow> s
      | Some r \<Rightarrow>
          (case rd_pc r of
             CheckCache \<Rightarrow>
               (case cache_get up now (getCacheKey (rd_id r)) (rs_cache s) of
                  (v, c') \<Rightarrow>
                    set_pc n r
                      (if (case v of None \<Rightarrow> False | Some j \<Rightarrow> json_truthy j) then Answered FromCache (Inr v)
                       else if coalescing then EnterFlight else LoadDb) (s\<lparr>rs_cache := c'\<rparr>))
           | EnterFlight \<Rightarrow>
               (case coalesce (getCacheKey (rd_id r)) n (rs_flight s) of
                  (p, f') \<Rightarrow> set_pc n r (if p = n then LoadDb else JoinFlight p) (s\<lparr>rs_flight := f'\<rparr>))
           | JoinFlight p \<Rightarrow>
               (case map_option rd_pc (rs_reads s p) of
                  Some (Answered _ res) \<Rightarrow> set_pc n r (Answered FromDb res) s
                | _ \<Rightarrow> s)
           | LoadDb \<Rightarrow>
               (case get_event uuid_in (rd_id r) (rs_db s) of
                  Inl err \<Rightarrow> finish_load coalescing n r (Inl err) s
                | Inr None \<Rightarrow> finish_load coalescing n r (Inr None) s
                | Inr (Some d) \<Rightarrow> set_pc n r (StoreCache (dto_json d)) s)
           | StoreCache j \<Rightarrow>
               finish_load coalescing n r (Inr (Some j))
                 (s\<lparr>rs_cache := cache_set up now (getCacheKey (rd_id r)) j ttlSeconds (rs_cache s)\<rparr>)
           | Answered _ _ \<Rightarrow> s))"

definition begin_read :: "nat \<Rightarrow> string \<Rightarrow> read_system \<Rightarrow> read_system" where
  "begin_read n i s = s\<lparr>rs_reads := (rs_reads s)(n \<mapsto> \<lparr>rd_id = i, rd_pc = CheckCache\<rparr>)\<rparr>"

section \<open>Single flight\<close>

definition loading :: "read_req \<Rightarrow> bool" where
  "loading r \<longleftrightarrow> rd_pc r = LoadDb \<or> (\<exists>j. rd_pc r = StoreCache j)"

text \<open>With coalescing on: reads begin and advance; the tables and the cache change under them in
  any way.\<close>

inductive flight_step :: "uuid_reader \<Rightarrow> int \<Rightarrow> read_system \<Rightarrow> read_system \<Rightarrow> bool" for uuid_in ttlSeconds where
  begin_flight: "rs_reads s n = None \<Longrightarrow> flight_step uuid_in ttlSeconds s (begin_read n i s)"
| advance_flight: "flight_step uuid_in ttlSeconds s (read_advance uuid_in True ttlSeconds up now n s)"
| outside: "flight_step uuid_in ttlSeconds s (s\<lparr>rs_db := db', rs_cache := c'\<rparr>)"

inductive flight_reach :: "uuid_reader \<Rightarrow> int \<Rightarrow> read_system \<Rightarrow> bool" for uuid_in ttlSeconds where
  flight_start: "flight_reach uuid_in ttlSeconds \<lparr>rs_db = db, rs_cache = c, rs_flight = new_coalescer, rs_reads = (\<lambda>_. None)\<rparr>"
| flight_next: "flight_reach uuid_in ttlSeconds s \<Longrightarrow> flight_step uuid_in ttlSeconds s s' \<Longrightarrow> flight_reach uuid_in ttlSeconds s'"

text \<open>The table of the coalescer has exactly the reads that are loading, and who joined waits for
  a read of the same event that is loading or has answered.\<close>

definition serving :: "read_req \<Rightarrow> bool" where
  "serving r \<longleftrightarrow> loading r \<or> (\<exists>res. rd_pc r = Answered FromDb res)"

definition joined_ok :: "read_system \<Rightarrow> read_req \<Rightarrow> bool" where
  "joined_ok s r \<longleftrightarrow> (\<forall>p. rd_pc r = JoinFlight p \<longrightarrow>
     (\<exists>rp. rs_reads s p = Some rp \<and> rd_id rp = rd_id r \<and> serving rp))"

definition flight_inv :: "read_system \<Rightarrow> bool" where
  "flight_inv s \<longleftrightarrow>
     (\<forall>n r. rs_reads s n = Some r \<longrightarrow> joined_ok s r \<and>
        (loading r \<longrightarrow> map_of (co_inFlight (rs_flight s)) (getCacheKey (rd_id r)) = Some n)) \<and>
     (\<forall>k p. map_of (co_inFlight (rs_flight s)) k = Some p \<longrightarrow>
        (\<exists>rp. rs_reads s p = Some rp \<and> getCacheKey (rd_id rp) = k \<and> loading rp))"

lemma flight_invD:
  assumes "flight_inv s" "rs_reads s n = Some r"
  shows "joined_ok s r" "loading r \<Longrightarrow> map_of (co_inFlight (rs_flight s)) (getCacheKey (rd_id r)) = Some n"
  using assms unfolding flight_inv_def by blast+

lemma flight_inv_flying:
  assumes "flight_inv s" "map_of (co_inFlight (rs_flight s)) k = Some p"
  obtains rp where "rs_reads s p = Some rp" "getCacheKey (rd_id rp) = k" "loading rp"
  using assms unfolding flight_inv_def by blast

lemma flight_inv_cong:
  "rs_reads s' = rs_reads s \<Longrightarrow> co_inFlight (rs_flight s') = co_inFlight (rs_flight s) \<Longrightarrow> flight_inv s \<Longrightarrow> flight_inv s'"
  by (simp add: flight_inv_def joined_ok_def)

text \<open>One read is replaced, a read that serves others by one that still does; the table follows.\<close>

lemma flight_inv_upd:
  assumes inv: "flight_inv s" and reads: "rs_reads s' = (rs_reads s)(n \<mapsto> r')"
    and old: "\<And>r. rs_reads s n = Some r \<Longrightarrow> rd_id r' = rd_id r \<and> (serving r \<longrightarrow> serving r')"
    and join: "joined_ok s r'"
    and mine: "loading r' \<Longrightarrow> map_of (co_inFlight (rs_flight s')) (getCacheKey (rd_id r')) = Some n"
    and table: "\<And>k p. p \<noteq> n \<Longrightarrow> map_of (co_inFlight (rs_flight s')) k = Some p \<longleftrightarrow> map_of (co_inFlight (rs_flight s)) k = Some p"
    and gone: "\<And>k. map_of (co_inFlight (rs_flight s')) k = Some n \<Longrightarrow> loading r' \<and> getCacheKey (rd_id r') = k"
  shows "flight_inv s'"
proof -
  have jo: "joined_ok s' q" if "joined_ok s q" for q
    unfolding joined_ok_def reads
  proof (intro allI impI)
    fix p assume "rd_pc q = JoinFlight p"
    with that obtain rp where "rs_reads s p = Some rp" "rd_id rp = rd_id q" "serving rp" by (auto simp: joined_ok_def)
    then show "\<exists>rp. ((rs_reads s)(n \<mapsto> r')) p = Some rp \<and> rd_id rp = rd_id q \<and> serving rp"
      using old by (cases "p = n") auto
  qed
  show ?thesis
    unfolding flight_inv_def reads
  proof (intro conjI allI impI)
    fix m q assume q: "((rs_reads s)(n \<mapsto> r')) m = Some q"
    show "joined_ok s' q" using q jo [OF join] jo flight_invD(1) [OF inv] by (auto split: if_splits)
    assume "loading q"
    then show "map_of (co_inFlight (rs_flight s')) (getCacheKey (rd_id q)) = Some m"
      using q mine table flight_invD(2) [OF inv, of m q] by (auto split: if_splits)
  next
    fix k p assume kp: "map_of (co_inFlight (rs_flight s')) k = Some p"
    show "\<exists>rp. ((rs_reads s)(n \<mapsto> r')) p = Some rp \<and> getCacheKey (rd_id rp) = k \<and> loading rp"
    proof (cases "p = n")
      case True
      then show ?thesis using gone kp by simp
    next
      case False
      then show ?thesis using table kp flight_inv_flying [OF inv, of k p] by (metis fun_upd_other)
    qed
  qed
qed

lemma flight_inv_begin: "flight_inv s \<Longrightarrow> rs_reads s n = None \<Longrightarrow> flight_inv (begin_read n i s)"
  by (rule flight_inv_upd [where n = n and r' = "\<lparr>rd_id = i, rd_pc = CheckCache\<rparr>"])
    (auto simp: begin_read_def joined_ok_def loading_def elim: flight_inv_flying)

text \<open>A read that moves and is loading after the step exactly when it was before.\<close>

lemma flight_inv_set_pc:
  assumes inv: "flight_inv s" and r: "rs_reads s n = Some r"
    and load: "loading (r\<lparr>rd_pc := pc\<rparr>) = loading r" and serve: "serving r \<Longrightarrow> serving (r\<lparr>rd_pc := pc\<rparr>)"
    and join: "joined_ok s (r\<lparr>rd_pc := pc\<rparr>)"
  shows "flight_inv (set_pc n r pc s)"
proof (rule flight_inv_upd [OF inv, where n = n and r' = "r\<lparr>rd_pc := pc\<rparr>"])
  fix k assume "map_of (co_inFlight (rs_flight (set_pc n r pc s))) k = Some n"
  then have "map_of (co_inFlight (rs_flight s)) k = Some n" by simp
  from flight_inv_flying [OF inv this] show "loading (r\<lparr>rd_pc := pc\<rparr>) \<and> getCacheKey (rd_id (r\<lparr>rd_pc := pc\<rparr>)) = k"
    using r load by auto
qed (use r load serve join flight_invD(2) [OF inv r] in auto)

lemma flight_inv_finish:
  assumes inv: "flight_inv s" and r: "rs_reads s n = Some r" "loading r"
  shows "flight_inv (finish_load True n r res s)"
proof -
  have mine: "map_of (co_inFlight (rs_flight s)) (getCacheKey (rd_id r)) = Some n" using flight_invD(2) [OF inv r(1)] r(2) by simp
  have fl: "map_of (co_inFlight (rs_flight (finish_load True n r res s))) =
      (map_of (co_inFlight (rs_flight s)))(getCacheKey (rd_id r) := None)"
    by (simp add: finish_load_def settle_def)
  show ?thesis
  proof (rule flight_inv_upd [OF inv, where n = n and r' = "r\<lparr>rd_pc := Answered FromDb res\<rparr>"])
    fix k assume k: "map_of (co_inFlight (rs_flight (finish_load True n r res s))) k = Some n"
    then have "k \<noteq> getCacheKey (rd_id r)" "map_of (co_inFlight (rs_flight s)) k = Some n" by (auto simp: fl split: if_splits)
    from flight_inv_flying [OF inv this(2)] this(1) r(1) show
      "loading (r\<lparr>rd_pc := Answered FromDb res\<rparr>) \<and> getCacheKey (rd_id (r\<lparr>rd_pc := Answered FromDb res\<rparr>)) = k" by auto
  qed (use r mine in \<open>auto simp: settle_def finish_load_def loading_def serving_def joined_ok_def split: if_splits\<close>)
qed

lemma flight_inv_enter:
  assumes inv: "flight_inv s" and r: "rs_reads s n = Some r" "rd_pc r = EnterFlight"
    and c: "coalesce (getCacheKey (rd_id r)) n (rs_flight s) = (p, f')"
  shows "flight_inv (set_pc n r (if p = n then LoadDb else JoinFlight p) (s\<lparr>rs_flight := f'\<rparr>))"
proof (cases "map_of (co_inFlight (rs_flight s)) (getCacheKey (rd_id r))")
  case (Some p')
  then have p: "p = p'" "co_inFlight f' = co_inFlight (rs_flight s)" using c by (auto simp: coalesce_def)
  obtain rp where rp: "rs_reads s p = Some rp" "rd_id rp = rd_id r" "loading rp"
    using flight_inv_flying [OF inv Some] p by auto
  have "p \<noteq> n" using rp r by (auto simp: loading_def)
  have "flight_inv (s\<lparr>rs_flight := f'\<rparr>)" using inv p(2) by (intro flight_inv_cong [OF _ _ inv]) simp_all
  then have "flight_inv (set_pc n r (JoinFlight p) (s\<lparr>rs_flight := f'\<rparr>))"
    by (rule flight_inv_set_pc) (use r rp in \<open>auto simp: loading_def serving_def joined_ok_def\<close>)
  with \<open>p \<noteq> n\<close> show ?thesis by simp
next
  case None
  then have p: "p = n" "map_of (co_inFlight f') = (map_of (co_inFlight (rs_flight s)))(getCacheKey (rd_id r) \<mapsto> n)"
    using c by (auto simp: coalesce_def)
  have free: "map_of (co_inFlight (rs_flight s)) k \<noteq> Some n" for k
    using flight_inv_flying [OF inv, of k n] r by (auto simp: loading_def)
  have "flight_inv (set_pc n r LoadDb (s\<lparr>rs_flight := f'\<rparr>))"
    by (rule flight_inv_upd [OF inv, where n = n and r' = "r\<lparr>rd_pc := LoadDb\<rparr>"])
      (use r p(2) None free in \<open>auto simp: loading_def serving_def joined_ok_def split: if_splits\<close>)
  with p(1) show ?thesis by simp
qed

lemma flight_inv_advance:
  assumes inv: "flight_inv s"
  shows "flight_inv (read_advance uuid_in True ttl up now n s)"
proof (cases "rs_reads s n")
  case None
  then show ?thesis using inv by (simp add: read_advance_def)
next
  case (Some r)
  show ?thesis
  proof (cases "rd_pc r")
    case CheckCache
    have "flight_inv (s\<lparr>rs_cache := c\<rparr>)" for c by (rule flight_inv_cong [OF _ _ inv]) simp_all
    then have "flight_inv (set_pc n r pc (s\<lparr>rs_cache := c\<rparr>))" if "\<not> loading (r\<lparr>rd_pc := pc\<rparr>)" "\<And>p. pc \<noteq> JoinFlight p" for pc c
      by (rule flight_inv_set_pc) (use Some CheckCache that in \<open>auto simp: loading_def serving_def joined_ok_def\<close>)
    then show ?thesis using Some CheckCache by (auto simp: read_advance_def loading_def split: prod.splits)
  next
    case EnterFlight
    then show ?thesis using Some flight_inv_enter [OF inv Some] by (auto simp: read_advance_def split: prod.splits)
  next
    case (JoinFlight p)
    have "flight_inv (set_pc n r (Answered FromDb res) s)" for res
      by (rule flight_inv_set_pc [OF inv Some]) (use JoinFlight in \<open>auto simp: loading_def serving_def joined_ok_def\<close>)
    then show ?thesis using Some JoinFlight inv by (auto simp: read_advance_def split: option.splits read_pc.splits)
  next
    case LoadDb
    have "flight_inv (set_pc n r (StoreCache j) s)" for j
      by (rule flight_inv_set_pc [OF inv Some]) (use LoadDb in \<open>auto simp: loading_def serving_def joined_ok_def\<close>)
    then show ?thesis
      using Some LoadDb flight_inv_finish [OF inv Some] by (auto simp: read_advance_def loading_def split: sum.splits option.splits)
  next
    case (StoreCache j)
    have "flight_inv (s\<lparr>rs_cache := c\<rparr>)" for c by (rule flight_inv_cong [OF _ _ inv]) simp_all
    then show ?thesis
      using Some StoreCache flight_inv_finish [of "s\<lparr>rs_cache := _\<rparr>" n r] by (auto simp: read_advance_def loading_def)
  next
    case (Answered src res)
    then show ?thesis using Some inv by (simp add: read_advance_def)
  qed
qed

lemma flight_reach_inv: "flight_reach uuid_in ttl s \<Longrightarrow> flight_inv s"
proof (induction rule: flight_reach.induct)
  case (flight_start db c)
  show ?case by (simp add: flight_inv_def new_coalescer_def)
next
  case (flight_next s s')
  from flight_next.hyps(2) flight_next.IH show ?case
  proof cases
    case (outside db' c')
    then show ?thesis using flight_inv_cong [OF _ _ flight_next.IH, of s'] by simp
  qed (auto intro: flight_inv_begin flight_inv_advance)
qed

section \<open>One request at a time\<close>

text \<open>A read from beginning to end: at most four steps, with whether Redis answers the \<open>get\<close>
  and the \<open>set\<close>. The controller's status update: the tables, then the invalidation.\<close>

definition run_read ::
    "uuid_reader \<Rightarrow> bool \<Rightarrow> int \<Rightarrow> bool \<Rightarrow> bool \<Rightarrow> int \<Rightarrow> nat \<Rightarrow> string \<Rightarrow> read_system \<Rightarrow> read_pc option \<times> read_system" where
  "run_read uuid_in coalescing ttlSeconds upGet upSet now n i s =
     (let step = (\<lambda>up. read_advance uuid_in coalescing ttlSeconds up now n);
          s' = step upSet (step upSet (step upSet (step upGet (begin_read n i s))))
      in (map_option rd_pc (rs_reads s' n), s'))"

definition patch_status ::
    "uuid_reader \<Rightarrow> bool \<Rightarrow> string \<Rightarrow> string \<Rightarrow> read_system \<Rightarrow> eventResponseDTO option result \<times> read_system" where
  "patch_status uuid_in up i target s =
     (case update_event_status uuid_in i target (rs_db s) of
        (Inr (Some d), db') \<Rightarrow> (Inr (Some d), s\<lparr>rs_db := db', rs_cache := cache_del up (getCacheKey i) (rs_cache s)\<rparr>)
      | (res, db') \<Rightarrow> (res, s\<lparr>rs_db := db'\<rparr>))"

text \<open>What the read should answer.\<close>

definition direct :: "uuid_reader \<Rightarrow> string \<Rightarrow> catalog_db \<Rightarrow> json option result" where
  "direct uuid_in i db = rbind (get_event uuid_in i db) (\<lambda>d. Inr (map_option dto_json d))"

text \<open>A value that is right for a key: the event in the tables, for the key of an identifier in the
  database's spelling.\<close>

definition right_for :: "uuid_reader \<Rightarrow> catalog_db \<Rightarrow> string \<Rightarrow> json \<Rightarrow> bool" where
  "right_for uuid_in db k j \<longleftrightarrow>
     (\<forall>i. k = getCacheKey i \<and> uuid_in i = Some i \<longrightarrow> (\<exists>d. get_event uuid_in i db = Inr (Some d) \<and> j = dto_json d))"

definition coherent_cache :: "uuid_reader \<Rightarrow> int \<Rightarrow> read_system \<Rightarrow> bool" where
  "coherent_cache uuid_in now s \<longleftrightarrow> truthful cached (right_for uuid_in (rs_db s)) now (rs_cache s)"

lemmas read_defs = run_read_def read_advance_def begin_read_def finish_load_def direct_def

text \<open>A read that runs alone, by what the cache gives it.\<close>

lemma run_read_hit:
  assumes "upGet" "cached now (getCacheKey i) (rs_cache s) = Some (dto_json d)"
  shows "fst (run_read uuid_in co ttl upGet upSet now n i s) = Some (Answered FromCache (Inr (Some (dto_json d)))) \<and>
    rs_db (snd (run_read uuid_in co ttl upGet upSet now n i s)) = rs_db s \<and>
    cs_redis (rs_cache (snd (run_read uuid_in co ttl upGet upSet now n i s))) = cs_redis (rs_cache s) \<and>
    rs_flight (snd (run_read uuid_in co ttl upGet upSet now n i s)) = rs_flight s"
proof -
  have "fst (cache_get upGet now (getCacheKey i) (rs_cache s)) = Some (dto_json d)"
    using assms by (simp add: cache_get_result)
  then obtain c' where c': "cache_get upGet now (getCacheKey i) (rs_cache s) = (Some (dto_json d), c')" by (metis prod.collapse)
  have "cs_redis c' = cs_redis (rs_cache s)" using c' cache_get_redis by (metis snd_conv)
  then show ?thesis by (simp add: read_defs c')
qed

lemma run_read_miss:
  assumes "fst (cache_get upGet now (getCacheKey i) (rs_cache s)) = None" "co_inFlight (rs_flight s) = []"
  shows "fst (run_read uuid_in co ttl upGet upSet now n i s) = Some (Answered FromDb (direct uuid_in i (rs_db s))) \<and>
    rs_db (snd (run_read uuid_in co ttl upGet upSet now n i s)) = rs_db s \<and>
    co_inFlight (rs_flight (snd (run_read uuid_in co ttl upGet upSet now n i s))) = [] \<and>
    cs_redis (rs_cache (snd (run_read uuid_in co ttl upGet upSet now n i s))) =
      (case get_event uuid_in i (rs_db s) of
         Inr (Some d) \<Rightarrow> cs_redis (cache_set upSet now (getCacheKey i) (dto_json d) ttl (rs_cache s))
       | _ \<Rightarrow> cs_redis (rs_cache s))"
proof -
  obtain c' where c': "cache_get upGet now (getCacheKey i) (rs_cache s) = (None, c')" using assms(1) by (metis prod.collapse)
  have red: "cs_redis c' = cs_redis (rs_cache s)" using c' cache_get_redis by (metis snd_conv)
  then have red2: "cs_redis (cache_set up t k j ttl c') = cs_redis (cache_set up t k j ttl (rs_cache s))" for up t k j
    by (simp add: cache_set_def)
  show ?thesis
  proof (cases "get_event uuid_in i (rs_db s)")
    case (Inl err)
    then show ?thesis using assms(2) red by (cases co) (simp_all add: read_defs c' coalesce_def settle_def)
  next
    case (Inr x)
    then show ?thesis using assms(2) red red2
      by (cases co; cases x) (simp_all add: read_defs c' coalesce_def settle_def)
  qed
qed

text \<open>Requests that name events in the database's own spelling and a Redis that carries out the
  invalidations; reads may find it down.\<close>

inductive api_step :: "uuid_reader \<Rightarrow> (string \<Rightarrow> date option) \<Rightarrow> bool \<Rightarrow> int \<Rightarrow> int \<times> read_system \<Rightarrow> int \<times> read_system \<Rightarrow> bool"
  for uuid_in parse_date coalescing ttlSeconds where
  api_get: "uuid_in i = Some i \<Longrightarrow>
    api_step uuid_in parse_date coalescing ttlSeconds (now, s) (now, snd (run_read uuid_in coalescing ttlSeconds upGet upSet now n i s))"
| api_patch: "uuid_in i = Some i \<Longrightarrow>
    api_step uuid_in parse_date coalescing ttlSeconds (now, s) (now, snd (patch_status uuid_in True i target s))"
| api_create: "uuid_in eventId = Some eventId \<Longrightarrow> map_of (cdb_events (rs_db s)) eventId = None \<Longrightarrow>
    api_step uuid_in parse_date coalescing ttlSeconds (now, s)
      (now, s\<lparr>rs_db := snd (create_event uuid_in parse_date eventId uuids dto (rs_db s))\<rparr>)"
| api_tick: "now \<le> now' \<Longrightarrow> api_step uuid_in parse_date coalescing ttlSeconds (now, s) (now', s)"

definition api_init :: read_system where
  "api_init = \<lparr>rs_db = empty_catalog, rs_cache = new_cacheService, rs_flight = new_coalescer, rs_reads = (\<lambda>_. None)\<rparr>"

inductive api_reach :: "uuid_reader \<Rightarrow> (string \<Rightarrow> date option) \<Rightarrow> bool \<Rightarrow> int \<Rightarrow> int \<times> read_system \<Rightarrow> bool"
  for uuid_in parse_date coalescing ttlSeconds where
  api_start: "api_reach uuid_in parse_date coalescing ttlSeconds (now, api_init)"
| api_next: "api_reach uuid_in parse_date coalescing ttlSeconds x \<Longrightarrow> api_step uuid_in parse_date coalescing ttlSeconds x y \<Longrightarrow>
    api_reach uuid_in parse_date coalescing ttlSeconds y"

definition api_inv :: "uuid_reader \<Rightarrow> int \<times> read_system \<Rightarrow> bool" where
  "api_inv uuid_in x \<longleftrightarrow> catalog_ok uuid_in (rs_db (snd x)) \<and> co_inFlight (rs_flight (snd x)) = [] \<and>
     coherent_cache uuid_in (fst x) (snd x)"

lemma coherent_cong:
  "rs_db s' = rs_db s \<Longrightarrow> cs_redis (rs_cache s') = cs_redis (rs_cache s) \<Longrightarrow> coherent_cache uuid_in now s' = coherent_cache uuid_in now s"
  using cached_redis [of "rs_cache s'" "rs_cache s"] by (simp add: coherent_cache_def truthful_def)

lemma coherent_hit:
  assumes "api_inv uuid_in (now, s)" "uuid_in i = Some i" "fst (cache_get up now (getCacheKey i) (rs_cache s)) = Some j"
  shows "up \<and> cached now (getCacheKey i) (rs_cache s) = Some j \<and> (\<exists>d. get_event uuid_in i (rs_db s) = Inr (Some d) \<and> j = dto_json d)"
proof -
  have "right_for uuid_in (rs_db s) (getCacheKey i) j"
    by (rule redis_cache.hit_right [OF _ assms(3)]) (use assms(1) in \<open>simp add: api_inv_def coherent_cache_def\<close>)
  then show ?thesis using assms(2,3) by (auto simp: right_for_def cache_get_result split: if_splits)
qed

lemma run_read_answer:
  assumes "api_inv uuid_in (now, s)" "uuid_in i = Some i"
  shows "\<exists>src. fst (run_read uuid_in co ttl upGet upSet now n i s) = Some (Answered src (direct uuid_in i (rs_db s)))"
proof (cases "fst (cache_get upGet now (getCacheKey i) (rs_cache s))")
  case None
  then show ?thesis using run_read_miss [OF None] assms(1) by (auto simp: api_inv_def)
next
  case (Some j)
  from coherent_hit [OF assms Some] obtain d where c: upGet "cached now (getCacheKey i) (rs_cache s) = Some (dto_json d)"
    "get_event uuid_in i (rs_db s) = Inr (Some d)" by blast
  then show ?thesis using run_read_hit [OF c(1,2)] by (auto simp: direct_def)
qed

lemma run_read_inv:
  assumes inv: "api_inv uuid_in (now, s)" and i: "uuid_in i = Some i"
  shows "api_inv uuid_in (now, snd (run_read uuid_in co ttl upGet upSet now n i s))"
proof (cases "fst (cache_get upGet now (getCacheKey i) (rs_cache s))")
  case None
  let ?s = "snd (run_read uuid_in co ttl upGet upSet now n i s)"
  note m = run_read_miss [OF None, of uuid_in co ttl upSet n]
  have fl: "co_inFlight (rs_flight s) = []" using inv by (simp add: api_inv_def)
  have "coherent_cache uuid_in now ?s"
  proof (cases "\<exists>d. get_event uuid_in i (rs_db s) = Inr (Some d)")
    case True
    then obtain d where d: "get_event uuid_in i (rs_db s) = Inr (Some d)" by blast
    let ?c = "cache_set upSet now (getCacheKey i) (dto_json d) ttl (rs_cache s)"
    have "cs_redis (rs_cache ?s) = cs_redis ?c" "rs_db ?s = rs_db s" using m fl d by simp_all
    then have "coherent_cache uuid_in now ?s = coherent_cache uuid_in now (s\<lparr>rs_cache := ?c\<rparr>)" by (intro coherent_cong) simp_all
    moreover have "truthful cached (right_for uuid_in (rs_db s)) now ?c"
      by (rule redis_cache.set_truthful) (use inv d in \<open>auto simp: api_inv_def coherent_cache_def right_for_def\<close>)
    ultimately show ?thesis by (simp add: coherent_cache_def)
  next
    case False
    then have "cs_redis (rs_cache ?s) = cs_redis (rs_cache s)" "rs_db ?s = rs_db s"
      using m fl by (auto split: sum.splits option.splits)
    then show ?thesis using inv coherent_cong [of ?s s] by (simp add: api_inv_def)
  qed
  then show ?thesis using inv m fl by (simp add: api_inv_def)
next
  case (Some j)
  from coherent_hit [OF inv i Some] obtain d where c: upGet "cached now (getCacheKey i) (rs_cache s) = Some (dto_json d)" by blast
  have h: "rs_db (snd (run_read uuid_in co ttl upGet upSet now n i s)) = rs_db s"
    "cs_redis (rs_cache (snd (run_read uuid_in co ttl upGet upSet now n i s))) = cs_redis (rs_cache s)"
    "rs_flight (snd (run_read uuid_in co ttl upGet upSet now n i s)) = rs_flight s"
    using run_read_hit [OF c] by simp_all
  then show ?thesis using inv coherent_cong [OF h(1,2)] by (simp add: api_inv_def)
qed

text \<open>A status update changes at most the answer for its own event, and nothing unless it
  answers with an event.\<close>

lemma update_status_frame:
  assumes "catalog_ok uuid_in db" "uuid_in i = Some u" "update_event_status uuid_in i target db = (res, db')"
  shows "(\<forall>j v. uuid_in j = Some v \<and> v \<noteq> u \<longrightarrow> get_event uuid_in j db' = get_event uuid_in j db) \<and>
    ((\<exists>d. res = Inr (Some d)) \<or> db' = db)"
proof (cases "map_of (cdb_events db) u")
  case None
  then show ?thesis using assms(3) find_event_row [OF assms(1,2)] by (simp add: update_event_status_def)
next
  case (Some row)
  have ok': "catalog_ok uuid_in db'" using update_status_keeps [OF assms(1), of i target] assms(3) by simp
  show ?thesis
    using update_status_run [OF assms(1,2) Some, of target] assms(3) ok'
      get_event_set_status_other [OF assms(1), of u row "status_of_str target"] by (auto split: if_splits)
qed

lemma patch_inv:
  assumes inv: "api_inv uuid_in (now, s)" and i: "uuid_in i = Some i"
  shows "api_inv uuid_in (now, snd (patch_status uuid_in True i target s))"
proof -
  obtain res db' where u: "update_event_status uuid_in i target (rs_db s) = (res, db')" by fastforce
  have ok: "catalog_ok uuid_in (rs_db s)" using inv by (simp add: api_inv_def)
  have ok': "catalog_ok uuid_in db'" using update_status_keeps [OF ok, of i target] u by simp
  have other: "\<And>j. uuid_in j = Some j \<Longrightarrow> j \<noteq> i \<Longrightarrow> get_event uuid_in j db' = get_event uuid_in j (rs_db s)"
    and same: "(\<exists>d. res = Inr (Some d)) \<or> db' = rs_db s"
    using update_status_frame [OF ok i u] by blast+
  have "truthful cached (right_for uuid_in db') now (cache_del True (getCacheKey i) (rs_cache s))"
    by (rule redis_cache.del_truthful [where ok = "right_for uuid_in (rs_db s)"])
      (use inv other in \<open>auto simp: api_inv_def coherent_cache_def right_for_def\<close>)
  then have "coherent_cache uuid_in now (s\<lparr>rs_db := db', rs_cache := cache_del True (getCacheKey i) (rs_cache s)\<rparr>)"
    by (simp add: coherent_cache_def)
  moreover have "s\<lparr>rs_db := db'\<rparr> = s" if "db' = rs_db s" using that by simp
  ultimately show ?thesis
    using same inv ok' u by (cases res) (auto simp: patch_status_def api_inv_def split: option.splits)
qed

lemma create_inv:
  assumes inv: "api_inv uuid_in (now, s)" and laws: "uuid_laws uuid_in"
    and e: "uuid_in eventId = Some eventId" "map_of (cdb_events (rs_db s)) eventId = None"
  shows "api_inv uuid_in (now, s\<lparr>rs_db := snd (create_event uuid_in parse_date eventId uuids dto (rs_db s))\<rparr>)"
proof -
  have ok: "catalog_ok uuid_in (rs_db s)" using inv by (simp add: api_inv_def)
  have frame: "get_event uuid_in j (snd (create_event uuid_in parse_date eventId uuids dto (rs_db s))) = get_event uuid_in j (rs_db s)"
    if "uuid_in j = Some j" "j \<noteq> eventId" for j using create_event_frame [OF ok laws e(1) that] .
  have "get_event uuid_in eventId (rs_db s) = Inr None" using find_event_row [OF ok e(1)] e(2) by (simp add: get_event_def)
  then have "cached now (getCacheKey eventId) (rs_cache s) = None"
    using coherent_hit [OF inv e(1), of True] by (cases "cached now (getCacheKey eventId) (rs_cache s)") (auto simp: cache_get_result)
  then have "coherent_cache uuid_in now (s\<lparr>rs_db := snd (create_event uuid_in parse_date eventId uuids dto (rs_db s))\<rparr>)"
    using inv frame unfolding api_inv_def coherent_cache_def truthful_def right_for_def by (auto, metis option.distinct(1))
  then show ?thesis using inv create_event_keeps [OF ok laws] by (simp add: api_inv_def)
qed

lemma coherent_later: "coherent_cache uuid_in now s \<Longrightarrow> now \<le> now' \<Longrightarrow> coherent_cache uuid_in now' s"
  unfolding coherent_cache_def by (rule redis_cache.truthful_later)

lemma api_reach_inv:
  assumes "uuid_laws uuid_in" "api_reach uuid_in parse_date coalescing ttlSeconds x"
  shows "api_inv uuid_in x"
  using assms(2)
proof (induction rule: api_reach.induct)
  case (api_start now)
  show ?case
    by (simp add: api_inv_def api_init_def catalog_ok_empty new_coalescer_def coherent_cache_def truthful_def new_cacheService_def
        cached_def redis_read_def)
next
  case (api_next x y)
  from api_next.hyps(2) api_next.IH show ?case
  proof cases
    case (api_tick now now' s)
    then show ?thesis using api_next.IH coherent_later by (auto simp: api_inv_def)
  qed (auto intro: run_read_inv patch_inv create_inv [OF _ assms(1)])
qed

section \<open>Properties\<close>


definition demo_api :: read_system where
  "demo_api = snd (run_read demo_uuid True 300 True True 0 1 ''e1'' (api_init\<lparr>rs_db := demo_catalog\<rparr>))"

lemma demo_api_reach: "api_reach demo_uuid demo_date True 300 (0, demo_api)"
proof -
  have e: "demo_uuid ''e1'' = Some ''e1''" "map_of (cdb_events (rs_db api_init)) ''e1'' = None" by code_simp+
  have "api_reach demo_uuid demo_date True 300 (0, api_init\<lparr>rs_db := demo_catalog\<rparr>)"
  proof (rule api_next [OF api_start])
    show "api_step demo_uuid demo_date True 300 (0, api_init) (0, api_init\<lparr>rs_db := demo_catalog\<rparr>)"
      using api_create [where uuid_in = demo_uuid and eventId = "''e1''" and s = api_init and parse_date = demo_date and
          uuids = demo_uuids and dto = demo_request and coalescing = True and ttlSeconds = 300 and now = 0] e
      by (simp add: demo_catalog_def api_init_def)
  qed
  then show ?thesis unfolding demo_api_def by (rule api_next) (rule api_get, rule e(1))
qed


text \<open>
  C20: one load per event at a time. In every reachable state of the interleaved reads at most
  one of them is loading a given event from the tables; and a read that joined another waits
  for a read of the same event that is still loading or has answered, and in the latter case
  its next step gives it the same answer, error included.
\<close>

theorem single_flight:
  assumes "flight_reach uuid_in ttlSeconds s"
  shows "(\<forall>m n rm rn. rs_reads s m = Some rm \<and> rs_reads s n = Some rn \<and> loading rm \<and> loading rn \<and>
      rd_id rm = rd_id rn \<longrightarrow> m = n) \<and>
    (\<forall>n r p. rs_reads s n = Some r \<and> rd_pc r = JoinFlight p \<longrightarrow>
      (\<exists>rp. rs_reads s p = Some rp \<and> rd_id rp = rd_id r \<and>
        (loading rp \<or> (\<exists>res. rd_pc rp = Answered FromDb res \<and>
          rs_reads (read_advance uuid_in True ttlSeconds up now n s) n = Some (r\<lparr>rd_pc := Answered FromDb res\<rparr>)))))"
proof -
  have inv: "flight_inv s" using assms by (rule flight_reach_inv)
  have "m = n" if "rs_reads s m = Some rm" "rs_reads s n = Some rn" "loading rm" "loading rn" "rd_id rm = rd_id rn" for m n rm rn
    using flight_invD(2) [OF inv that(1,3)] flight_invD(2) [OF inv that(2,4)] that(5) by simp
  moreover have "\<exists>rp. rs_reads s p = Some rp \<and> rd_id rp = rd_id r \<and> (loading rp \<or> (\<exists>res. rd_pc rp = Answered FromDb res \<and>
      rs_reads (read_advance uuid_in True ttlSeconds up now n s) n = Some (r\<lparr>rd_pc := Answered FromDb res\<rparr>)))"
    if joined: "rs_reads s n = Some r" "rd_pc r = JoinFlight p" for n r p
  proof -
    obtain rp where "rs_reads s p = Some rp" "rd_id rp = rd_id r" "serving rp"
      using flight_invD(1) [OF inv joined(1)] joined(2) unfolding joined_ok_def by blast
    then show ?thesis using joined by (auto simp: serving_def read_advance_def)
  qed
  ultimately show ?thesis by blast
qed

definition demo_flight :: read_system where
  "demo_flight = fold (\<lambda>n. read_advance demo_uuid True 300 True 0 n) [1, 2, 1, 2, 1, 1]
     (begin_read 2 ''e1'' (begin_read 1 ''e1'' \<lparr>rs_db = demo_catalog, rs_cache = new_cacheService, rs_flight = new_coalescer,
        rs_reads = (\<lambda>_. None)\<rparr>))"

lemma flight_reach_fold:
  "flight_reach uuid_in ttl s \<Longrightarrow> flight_reach uuid_in ttl (fold (\<lambda>n. read_advance uuid_in True ttl up now n) ns s)"
  by (induction ns arbitrary: s) (auto intro: flight_next advance_flight)

lemma demo_flight_reach: "flight_reach demo_uuid 300 demo_flight"
  unfolding demo_flight_def
  by (intro flight_reach_fold flight_next [OF flight_next [OF flight_start begin_flight] begin_flight])
    (simp_all add: begin_read_def)

theorem single_flight_witness:
  "\<exists>res. rs_reads (read_advance demo_uuid True 300 True 0 2 demo_flight) 2 = Some \<lparr>rd_id = ''e1'', rd_pc = Answered FromDb res\<rparr>"
proof -
  have r: "rs_reads demo_flight 2 = Some \<lparr>rd_id = ''e1'', rd_pc = JoinFlight 1\<rparr>"
    and fin: "(case rs_reads demo_flight 1 of Some rp \<Rightarrow> (case rd_pc rp of Answered _ _ \<Rightarrow> True | _ \<Rightarrow> False) | None \<Rightarrow> False)"
    by code_simp+
  have "\<exists>rp. rs_reads demo_flight 1 = Some rp \<and> rd_id rp = rd_id \<lparr>rd_id = ''e1'', rd_pc = JoinFlight 1\<rparr> \<and>
    (loading rp \<or> (\<exists>res. rd_pc rp = Answered FromDb res \<and> rs_reads (read_advance demo_uuid True 300 True 0 2 demo_flight) 2 =
       Some (\<lparr>rd_id = ''e1'', rd_pc = JoinFlight 1\<rparr>\<lparr>rd_pc := Answered FromDb res\<rparr>)))"
    using single_flight [OF demo_flight_reach, THEN conjunct2, rule_format, of 2 "\<lparr>rd_id = ''e1'', rd_pc = JoinFlight 1\<rparr>" 1] r
    by simp
  then show ?thesis using fin by (auto simp: loading_def)
qed

section \<open>What invalidation does not cover\<close>

text \<open>A read that loaded before a status update and stores after its invalidation: the old event
  is served from the cache until it expires.\<close>

lemma stale_after_invalidation:
  "(let s1 = fold (\<lambda>n. read_advance demo_uuid True 300 True 0 n) [1, 1, 1] (begin_read 1 ''e1'' (api_init\<lparr>rs_db := demo_catalog\<rparr>));
        s2 = snd (patch_status demo_uuid True ''e1'' ''LIVE'' s1);
        s3 = read_advance demo_uuid True 300 True 0 1 s2
    in case fst (run_read demo_uuid True 300 True True 299999 2 ''e1'' s3) of
         Some (Answered FromCache res) \<Rightarrow> res \<noteq> direct demo_uuid ''e1'' (rs_db s3)
       | _ \<Rightarrow> False)"
  by code_simp

text \<open>Two spellings of one identifier have two entries; an update invalidates the one it was
  addressed with.\<close>

definition lower_uuid :: uuid_reader where
  "lower_uuid s = (if blank s then None else Some (toLowerCase s))"

lemma stale_under_other_spelling:
  "(let s1 = snd (run_read lower_uuid True 300 True True 0 1 ''E1'' (api_init\<lparr>rs_db := demo_catalog\<rparr>));
        s2 = snd (patch_status lower_uuid True ''e1'' ''LIVE'' s1)
    in case fst (run_read lower_uuid True 300 True True 0 2 ''E1'' s2) of
         Some (Answered FromCache res) \<Rightarrow> res \<noteq> direct lower_uuid ''E1'' (rs_db s2)
       | _ \<Rightarrow> False)"
  by code_simp

end
