(* ===== verification/LP_Idempotency.thy ===== *)
theory LP_Idempotency
  imports LP_Prelude
begin

text \<open>
  Idempotency keys: the Postgres store
  (\<^verbatim>\<open>src/src/infrastructure/idempotency/PostgresIdempotencyStore.ts\<close>) and the middleware that
  uses it (\<^verbatim>\<open>src/src/middleware/idempotencyMiddleware.ts\<close>).

  A SQL statement is atomic, a method is not: \<open>acquire\<close> runs up to three statements, and
  requests interleave between them. So \<open>acquire\<close> is a step function on its program counter,
  the table is shared, and the mutual exclusion of the key is proved for all interleavings.
  The table is an association list by key (the primary key). Node's clock and the database's
  are separate arguments. Bodies are any JSON value of type \<open>'b\<close>, \<^term>\<open>None\<close> for \<open>null\<close>;
  the fingerprint is a function of the serialised body, given as a parameter. Column widths
  and connection failures are left out.
\<close>

section \<open>Records\<close>

datatype IdempotencyStatus = IN_PROGRESS | COMPLETED | FAILED_KEY

record 'b idempotencyRecord =
  ik_key :: string
  ik_userId :: "string option"
  ik_requestPath :: string
  ik_requestMethod :: string
  ik_requestHash :: string
  ik_status :: IdempotencyStatus
  ik_responseStatusCode :: "int option"
  ik_responseHeaders :: "(string \<times> string) list"
  ik_responseBody :: "'b option"
  ik_createdAt :: date
  ik_lockedUntil :: "date option"

type_synonym 'b idem_table = "(string, 'b idempotencyRecord) jsmap"

datatype 'b AcquireResult =
    Acquired
  | Completed "'b idempotencyRecord"
  | InProgress
  | Mismatch

section \<open>The statements of the store\<close>

text \<open>\<open>INSERT ... ON CONFLICT (key) DO NOTHING RETURNING *\<close>: whether a row was returned, and
  the table.\<close>

definition sql_insert ::
    "string \<Rightarrow> string option \<Rightarrow> string \<Rightarrow> string \<Rightarrow> string \<Rightarrow> date \<Rightarrow> date \<Rightarrow> 'b idem_table \<Rightarrow> bool \<times> 'b idem_table" where
  "sql_insert key userId path meth hash lockedUntil dbNow tbl =
     (case map_of tbl key of
        Some _ \<Rightarrow> (False, tbl)
      | None \<Rightarrow> (True, AList.update key
          \<lparr>ik_key = key, ik_userId = userId, ik_requestPath = path, ik_requestMethod = meth,
           ik_requestHash = hash, ik_status = IN_PROGRESS, ik_responseStatusCode = None,
           ik_responseHeaders = [], ik_responseBody = None, ik_createdAt = dbNow,
           ik_lockedUntil = Some lockedUntil\<rparr> tbl))"

text \<open>\<open>UPDATE ... WHERE key = $2 AND status = 'IN_PROGRESS' AND locked_until < NOW() RETURNING *\<close>\<close>

definition sql_reclaim :: "string \<Rightarrow> date \<Rightarrow> date \<Rightarrow> 'b idem_table \<Rightarrow> bool \<times> 'b idem_table" where
  "sql_reclaim key lockedUntil dbNow tbl =
     (case map_of tbl key of
        None \<Rightarrow> (False, tbl)
      | Some row \<Rightarrow>
          (case ik_lockedUntil row of
             None \<Rightarrow> (False, tbl)
           | Some t \<Rightarrow>
               if ik_status row = IN_PROGRESS \<and> t < dbNow
               then (True, AList.update key (row\<lparr>ik_lockedUntil := Some lockedUntil\<rparr>) tbl)
               else (False, tbl)))"

definition complete ::
    "string \<Rightarrow> int \<Rightarrow> (string \<times> string) list \<Rightarrow> 'b option \<Rightarrow> 'b idem_table \<Rightarrow> 'b idem_table" where
  "complete key statusCode headers body tbl =
     (case map_of tbl key of
        None \<Rightarrow> tbl
      | Some row \<Rightarrow> AList.update key
          (row\<lparr>ik_status := COMPLETED, ik_responseStatusCode := Some statusCode,
               ik_responseHeaders := headers, ik_responseBody := body, ik_lockedUntil := None\<rparr>) tbl)"

definition fail_key :: "string \<Rightarrow> 'b idem_table \<Rightarrow> 'b idem_table" where
  "fail_key key tbl =
     (case map_of tbl key of
        None \<Rightarrow> tbl
      | Some row \<Rightarrow> if ik_status row = IN_PROGRESS then AList.delete key tbl else tbl)"

section \<open>acquire, statement by statement\<close>

datatype 'b acquire_pc = AtInsert | AtSelect | AtReclaim | Returned "'b AcquireResult"

record 'b acquire_call =
  aq_key :: string
  aq_path :: string
  aq_method :: string
  aq_hash :: string
  aq_userId :: "string option"
  aq_lockDurationMs :: int
  aq_lockedUntil :: date
  aq_pc :: "'b acquire_pc"

definition start_acquire ::
    "string \<Rightarrow> string \<Rightarrow> string \<Rightarrow> string \<Rightarrow> string option \<Rightarrow> int \<Rightarrow> date \<Rightarrow> 'b acquire_call" where
  "start_acquire key path meth hash userId lockDurationMs now =
     \<lparr>aq_key = key, aq_path = path, aq_method = meth, aq_hash = hash, aq_userId = userId,
      aq_lockDurationMs = lockDurationMs, aq_lockedUntil = now + lockDurationMs, aq_pc = AtInsert\<rparr>"

text \<open>The branches on the selected row, up to the reclaim.\<close>

definition inspect_row :: "string \<Rightarrow> date \<Rightarrow> 'b idempotencyRecord \<Rightarrow> 'b acquire_pc" where
  "inspect_row hash now row =
     (if ik_requestHash row \<noteq> hash then Returned Mismatch
      else if ik_status row = COMPLETED then Returned (Completed row)
      else case ik_lockedUntil row of
        None \<Rightarrow> Returned InProgress
      | Some t \<Rightarrow> if t < now then AtReclaim else Returned InProgress)"

definition acquire_step ::
    "date \<Rightarrow> date \<Rightarrow> 'b acquire_call \<Rightarrow> 'b idem_table \<Rightarrow> 'b acquire_call \<times> 'b idem_table" where
  "acquire_step now dbNow a tbl =
     (case aq_pc a of
        AtInsert \<Rightarrow>
          (case sql_insert (aq_key a) (aq_userId a) (aq_path a) (aq_method a) (aq_hash a)
                  (aq_lockedUntil a) dbNow tbl of
             (True, tbl') \<Rightarrow> (a\<lparr>aq_pc := Returned Acquired\<rparr>, tbl')
           | (False, tbl') \<Rightarrow> (a\<lparr>aq_pc := AtSelect\<rparr>, tbl'))
      | AtSelect \<Rightarrow>
          (case map_of tbl (aq_key a) of
             None \<Rightarrow> (a\<lparr>aq_lockedUntil := now + aq_lockDurationMs a, aq_pc := AtInsert\<rparr>, tbl)
           | Some row \<Rightarrow> (a\<lparr>aq_pc := inspect_row (aq_hash a) now row\<rparr>, tbl))
      | AtReclaim \<Rightarrow>
          (case sql_reclaim (aq_key a) (aq_lockedUntil a) dbNow tbl of
             (True, tbl') \<Rightarrow> (a\<lparr>aq_pc := Returned Acquired\<rparr>, tbl')
           | (False, tbl') \<Rightarrow> (a\<lparr>aq_pc := Returned InProgress\<rparr>, tbl'))
      | Returned _ \<Rightarrow> (a, tbl))"

text \<open>Undisturbed, \<open>acquire\<close> returns after at most three statements.\<close>

fun acquire_steps :: "nat \<Rightarrow> date \<Rightarrow> date \<Rightarrow> 'b acquire_call \<Rightarrow> 'b idem_table \<Rightarrow> 'b acquire_call \<times> 'b idem_table" where
  "acquire_steps 0 now dbNow a tbl = (a, tbl)"
| "acquire_steps (Suc n) now dbNow a tbl =
     (case acquire_step now dbNow a tbl of (a', tbl') \<Rightarrow> acquire_steps n now dbNow a' tbl')"

definition acquire ::
    "string \<Rightarrow> string \<Rightarrow> string \<Rightarrow> string \<Rightarrow> string option \<Rightarrow> int \<Rightarrow> date \<Rightarrow> date \<Rightarrow> 'b idem_table \<Rightarrow>
     'b acquire_pc \<times> 'b idem_table" where
  "acquire key path meth hash userId lockDurationMs now dbNow tbl =
     (case acquire_steps 3 now dbNow (start_acquire key path meth hash userId lockDurationMs now) tbl of
        (a, tbl') \<Rightarrow> (aq_pc a, tbl'))"

section \<open>The middleware\<close>

datatype header_value = NoHeader | HeaderText string | HeaderList "string list"

record 'b http_request =
  rq_idempotencyKey :: header_value
  rq_body :: "'b option"
  rq_userId :: "string option"
  rq_baseUrl :: string
  rq_path :: string
  rq_method :: string

text \<open>Before the store is asked: pass the request on untouched, refuse the key, or call
  \<open>acquire\<close> (with its default lock duration).\<close>

datatype 'b admission = PassThrough | InvalidKey | TryAcquire "'b acquire_call"

definition request_hash :: "(string \<Rightarrow> string) \<Rightarrow> ('b \<Rightarrow> string) \<Rightarrow> 'b http_request \<Rightarrow> string" where
  "request_hash sha256 stringify req =
     sha256 (case rq_body req of None \<Rightarrow> '''' | Some b \<Rightarrow> stringify b)"

definition admit :: "(string \<Rightarrow> string) \<Rightarrow> ('b \<Rightarrow> string) \<Rightarrow> date \<Rightarrow> 'b http_request \<Rightarrow> 'b admission" where
  "admit sha256 stringify now req =
     (case rq_idempotencyKey req of
        HeaderText raw \<Rightarrow>
          if trim raw = [] then PassThrough
          else if 255 < length (trim raw) then InvalidKey
          else TryAcquire (start_acquire (trim raw) (rq_baseUrl req @ rq_path req) (rq_method req)
                 (request_hash sha256 stringify req)
                 (if truthy (rq_userId req) then rq_userId req else None) 30000 now)
      | _ \<Rightarrow> PassThrough)"

text \<open>What the client gets, or that the handler runs as the owner of the key.\<close>

datatype 'b idem_reply =
    ErrorReply int string
  | ReplayReply int "'b option"
  | RunHandler

definition reply_of :: "'b AcquireResult \<Rightarrow> 'b idem_reply" where
  "reply_of res =
     (case res of
        Mismatch \<Rightarrow> ErrorReply 422 ''IDEMPOTENCY_KEY_PAYLOAD_MISMATCH''
      | Completed row \<Rightarrow>
          ReplayReply (case ik_responseStatusCode row of None \<Rightarrow> 200 | Some c \<Rightarrow> if c = 0 then 200 else c)
            (ik_responseBody row)
      | InProgress \<Rightarrow> ErrorReply 409 ''IDEMPOTENCY_KEY_IN_PROGRESS''
      | Acquired \<Rightarrow> RunHandler)"

text \<open>The \<open>finish\<close> listener of a request that owned the key.\<close>

definition on_finish :: "string \<Rightarrow> int \<Rightarrow> 'b option \<Rightarrow> 'b idem_table \<Rightarrow> 'b idem_table" where
  "on_finish key statusCode body tbl =
     (if 200 \<le> statusCode \<and> statusCode < 500
      then complete key statusCode [(''content-type'', ''application/json'')] body tbl
      else fail_key key tbl)"

section \<open>Undisturbed behaviour\<close>

lemmas store_defs = sql_insert_def sql_reclaim_def complete_def fail_key_def on_finish_def
lemmas acquire_defs = acquire_def acquire_step_def start_acquire_def inspect_row_def numeral_3_eq_3

lemma acquire_result:
  "acquire key path meth hash userId ms now dbNow tbl =
     (case map_of tbl key of
        None \<Rightarrow> (Returned Acquired, snd (sql_insert key userId path meth hash (now + ms) dbNow tbl))
      | Some row \<Rightarrow>
          (case inspect_row hash now row of
             AtReclaim \<Rightarrow>
               if ik_status row = IN_PROGRESS \<and> the (ik_lockedUntil row) < dbNow
               then (Returned Acquired, snd (sql_reclaim key (now + ms) dbNow tbl))
               else (Returned InProgress, tbl)
           | pc \<Rightarrow> (pc, tbl)))"
  by (cases "map_of tbl key")
    (auto simp: acquire_defs store_defs split: option.splits)

section \<open>Interleavings\<close>

text \<open>Requests in flight, by a request identifier, each in the middle of its \<open>acquire\<close> or
  running its handler as an owner (\<^term>\<open>Returned Acquired\<close>).\<close>

record 'b idem_system =
  is_table :: "'b idem_table"
  is_calls :: "nat \<Rightarrow> 'b acquire_call option"

definition owns :: "'b idem_system \<Rightarrow> nat \<Rightarrow> string \<Rightarrow> bool" where
  "owns s i k \<longleftrightarrow> (\<exists>a. is_calls s i = Some a \<and> aq_key a = k \<and> aq_pc a = Returned Acquired)"

text \<open>No lock in the table has expired for the database.\<close>

definition locks_fresh :: "date \<Rightarrow> 'b idem_table \<Rightarrow> bool" where
  "locks_fresh dbNow tbl \<longleftrightarrow>
     (\<forall>k row t. map_of tbl k = Some row \<and> ik_status row = IN_PROGRESS \<and> ik_lockedUntil row = Some t \<longrightarrow> dbNow \<le> t)"

inductive idem_step :: "'b idem_system \<Rightarrow> 'b idem_system \<Rightarrow> bool" where
  arrive: "is_calls s i = None \<Longrightarrow> aq_pc a = AtInsert \<Longrightarrow> idem_step s (s\<lparr>is_calls := (is_calls s)(i \<mapsto> a)\<rparr>)"
| statement: "is_calls s i = Some a \<Longrightarrow> locks_fresh dbNow (is_table s) \<Longrightarrow>
    acquire_step now dbNow a (is_table s) = (a', tbl') \<Longrightarrow>
    idem_step s (s\<lparr>is_table := tbl', is_calls := (is_calls s)(i \<mapsto> a')\<rparr>)"
| finish: "owns s i k \<Longrightarrow>
    idem_step s (s\<lparr>is_table := on_finish k statusCode body (is_table s), is_calls := (is_calls s)(i := None)\<rparr>)"

inductive idem_reach :: "'b idem_system \<Rightarrow> bool" where
  start: "idem_reach \<lparr>is_table = [], is_calls = (\<lambda>_. None)\<rparr>"
| step: "idem_reach s \<Longrightarrow> idem_step s s' \<Longrightarrow> idem_reach s'"

text \<open>Every owner holds the row of its key, and alone.\<close>

definition idem_inv :: "'b idem_system \<Rightarrow> bool" where
  "idem_inv s \<longleftrightarrow>
     (\<forall>i k. owns s i k \<longrightarrow> (\<exists>row. map_of (is_table s) k = Some row \<and> ik_status row = IN_PROGRESS)) \<and>
     (\<forall>i j k. owns s i k \<and> owns s j k \<longrightarrow> i = j)"

text \<open>What a statement of \<open>acquire\<close> does while the locks are fresh: it takes a free key, or
  leaves the table alone and does not become an owner.\<close>

lemma acquire_step_cases:
  assumes "acquire_step now dbNow a tbl = (a', tbl')" "locks_fresh dbNow tbl"
  obtains (taken) row where "map_of tbl (aq_key a) = None" "aq_key a' = aq_key a"
      "map_of tbl' = (map_of tbl)(aq_key a \<mapsto> row)" "ik_status row = IN_PROGRESS"
  | (kept) "tbl' = tbl" "aq_key a' = aq_key a"
      "aq_pc a' = Returned Acquired \<longleftrightarrow> aq_pc a = Returned Acquired"
proof (cases "aq_pc a")
  case AtInsert
  show thesis
  proof (cases "map_of tbl (aq_key a)")
    case None
    with AtInsert assms(1) show thesis by (intro taken) (auto simp: acquire_step_def sql_insert_def)
  next
    case (Some row)
    with AtInsert assms(1) show thesis by (intro kept) (auto simp: acquire_step_def sql_insert_def)
  qed
next
  case AtSelect
  with assms(1) show thesis
    by (intro kept) (auto simp: acquire_step_def inspect_row_def split: if_splits option.splits)
next
  case AtReclaim
  have "\<not> fst (sql_reclaim (aq_key a) (aq_lockedUntil a) dbNow tbl)"
    using assms(2) [unfolded locks_fresh_def, rule_format, of "aq_key a"]
    by (auto simp: sql_reclaim_def not_less split: option.splits)
  moreover from this have "snd (sql_reclaim (aq_key a) (aq_lockedUntil a) dbNow tbl) = tbl"
    by (auto simp: sql_reclaim_def split: option.splits if_splits)
  ultimately have "sql_reclaim (aq_key a) (aq_lockedUntil a) dbNow tbl = (False, tbl)"
    by (metis (full_types) prod.collapse)
  with AtReclaim assms(1) show thesis by (intro kept) (auto simp: acquire_step_def)
next
  case (Returned res)
  with assms(1) show thesis by (intro kept) (auto simp: acquire_step_def)
qed

lemma owns_upd:
  "owns (s\<lparr>is_table := tbl, is_calls := (is_calls s)(i := c)\<rparr>) j k \<longleftrightarrow>
     (if j = i then (case c of None \<Rightarrow> False | Some a \<Rightarrow> aq_key a = k \<and> aq_pc a = Returned Acquired) else owns s j k)"
  by (auto simp: owns_def split: option.splits)

lemma on_finish_other: "k' \<noteq> k \<Longrightarrow> map_of (on_finish k st body tbl) k' = map_of tbl k'"
  by (auto simp: store_defs split: option.splits)

lemma idem_step_inv:
  assumes "idem_step s s'" "idem_inv s"
  shows "idem_inv s'"
  using assms
proof (cases rule: idem_step.cases)
  case (arrive i a)
  then have "owns s' j k \<longleftrightarrow> owns s j k" for j k by (auto simp: owns_def)
  with arrive assms(2) show ?thesis by (simp add: idem_inv_def)
next
  case (statement i a dbNow now a' tbl')
  show ?thesis
  proof (cases rule: acquire_step_cases [OF statement(4,3)])
    case (1 row)
    have "\<not> owns s j (aq_key a)" for j
      using assms(2) 1(1) unfolding idem_inv_def by (metis option.distinct(1))
    with 1 assms(2) statement(1) show ?thesis unfolding idem_inv_def statement(1) owns_upd by (auto; blast)
  next
    case 2
    then have "owns s' j k \<longleftrightarrow> owns s j k" for j k
      using statement(2) by (cases "j = i") (auto simp: statement(1) owns_def)
    with 2 assms(2) show ?thesis unfolding idem_inv_def by (simp add: statement(1))
  qed
next
  case (finish i k st body)
  have other: "\<not> owns s j k" if "j \<noteq> i" for j using that finish(2) assms(2) unfolding idem_inv_def by blast
  show ?thesis
    using assms(2) other unfolding idem_inv_def finish(1) owns_upd
    by (auto simp: on_finish_other split: if_splits) (metis on_finish_other)
qed

lemma idem_reach_inv: "idem_reach s \<Longrightarrow> idem_inv s"
proof (induction rule: idem_reach.induct)
  case start
  then show ?case by (simp add: idem_inv_def owns_def)
next
  case (step s s')
  then show ?case using idem_step_inv by blast
qed

text \<open>Once a response is stored, no step changes the row.\<close>

lemma idem_step_completed:
  assumes "idem_step s s'" "idem_inv s" "map_of (is_table s) k = Some row" "ik_status row = COMPLETED"
  shows "map_of (is_table s') k = Some row"
  using assms(1)
proof (cases rule: idem_step.cases)
  case (arrive i a)
  then show ?thesis using assms(3) by simp
next
  case (statement i a dbNow now a' tbl')
  show ?thesis
    by (cases rule: acquire_step_cases [OF statement(4,3)]) (use assms(3) statement(1) in auto)
next
  case (finish i k' st body)
  have "k' \<noteq> k"
  proof
    assume "k' = k"
    with finish(2) assms(2) obtain row' where "map_of (is_table s) k = Some row'" "ik_status row' = IN_PROGRESS"
      unfolding idem_inv_def by blast
    with assms(3,4) show False by simp
  qed
  then show ?thesis using assms(3) finish(1) by (simp add: on_finish_other)
qed

lemma idem_steps_completed:
  assumes "idem_step\<^sup>*\<^sup>* s s'" "idem_inv s" "map_of (is_table s) k = Some row" "ik_status row = COMPLETED"
  shows "map_of (is_table s') k = Some row \<and> idem_inv s'"
  using assms(1)
proof (induction rule: rtranclp_induct)
  case base
  then show ?case using assms by simp
next
  case (step s1 s2)
  then show ?case using idem_step_completed idem_step_inv assms(4) by blast
qed

section \<open>Properties\<close>

text \<open>
  C8: an idempotency key has one owner. However the statements of any number of concurrent
  requests interleave, as long as no lock runs out, at most one request at a time has acquired
  a key and runs its handler, and the row of the key is then \<open>IN_PROGRESS\<close>.
\<close>

theorem idempotency_single_owner:
  assumes "idem_reach s" "owns s i k" "owns s j k"
  shows "i = j \<and> (\<exists>row. map_of (is_table s) k = Some row \<and> ik_status row = IN_PROGRESS)"
  using idem_reach_inv [OF assms(1)] assms(2,3) unfolding idem_inv_def by blast

definition demo_call :: "string \<Rightarrow> unit acquire_call" where
  "demo_call hash = start_acquire ''k'' ''/pay'' ''POST'' hash None 30000 1000"

definition demo_owned :: "unit idem_system" where
  "demo_owned = \<lparr>is_table = snd (sql_insert ''k'' None ''/pay'' ''POST'' ''h'' 31000 1000 []),
     is_calls = (\<lambda>_. None)(7 \<mapsto> (demo_call ''h'')\<lparr>aq_pc := Returned Acquired\<rparr>)\<rparr>"

lemma demo_owned_reach: "idem_reach demo_owned"
proof -
  let ?s = "\<lparr>is_table = [], is_calls = (\<lambda>_. None)\<rparr> :: unit idem_system"
  have "idem_step ?s (?s\<lparr>is_calls := (is_calls ?s)(7 \<mapsto> demo_call ''h'')\<rparr>)"
    by (rule idem_step.arrive) (simp_all add: demo_call_def start_acquire_def)
  with idem_reach.start have "idem_reach (?s\<lparr>is_calls := (is_calls ?s)(7 \<mapsto> demo_call ''h'')\<rparr>)"
    by (rule idem_reach.step)
  moreover have "idem_step (?s\<lparr>is_calls := (is_calls ?s)(7 \<mapsto> demo_call ''h'')\<rparr>) demo_owned"
  proof -
    let ?s1 = "?s\<lparr>is_calls := (is_calls ?s)(7 \<mapsto> demo_call ''h'')\<rparr>"
    have "acquire_step 1000 1000 (demo_call ''h'') (is_table ?s1) =
        ((demo_call ''h'')\<lparr>aq_pc := Returned Acquired\<rparr>, is_table demo_owned)"
      by (simp add: acquire_step_def demo_call_def start_acquire_def sql_insert_def demo_owned_def)
    from idem_step.statement [of ?s1 7, OF _ _ this] show ?thesis
      by (simp add: locks_fresh_def demo_owned_def)
  qed
  ultimately show ?thesis by (rule idem_reach.step)
qed

theorem idempotency_single_owner_witness:
  "owns demo_owned 7 ''k'' \<and> (\<exists>row. map_of (is_table demo_owned) ''k'' = Some row \<and> ik_status row = IN_PROGRESS)"
proof -
  have "owns demo_owned 7 ''k''" by (simp add: owns_def demo_owned_def demo_call_def start_acquire_def)
  with idempotency_single_owner [OF demo_owned_reach this this] show ?thesis by blast
qed



text \<open>What the store does not protect: an owner whose lock ran out. The key is reclaimed by a
  second request; the failure of the first then deletes the second one's row, and a third
  request acquires the key while the second still runs.\<close>

lemma stale_owner_breaks_lock:
  "(let t1 = snd (acquire ''k'' ''/pay'' ''POST'' ''h'' None 30000 0 0 ([] :: unit idem_table));
        (r2, t2) = acquire ''k'' ''/pay'' ''POST'' ''h'' None 30000 31000 31000 t1;
        t3 = on_finish ''k'' 500 None t2;
        (r4, t4) = acquire ''k'' ''/pay'' ''POST'' ''h'' None 30000 32000 32000 t3
    in r2 = Returned Acquired \<and> r4 = Returned Acquired)"
  by code_simp

text \<open>Nor is a key bound to the route it was used on: the same key and body on another path
  replay the first route's response.\<close>

lemma key_not_bound_to_path:
  "(let t1 = on_finish ''k'' 201 (Some True) (snd (acquire ''k'' ''/a'' ''POST'' ''h'' None 30000 0 0 []))
    in (case fst (acquire ''k'' ''/b'' ''PUT'' ''h'' (Some ''other'') 30000 9 9 t1) of
          Returned res \<Rightarrow> (case reply_of res of ReplayReply c b \<Rightarrow> c = 201 \<and> b = Some True | _ \<Rightarrow> False)
        | _ \<Rightarrow> False))"
  by code_simp

end
