(* ===== verification/LP_RateLimit.thy ===== *)
theory LP_RateLimit
  imports LP_Prelude Complex_Main
begin

text \<open>
  Rate limiting: the token bucket in memory and in Redis
  (\<^verbatim>\<open>src/src/infrastructure/ratelimit\<close>), and the middleware
  (\<^verbatim>\<open>src/src/middleware/rateLimiterMiddleware.ts\<close>).

  Token counts are exact rationals where the code has floating-point numbers. Time is in
  milliseconds; the Lua script's seconds are the same instant divided by 1000. A Redis hash
  with a time to live is a bucket with the instant at which it disappears; the script runs
  atomically, and both clocks agree. Redis may also fail, which the strategy answers by
  admitting the request.
\<close>

section \<open>Buckets\<close>

record rateLimitResult =
  rl_allowed :: bool
  rl_limit :: rat
  rl_remaining :: int
  rl_resetMs :: int
  rl_retryAfterSeconds :: int

record bucketState =
  bk_tokens :: rat
  bk_lastRefillMs :: int

record limits =
  lm_capacity :: rat
  lm_refillRate :: rat

type_synonym buckets = "(string, bucketState) jsmap"

section \<open>InMemoryTokenBucketStrategy\<close>

definition refilled :: "limits \<Rightarrow> int \<Rightarrow> bucketState \<Rightarrow> rat" where
  "refilled lm nowMs b =
     min (lm_capacity lm) (bk_tokens b + max 0 (of_int (nowMs - bk_lastRefillMs b) / 1000) * lm_refillRate lm)"

definition memory_consume ::
    "limits \<Rightarrow> int \<Rightarrow> string \<Rightarrow> rat \<Rightarrow> buckets \<Rightarrow> rateLimitResult \<times> buckets" where
  "memory_consume lm nowMs key cost bs =
     (let bucket = (case map_of bs key of
            None \<Rightarrow> \<lparr>bk_tokens = lm_capacity lm, bk_lastRefillMs = nowMs\<rparr>
          | Some b \<Rightarrow> b);
          currentTokens = refilled lm nowMs bucket
      in if cost \<le> currentTokens then
           let remainingTokens = currentTokens - cost in
           (\<lparr>rl_allowed = True, rl_limit = lm_capacity lm, rl_remaining = \<lfloor>remainingTokens\<rfloor>,
             rl_resetMs = \<lceil>(lm_capacity lm - remainingTokens) / lm_refillRate lm * 1000\<rceil>,
             rl_retryAfterSeconds = 0\<rparr>,
            AList.update key \<lparr>bk_tokens = remainingTokens, bk_lastRefillMs = nowMs\<rparr> bs)
         else
           let waitSeconds = max 1 \<lceil>(cost - currentTokens) / lm_refillRate lm\<rceil> in
           (\<lparr>rl_allowed = False, rl_limit = lm_capacity lm, rl_remaining = \<lfloor>currentTokens\<rfloor>,
             rl_resetMs = waitSeconds * 1000, rl_retryAfterSeconds = waitSeconds\<rparr>,
            AList.update key \<lparr>bk_tokens = currentTokens, bk_lastRefillMs = nowMs\<rparr> bs))"

definition memory_reset :: "string \<Rightarrow> buckets \<Rightarrow> buckets" where
  "memory_reset key bs = AList.delete key bs"

section \<open>RedisTokenBucketStrategy\<close>

record redisBucket =
  rb_tokens :: rat
  rb_last_updated :: rat
  rb_expiresAt :: rat

type_synonym redis_buckets = "(string, redisBucket) jsmap"

definition redis_key :: "string \<Rightarrow> string" where
  "redis_key key = ''ratelimit:v1:'' @ key"

lemma redis_key_inject [simp]: "redis_key k = redis_key k' \<longleftrightarrow> k = k'"
  by (simp add: redis_key_def)

definition redis_get :: "rat \<Rightarrow> string \<Rightarrow> redis_buckets \<Rightarrow> redisBucket option" where
  "redis_get now key bs =
     (case map_of bs key of
        None \<Rightarrow> None
      | Some b \<Rightarrow> if now < rb_expiresAt b then Some b else None)"

definition lua_ttl :: "limits \<Rightarrow> int" where
  "lua_ttl lm = max 60 \<lceil>lm_capacity lm / lm_refillRate lm * 2\<rceil>"

definition lua_token_bucket ::
    "limits \<Rightarrow> rat \<Rightarrow> rat \<Rightarrow> string \<Rightarrow> redis_buckets \<Rightarrow> (int \<times> int \<times> int \<times> int) \<times> redis_buckets" where
  "lua_token_bucket lm cost now key bs =
     (let (tokens, last_updated) =
            (case redis_get now key bs of
               None \<Rightarrow> (lm_capacity lm, now)
             | Some b \<Rightarrow> (rb_tokens b, rb_last_updated b));
          current_tokens = min (lm_capacity lm) (tokens + max 0 (now - last_updated) * lm_refillRate lm);
          allowed = cost \<le> current_tokens;
          remaining = (if allowed then current_tokens - cost else current_tokens);
          retry_after = (if allowed then 0 else max 1 \<lceil>(cost - current_tokens) / lm_refillRate lm\<rceil>)
      in ((if allowed then 1 else 0, \<lfloor>remaining\<rfloor>,
           \<lceil>(lm_capacity lm - remaining) / lm_refillRate lm * 1000\<rceil>, retry_after),
          AList.update key \<lparr>rb_tokens = remaining, rb_last_updated = now,
            rb_expiresAt = now + of_int (lua_ttl lm)\<rparr> bs))"

text \<open>\<open>None\<close> is an operational error of Redis.\<close>

definition redis_consume ::
    "limits \<Rightarrow> int \<Rightarrow> string \<Rightarrow> rat \<Rightarrow> redis_buckets option \<Rightarrow> rateLimitResult \<times> redis_buckets option" where
  "redis_consume lm nowMs key cost redis =
     (case redis of
        None \<Rightarrow>
          (\<lparr>rl_allowed = True, rl_limit = lm_capacity lm, rl_remaining = \<lfloor>lm_capacity lm\<rfloor>, rl_resetMs = 0,
            rl_retryAfterSeconds = 0\<rparr>, None)
      | Some bs \<Rightarrow>
          (case lua_token_bucket lm cost (of_int nowMs / 1000) (redis_key key) bs of
             ((allowed, remaining, resetMs, retryAfter), bs') \<Rightarrow>
               (\<lparr>rl_allowed = (allowed = 1), rl_limit = lm_capacity lm, rl_remaining = remaining,
                 rl_resetMs = resetMs, rl_retryAfterSeconds = retryAfter\<rparr>, Some bs')))"

definition redis_reset :: "string \<Rightarrow> redis_buckets option \<Rightarrow> redis_buckets option" where
  "redis_reset key redis = map_option (AList.delete (redis_key key)) redis"

section \<open>The middleware\<close>

record limited_request =
  lr_forwardedFor :: "string option"
  lr_ip :: "string option"
  lr_userId :: "string option"
  lr_baseUrl :: string
  lr_path :: string

definition default_key :: "limited_request \<Rightarrow> string" where
  "default_key req =
     (case lr_forwardedFor req of
        Some f \<Rightarrow> trim (takeWhile (\<lambda>c. c \<noteq> CHR '','') f)
      | None \<Rightarrow> or_default (lr_ip req) ''anonymous'') @ '':'' @
     or_default (lr_userId req) ''anon'' @ '':'' @ lr_baseUrl req @ lr_path req"

text \<open>Pass the request on, or answer 429 with the seconds to wait; in both cases with the
  limit, the remaining tokens and the reset time in the headers. A strategy that throws lets
  the request pass.\<close>

datatype limit_reply = NextHandler | TooMany int

definition rate_limit :: "(rateLimitResult result) \<Rightarrow> limit_reply" where
  "rate_limit res =
     (case res of
        Inl _ \<Rightarrow> NextHandler
      | Inr r \<Rightarrow> if rl_allowed r then NextHandler else TooMany (rl_retryAfterSeconds r))"

section \<open>What a token bucket promises\<close>

definition limits_ok :: "limits \<Rightarrow> bool" where
  "limits_ok lm \<longleftrightarrow> 0 < lm_capacity lm \<and> 0 < lm_refillRate lm"

text \<open>The fields of an answer on which the strategies are to agree, and what they are for a call
  that finds \<open>lvl\<close> tokens.\<close>

definition decision :: "rateLimitResult \<Rightarrow> bool \<times> rat \<times> int \<times> int" where
  "decision r = (rl_allowed r, rl_limit r, rl_remaining r, rl_retryAfterSeconds r)"

definition spent :: "rat \<Rightarrow> rat \<Rightarrow> rat" where
  "spent cost lvl = (if cost \<le> lvl then lvl - cost else lvl)"

definition later :: "limits \<Rightarrow> int \<Rightarrow> rat \<Rightarrow> rat" where
  "later lm ms lvl = min (lm_capacity lm) (lvl + of_int ms / 1000 * lm_refillRate lm)"

definition decide :: "limits \<Rightarrow> rat \<Rightarrow> rat \<Rightarrow> bool \<times> rat \<times> int \<times> int" where
  "decide lm cost lvl = (cost \<le> lvl, lm_capacity lm, \<lfloor>spent cost lvl\<rfloor>,
     if cost \<le> lvl then 0 else max 1 \<lceil>(cost - lvl) / lm_refillRate lm\<rceil>)"

text \<open>Calls with their time, key and cost, in order; a strategy as the function \<open>consume\<close>; and the
  abstract bucket: the level of every key at the time of the last call.\<close>

type_synonym limit_call = "int \<times> string \<times> rat"
type_synonym 's consume_fn = "limits \<Rightarrow> int \<Rightarrow> string \<Rightarrow> rat \<Rightarrow> 's \<Rightarrow> rateLimitResult \<times> 's"

fun consume_all :: "'s consume_fn \<Rightarrow> limits \<Rightarrow> limit_call list \<Rightarrow> 's \<Rightarrow> rateLimitResult list" where
  "consume_all consume lm [] s = []"
| "consume_all consume lm ((t, key, cost) # cs) s =
     (case consume lm t key cost s of (r, s') \<Rightarrow> r # consume_all consume lm cs s')"

fun admitted :: "'s consume_fn \<Rightarrow> limits \<Rightarrow> string \<Rightarrow> limit_call list \<Rightarrow> 's \<Rightarrow> rat" where
  "admitted consume lm k [] s = 0"
| "admitted consume lm k ((t, key, cost) # cs) s =
     (case consume lm t key cost s of (r, s') \<Rightarrow>
        (if key = k \<and> rl_allowed r then cost else 0) + admitted consume lm k cs s')"

fun ideal_run :: "limits \<Rightarrow> int \<Rightarrow> limit_call list \<Rightarrow> (string \<Rightarrow> rat) \<Rightarrow> (bool \<times> rat \<times> int \<times> int) list" where
  "ideal_run lm T [] f = []"
| "ideal_run lm T ((t, key, cost) # cs) f =
     (let g = (\<lambda>k. later lm (t - T) (f k))
      in decide lm cost (g key) # ideal_run lm t cs (g(key := later lm 0 (spent cost (g key)))))"

text \<open>The contract of a strategy: the level of a key refills with time up to the capacity, an
  answer is decided by the level the call finds, and a call takes its cost from its own key and
  from no other. \<open>sound\<close> says which states occur at a time.\<close>

locale token_bucket =
  fixes consume :: "'s consume_fn"
    and tokens :: "limits \<Rightarrow> int \<Rightarrow> string \<Rightarrow> 's \<Rightarrow> rat"
    and sound :: "limits \<Rightarrow> int \<Rightarrow> 's \<Rightarrow> bool"
  assumes tokens_nonneg: "limits_ok lm \<Longrightarrow> sound lm T s \<Longrightarrow> 0 \<le> tokens lm T k s"
    and tokens_later: "limits_ok lm \<Longrightarrow> sound lm T s \<Longrightarrow> T \<le> t \<Longrightarrow> tokens lm t k s = later lm (t - T) (tokens lm T k s)"
    and answer: "limits_ok lm \<Longrightarrow> sound lm T s \<Longrightarrow> T \<le> t \<Longrightarrow>
      decision (fst (consume lm t key cost s)) = decide lm cost (tokens lm t key s)"
    and takes: "limits_ok lm \<Longrightarrow> sound lm T s \<Longrightarrow> T \<le> t \<Longrightarrow>
      tokens lm t k (snd (consume lm t key cost s)) = (if k = key then later lm 0 (spent cost (tokens lm t key s)) else tokens lm t k s)"
    and stays_sound: "limits_ok lm \<Longrightarrow> sound lm T s \<Longrightarrow> T \<le> t \<Longrightarrow> sound lm t (snd (consume lm t key cost s))"
begin

text \<open>Every run decides as the abstract bucket does.\<close>

lemma refines_ideal:
  assumes "limits_ok lm" "sound lm T s" "sorted (T # map fst cs)"
  shows "map decision (consume_all consume lm cs s) = ideal_run lm T cs (\<lambda>k. tokens lm T k s)"
  using assms
proof (induction cs arbitrary: s T)
  case (Cons c cs)
  obtain t key cost where c: "c = (t, key, cost)" by (metis prod_cases3)
  obtain r s1 where m: "consume lm t key cost s = (r, s1)" by fastforce
  have t: "T \<le> t" "sorted (t # map fst cs)" using Cons.prems(3) c by simp_all
  note at = Cons.prems(1,2) t(1)
  have lvl: "(\<lambda>k. later lm (t - T) (tokens lm T k s)) = (\<lambda>k. tokens lm t k s)"
    using tokens_later [OF at] by simp
  have next_lvl: "(\<lambda>k. tokens lm t k s1) = (\<lambda>k. tokens lm t k s)(key := later lm 0 (spent cost (tokens lm t key s)))"
    using takes [OF at, of _ key cost] m by (simp add: fun_eq_iff)
  have "map decision (consume_all consume lm cs s1) = ideal_run lm t cs (\<lambda>k. tokens lm t k s1)"
    by (rule Cons.IH [OF Cons.prems(1) _ t(2)]) (use stays_sound [OF at, of key cost] m in simp)
  then show ?case using answer [OF at, of key cost] m lvl next_lvl by (simp add: c Let_def)
qed simp

lemma allowed_iff:
  assumes "limits_ok lm" "sound lm T s" "T \<le> t"
  shows "rl_allowed (fst (consume lm t key cost s)) \<longleftrightarrow> cost \<le> tokens lm t key s"
  using answer [OF assms, of key cost] by (simp add: decision_def decide_def)

lemma admitted_bound:
  assumes "limits_ok lm" "sound lm T s" "sorted (T # map fst cs @ [t1])"
  shows "admitted consume lm k cs s \<le> tokens lm T k s + of_int (t1 - T) / 1000 * lm_refillRate lm"
  using assms
proof (induction cs arbitrary: s T)
  case Nil
  then show ?case using tokens_nonneg [OF Nil(1,2), of k] by (simp add: limits_ok_def)
next
  case (Cons c cs)
  obtain t key cost where c: "c = (t, key, cost)" by (metis prod_cases3)
  obtain r s1 where m: "consume lm t key cost s = (r, s1)" by fastforce
  have t: "T \<le> t" "sorted (t # map fst cs @ [t1])" using Cons.prems(3) c by simp_all
  note at = Cons.prems(1,2) t(1)
  have IH: "admitted consume lm k cs s1 \<le> tokens lm t k s1 + of_int (t1 - t) / 1000 * lm_refillRate lm"
    by (rule Cons.IH [OF Cons.prems(1) _ t(2)]) (use stays_sound [OF at, of key cost] m in simp)
  have "(if key = k \<and> rl_allowed r then cost else 0) + tokens lm t k s1 \<le> tokens lm t k s"
    using allowed_iff [OF at, of key cost] takes [OF at, of k key cost] m by (auto simp: spent_def later_def)
  moreover have "tokens lm t k s \<le> tokens lm T k s + of_int (t - T) / 1000 * lm_refillRate lm"
    using tokens_later [OF at, of k] by (simp add: later_def)
  moreover have "of_int (t1 - T) / 1000 * lm_refillRate lm =
      of_int (t1 - t) / 1000 * lm_refillRate lm + of_int (t - T) / 1000 * lm_refillRate lm"
    by (simp add: field_simps)
  moreover have "admitted consume lm k (c # cs) s = (if key = k \<and> rl_allowed r then cost else 0) + admitted consume lm k cs s1"
    by (simp add: c m)
  ultimately show ?case using IH by linarith
qed

text \<open>Who waits as long as the answer says is admitted.\<close>

lemma wait_admits:
  assumes "limits_ok lm" "sound lm T s" "T \<le> t" "cost \<le> lm_capacity lm"
    and "consume lm t key cost s = (r, s')" "\<not> rl_allowed r"
  shows "rl_allowed (fst (consume lm (t + rl_retryAfterSeconds r * 1000) key cost s')) \<and> 1 \<le> rl_retryAfterSeconds r"
proof -
  let ?l = "tokens lm t key s" and ?w = "rl_retryAfterSeconds r"
  note at = assms(1-3)
  have no: "\<not> cost \<le> ?l" using allowed_iff [OF at, of key cost] assms(5,6) by simp
  have w: "?w = max 1 \<lceil>(cost - ?l) / lm_refillRate lm\<rceil>"
    using answer [OF at, of key cost] assms(5) no by (simp add: decision_def decide_def)
  then have "\<lceil>(cost - ?l) / lm_refillRate lm\<rceil> \<le> ?w" by simp
  then have "(cost - ?l) / lm_refillRate lm \<le> of_int ?w" by (simp only: ceiling_le_iff)
  then have enough: "cost \<le> ?l + of_int ?w * lm_refillRate lm"
    using assms(1) by (simp add: limits_ok_def divide_le_eq)
  have s': "sound lm t s'" "tokens lm t key s' = ?l"
    using stays_sound [OF at, of key cost] takes [OF at, of key key cost] assms(4,5) no by (simp_all add: spent_def later_def)
  have le: "t \<le> t + ?w * 1000" using w by simp
  have "cost \<le> tokens lm (t + ?w * 1000) key s'"
    unfolding tokens_later [OF assms(1) s'(1) le] s'(2) using enough assms(4) by (simp add: later_def)
  then show ?thesis using allowed_iff [OF assms(1) s'(1) le, of key cost] w by simp
qed

end

section \<open>The bucket in memory\<close>

text \<open>The tokens a key has at an instant.\<close>

definition level :: "limits \<Rightarrow> int \<Rightarrow> string \<Rightarrow> buckets \<Rightarrow> rat" where
  "level lm t key bs = (case map_of bs key of None \<Rightarrow> lm_capacity lm | Some b \<Rightarrow> refilled lm t b)"

definition redis_level :: "limits \<Rightarrow> int \<Rightarrow> string \<Rightarrow> redis_buckets \<Rightarrow> rat" where
  "redis_level lm t key bs =
     (case redis_get (of_int t / 1000) (redis_key key) bs of
        None \<Rightarrow> lm_capacity lm
      | Some b \<Rightarrow> min (lm_capacity lm)
          (rb_tokens b + max 0 (of_int t / 1000 - rb_last_updated b) * lm_refillRate lm))"

lemma later_later:
  assumes "limits_ok lm" "0 \<le> a" "0 \<le> b"
  shows "later lm b (later lm a x) = later lm (a + b) x"
proof -
  have "0 \<le> of_int b / 1000 * lm_refillRate lm" using assms by (simp add: limits_ok_def)
  moreover have "of_int (a + b) / 1000 * lm_refillRate lm = of_int a / 1000 * lm_refillRate lm + of_int b / 1000 * lm_refillRate lm"
    by (simp add: field_simps)
  ultimately show ?thesis unfolding later_def by linarith
qed

text \<open>A call by the level it finds.\<close>

lemma memory_consume_level:
  assumes "limits_ok lm"
  shows "memory_consume lm t key cost bs =
    (if cost \<le> level lm t key bs then
       (\<lparr>rl_allowed = True, rl_limit = lm_capacity lm, rl_remaining = \<lfloor>level lm t key bs - cost\<rfloor>,
         rl_resetMs = \<lceil>(lm_capacity lm - (level lm t key bs - cost)) / lm_refillRate lm * 1000\<rceil>, rl_retryAfterSeconds = 0\<rparr>,
        AList.update key \<lparr>bk_tokens = level lm t key bs - cost, bk_lastRefillMs = t\<rparr> bs)
     else
       (\<lparr>rl_allowed = False, rl_limit = lm_capacity lm, rl_remaining = \<lfloor>level lm t key bs\<rfloor>,
         rl_resetMs = max 1 \<lceil>(cost - level lm t key bs) / lm_refillRate lm\<rceil> * 1000,
         rl_retryAfterSeconds = max 1 \<lceil>(cost - level lm t key bs) / lm_refillRate lm\<rceil>\<rparr>,
        AList.update key \<lparr>bk_tokens = level lm t key bs, bk_lastRefillMs = t\<rparr> bs))"
proof -
  have "refilled lm t (case map_of bs key of None \<Rightarrow> \<lparr>bk_tokens = lm_capacity lm, bk_lastRefillMs = t\<rparr> | Some b \<Rightarrow> b) =
      level lm t key bs"
    by (cases "map_of bs key") (simp_all add: level_def refilled_def)
  then show ?thesis by (simp only: memory_consume_def Let_def)
qed

lemma level_update: "level lm t k (AList.update key b bs) = (if k = key then refilled lm t b else level lm t k bs)"
  by (simp add: level_def)

definition memory_ok :: "limits \<Rightarrow> int \<Rightarrow> buckets \<Rightarrow> bool" where
  "memory_ok lm t bs \<longleftrightarrow> (\<forall>k b. map_of bs k = Some b \<longrightarrow> 0 \<le> bk_tokens b \<and> bk_lastRefillMs b \<le> t)"

lemma refilled_later: "bk_lastRefillMs b \<le> t \<Longrightarrow> refilled lm t b = later lm (t - bk_lastRefillMs b) (bk_tokens b)"
  by (simp add: refilled_def later_def)

lemma level_nonneg: "limits_ok lm \<Longrightarrow> memory_ok lm T bs \<Longrightarrow> 0 \<le> level lm t k bs"
  by (auto simp: level_def memory_ok_def refilled_def limits_ok_def split: option.splits)

lemma level_later:
  assumes "limits_ok lm" "memory_ok lm T bs" "T \<le> t"
  shows "level lm t k bs = later lm (t - T) (level lm T k bs)"
proof (cases "map_of bs k")
  case None
  then show ?thesis using assms(1,3) by (simp add: level_def later_def limits_ok_def)
next
  case (Some b)
  have "bk_lastRefillMs b \<le> T" using assms(2) Some by (simp add: memory_ok_def)
  then show ?thesis
    using Some assms(1,3) later_later [of lm "T - bk_lastRefillMs b" "t - T" "bk_tokens b"]
    by (simp add: level_def refilled_later)
qed

lemma memory_result:
  assumes "limits_ok lm"
  shows "decision (fst (memory_consume lm t key cost bs)) = decide lm cost (level lm t key bs)"
    "snd (memory_consume lm t key cost bs) =
      AList.update key \<lparr>bk_tokens = spent cost (level lm t key bs), bk_lastRefillMs = t\<rparr> bs"
  unfolding memory_consume_level [OF assms] by (simp_all add: decision_def decide_def spent_def)

interpretation memory: token_bucket memory_consume level memory_ok
proof
  fix lm t T key cost s k assume ok: "limits_ok lm" and s: "memory_ok lm T s"
  show "0 \<le> level lm T k s" using level_nonneg [OF ok s] .
  assume t: "T \<le> t"
  have nn: "0 \<le> spent cost (level lm t key s)" using level_nonneg [OF ok s] by (simp add: spent_def)
  show "level lm t k s = later lm (t - T) (level lm T k s)" using level_later [OF ok s t] .
  show "decision (fst (memory_consume lm t key cost s)) = decide lm cost (level lm t key s)" using memory_result(1) [OF ok] .
  show "memory_ok lm t (snd (memory_consume lm t key cost s))"
    unfolding memory_result(2) [OF ok] using s t nn by (fastforce simp: memory_ok_def)
  show "level lm t k (snd (memory_consume lm t key cost s)) =
      (if k = key then later lm 0 (spent cost (level lm t key s)) else level lm t k s)"
    unfolding memory_result(2) [OF ok] level_update by (simp add: refilled_later)
qed

section \<open>The bucket in Redis\<close>

text \<open>The hashes the script writes: not negative, never ahead of the time, and to live as long as
  the script said.\<close>

definition redis_ok :: "limits \<Rightarrow> int \<Rightarrow> redis_buckets \<Rightarrow> bool" where
  "redis_ok lm t bs \<longleftrightarrow> (\<forall>k b. map_of bs k = Some b \<longrightarrow> 0 \<le> rb_tokens b \<and> rb_last_updated b \<le> of_int t / 1000 \<and>
     rb_expiresAt b = rb_last_updated b + of_int (lua_ttl lm))"

lemma lua_result:
  "lua_token_bucket lm cost (of_int t / 1000) (redis_key key) bs =
    (let lvl = redis_level lm t key bs in
      ((if cost \<le> lvl then 1 else 0, \<lfloor>spent cost lvl\<rfloor>,
        \<lceil>(lm_capacity lm - spent cost lvl) / lm_refillRate lm * 1000\<rceil>,
        if cost \<le> lvl then 0 else max 1 \<lceil>(cost - lvl) / lm_refillRate lm\<rceil>),
       AList.update (redis_key key) \<lparr>rb_tokens = spent cost lvl, rb_last_updated = of_int t / 1000,
         rb_expiresAt = of_int t / 1000 + of_int (lua_ttl lm)\<rparr> bs))"
  if "limits_ok lm"
  using that
  by (auto simp: lua_token_bucket_def redis_level_def spent_def Let_def limits_ok_def split: option.splits)

text \<open>A bucket that disappears was full: its time to live is long enough to refill it.\<close>

lemma ttl_full:
  assumes "limits_ok lm" "of_int (lua_ttl lm) \<le> x" "0 \<le> lvl"
  shows "lm_capacity lm \<le> lvl + x * lm_refillRate lm"
proof -
  define q where "q = lm_capacity lm / lm_refillRate lm"
  have "\<lceil>q * 2\<rceil> \<le> lua_ttl lm" by (simp add: lua_ttl_def q_def)
  then have "q * 2 \<le> of_int (lua_ttl lm)" by (simp only: ceiling_le_iff)
  moreover have "0 \<le> q" using assms(1) by (simp add: limits_ok_def q_def)
  ultimately have "q \<le> x" using assms(2) by linarith
  then have "lm_capacity lm \<le> x * lm_refillRate lm" using assms(1) by (simp add: limits_ok_def divide_le_eq q_def)
  then show ?thesis using assms(3) by simp
qed

text \<open>So the time to live is never observed.\<close>

lemma redis_level_hash:
  assumes "limits_ok lm" "redis_ok lm T bs" "T \<le> t" "map_of bs (redis_key k) = Some b"
  shows "redis_level lm t k bs = min (lm_capacity lm) (rb_tokens b + (of_int t / 1000 - rb_last_updated b) * lm_refillRate lm)"
proof -
  have b: "0 \<le> rb_tokens b" "rb_last_updated b \<le> of_int T / 1000" "rb_expiresAt b = rb_last_updated b + of_int (lua_ttl lm)"
    using assms(2,4) by (auto simp: redis_ok_def)
  have "(of_int T / 1000 :: rat) \<le> of_int t / 1000" using assms(3) by (simp add: divide_right_mono)
  then have pos: "rb_last_updated b \<le> of_int t / 1000" using b(2) by linarith
  show ?thesis
  proof (cases "of_int t / 1000 < rb_expiresAt b")
    case True
    then show ?thesis using assms(4) pos by (simp add: redis_level_def redis_get_def)
  next
    case False
    then have "of_int (lua_ttl lm) \<le> of_int t / 1000 - rb_last_updated b" using b(3) by linarith
    from ttl_full [OF assms(1) this b(1)] False assms(4) show ?thesis by (simp add: redis_level_def redis_get_def)
  qed
qed

lemma redis_level_new: "map_of bs (redis_key k) = None \<Longrightarrow> redis_level lm t k bs = lm_capacity lm"
  by (simp add: redis_level_def redis_get_def)

lemma redis_level_later:
  assumes "limits_ok lm" "redis_ok lm T bs" "T \<le> t"
  shows "redis_level lm t k bs = later lm (t - T) (redis_level lm T k bs)"
proof (cases "map_of bs (redis_key k)")
  case None
  then show ?thesis using assms(1,3) by (simp add: redis_level_new later_def limits_ok_def)
next
  case (Some b)
  have "0 \<le> of_int (t - T) / 1000 * lm_refillRate lm" using assms(1,3) by (simp add: limits_ok_def)
  moreover have "(of_int t / 1000 - rb_last_updated b) * lm_refillRate lm =
      (of_int T / 1000 - rb_last_updated b) * lm_refillRate lm + of_int (t - T) / 1000 * lm_refillRate lm"
    by (simp add: algebra_simps diff_divide_distrib)
  ultimately show ?thesis
    unfolding redis_level_hash [OF assms Some] redis_level_hash [OF assms(1,2) order_refl Some] later_def by linarith
qed

lemma redis_level_nonneg:
  assumes "limits_ok lm" "redis_ok lm T bs"
  shows "0 \<le> redis_level lm T k bs"
proof (cases "map_of bs (redis_key k)")
  case None
  then show ?thesis using assms(1) by (simp add: redis_level_new limits_ok_def)
next
  case (Some b)
  have "0 \<le> rb_tokens b" "rb_last_updated b \<le> of_int T / 1000" using assms(2) Some by (auto simp: redis_ok_def)
  then show ?thesis using redis_level_hash [OF assms order_refl Some] assms(1) by (simp add: limits_ok_def)
qed

definition up_level :: "limits \<Rightarrow> int \<Rightarrow> string \<Rightarrow> redis_buckets option \<Rightarrow> rat" where
  "up_level lm t k redis = (case redis of None \<Rightarrow> lm_capacity lm | Some bs \<Rightarrow> redis_level lm t k bs)"

definition up_ok :: "limits \<Rightarrow> int \<Rightarrow> redis_buckets option \<Rightarrow> bool" where
  "up_ok lm t redis = (case redis of None \<Rightarrow> False | Some bs \<Rightarrow> redis_ok lm t bs)"

lemma redis_result:
  assumes "limits_ok lm"
  shows "decision (fst (redis_consume lm t key cost (Some bs))) = decide lm cost (redis_level lm t key bs)"
    "snd (redis_consume lm t key cost (Some bs)) =
      Some (AList.update (redis_key key) \<lparr>rb_tokens = spent cost (redis_level lm t key bs), rb_last_updated = of_int t / 1000,
         rb_expiresAt = of_int t / 1000 + of_int (lua_ttl lm)\<rparr> bs)"
  by (simp_all add: redis_consume_def lua_result [OF assms] Let_def decision_def decide_def)

interpretation redis: token_bucket redis_consume up_level up_ok
proof
  fix lm t T key cost s k assume ok: "limits_ok lm" and up: "up_ok lm T s"
  obtain bs where s: "s = Some bs" "redis_ok lm T bs" using up by (auto simp: up_ok_def split: option.splits)
  show "0 \<le> up_level lm T k s" using redis_level_nonneg [OF ok s(2)] by (simp add: up_level_def s(1))
  assume t: "T \<le> t"
  show "up_level lm t k s = later lm (t - T) (up_level lm T k s)"
    using redis_level_later [OF ok s(2) t] by (simp add: up_level_def s(1))
  show "decision (fst (redis_consume lm t key cost s)) = decide lm cost (up_level lm t key s)"
    using redis_result(1) [OF ok] by (simp add: up_level_def s(1))
  have "0 \<le> redis_level lm t key bs"
    unfolding redis_level_later [OF ok s(2) t] using redis_level_nonneg [OF ok s(2), of key] ok t
    by (simp add: later_def limits_ok_def)
  then have nn: "0 \<le> spent cost (redis_level lm t key bs)" by (simp add: spent_def)
  have "rb_last_updated b \<le> of_int t / 1000" if "rb_last_updated b \<le> of_int T / 1000" for b
    using that t order_trans [of _ "of_int T / 1000" "of_int t / (1000 :: rat)"] by (simp add: divide_right_mono)
  then show inv: "up_ok lm t (snd (redis_consume lm t key cost s))"
    unfolding s(1) redis_result(2) [OF ok] using s(2) nn by (auto simp: up_ok_def redis_ok_def)
  define bs' where "bs' = AList.update (redis_key key) \<lparr>rb_tokens = spent cost (redis_level lm t key bs),
    rb_last_updated = of_int t / 1000, rb_expiresAt = of_int t / 1000 + of_int (lua_ttl lm)\<rparr> bs"
  have ok': "redis_ok lm t bs'" using inv unfolding s(1) redis_result(2) [OF ok] by (simp add: up_ok_def bs'_def)
  have "redis_level lm t k bs' = (if k = key then later lm 0 (spent cost (redis_level lm t key bs)) else redis_level lm t k bs)"
  proof (cases "k = key")
    case True
    then show ?thesis using redis_level_hash [OF ok ok' order_refl, of key] by (simp add: bs'_def later_def)
  qed (simp add: redis_level_def redis_get_def bs'_def)
  then show "up_level lm t k (snd (redis_consume lm t key cost s)) =
      (if k = key then later lm 0 (spent cost (up_level lm t key s)) else up_level lm t k s)"
    unfolding s(1) redis_result(2) [OF ok] bs'_def [symmetric] by (simp add: up_level_def)
qed

section \<open>Properties\<close>

lemma empty_levels: "level lm t k [] = lm_capacity lm" "up_level lm t k (Some []) = lm_capacity lm"
  by (simp_all add: level_def up_level_def redis_level_def redis_get_def)

lemma empty_ok: "memory_ok lm t []" "up_ok lm t (Some [])"
  by (simp_all add: memory_ok_def up_ok_def redis_ok_def)


definition demo_limits :: limits where
  "demo_limits = \<lparr>lm_capacity = 2, lm_refillRate = 1\<rparr>"

definition demo_calls :: "limit_call list" where
  "demo_calls = [(0, ''a'', 1), (0, ''a'', 1), (500, ''a'', 1), (1600, ''a'', 1), (90000, ''a'', 2)]"




text \<open>
  Waiting as long as the answer says is enough, for both strategies. A call that is refused
  although its cost does not exceed the capacity is admitted when it is repeated after the
  reported number of seconds, if no other call for the key comes between.
\<close>

theorem retry_after_admits:
  assumes "limits_ok lm" "cost \<le> lm_capacity lm" "memory_ok lm t bs"
    and "memory_consume lm t key cost bs = (r, bs')" "\<not> rl_allowed r"
  shows "rl_allowed (fst (memory_consume lm (t + rl_retryAfterSeconds r * 1000) key cost bs')) \<and> 1 \<le> rl_retryAfterSeconds r"
  by (rule memory.wait_admits [OF assms(1,3) order_refl assms(2,4,5)])

theorem redis_retry_after_admits:
  assumes "limits_ok lm" "cost \<le> lm_capacity lm" "up_ok lm t redis"
    and "redis_consume lm t key cost redis = (r, redis')" "\<not> rl_allowed r"
  shows "rl_allowed (fst (redis_consume lm (t + rl_retryAfterSeconds r * 1000) key cost redis')) \<and> 1 \<le> rl_retryAfterSeconds r"
  by (rule redis.wait_admits [OF assms(1,3) order_refl assms(2,4,5)])

text \<open>The two strategies differ in one field: the reset time of a refused call is the wait in
  memory and the time to a full bucket in Redis.\<close>

lemma reset_times_differ:
  "rl_resetMs (consume_all memory_consume demo_limits demo_calls [] ! 2) \<noteq>
   rl_resetMs (consume_all redis_consume demo_limits demo_calls (Some []) ! 2)"
  by (simp add: demo_limits_def demo_calls_def memory_consume_def refilled_def redis_consume_def redis_key_def
      lua_token_bucket_def redis_get_def lua_ttl_def Let_def)

end
