(* ===== verification/LP_Resilience.thy ===== *)
theory LP_Resilience
  imports LP_Prelude Complex_Main "HOL-Library.Multiset"
begin

text \<open>
  Load shedding (\<^verbatim>\<open>src/src/infrastructure/resilience/ConcurrencyLimiter.ts\<close>,
  \<^verbatim>\<open>src/src/middleware/loadShedderMiddleware.ts\<close>), the client's retry policy
  (\<^verbatim>\<open>src/src/shared/resilience/RetryPolicy.ts\<close>) and the round-robin load balancer
  (\<^verbatim>\<open>src/src/infrastructure/loadbalancer/RoundRobinLoadBalancer.ts\<close>). Ratios and random numbers
  are exact rationals. An upstream application is known by its name.
\<close>

section \<open>ConcurrencyLimiter\<close>

datatype RequestPriority = HIGH | NORMAL | LOW

record limiter =
  cl_maxConcurrent :: int
  cl_lowPriorityThreshold :: int
  cl_activeRequests :: int
  cl_totalAdmitted :: int
  cl_totalShed :: int

definition new_limiter :: "int \<Rightarrow> rat option \<Rightarrow> limiter" where
  "new_limiter maxConcurrent ratio =
     \<lparr>cl_maxConcurrent = maxConcurrent,
      cl_lowPriorityThreshold = \<lfloor>of_int maxConcurrent * (case ratio of None \<Rightarrow> 4 / 5 | Some r \<Rightarrow> r)\<rfloor>,
      cl_activeRequests = 0, cl_totalAdmitted = 0, cl_totalShed = 0\<rparr>"

definition tryAcquire :: "RequestPriority \<Rightarrow> limiter \<Rightarrow> bool \<times> limiter" where
  "tryAcquire priority l =
     (if cl_maxConcurrent l \<le> cl_activeRequests l then (False, l\<lparr>cl_totalShed := cl_totalShed l + 1\<rparr>)
      else if priority = LOW \<and> cl_lowPriorityThreshold l \<le> cl_activeRequests l
      then (False, l\<lparr>cl_totalShed := cl_totalShed l + 1\<rparr>)
      else (True, l\<lparr>cl_activeRequests := cl_activeRequests l + 1, cl_totalAdmitted := cl_totalAdmitted l + 1\<rparr>))"

definition release_slot :: "limiter \<Rightarrow> limiter" where
  "release_slot l =
     (if 0 < cl_activeRequests l then l\<lparr>cl_activeRequests := cl_activeRequests l - 1\<rparr> else l)"

text \<open>\<open>shedRate\<close>, in percent, rounded to two decimals (\<open>Math.round\<close> rounds halves up).\<close>

definition shedRate :: "limiter \<Rightarrow> rat" where
  "shedRate l =
     (let total = cl_totalAdmitted l + cl_totalShed l;
          rate = (if 0 < total then of_int (cl_totalShed l) / of_int total * 100 else 0) :: rat
      in of_int \<lfloor>rate * 100 + 1 / 2\<rfloor> / 100)"

definition resetStats :: "limiter \<Rightarrow> limiter" where
  "resetStats l = l\<lparr>cl_activeRequests := 0, cl_totalAdmitted := 0, cl_totalShed := 0\<rparr>"

section \<open>The load shedder\<close>

text \<open>\<open>/^\\/events\\/[^/]+$/\<close>\<close>

definition event_detail_path :: "string \<Rightarrow> bool" where
  "event_detail_path path \<longleftrightarrow>
     prefix ''/events/'' path \<and> drop 8 path \<noteq> [] \<and> CHR ''/'' \<notin> set (drop 8 path)"

definition default_priority :: "string \<Rightarrow> string \<Rightarrow> RequestPriority" where
  "default_priority meth path =
     (if str_includes path ''/reservations'' \<or> meth = ''POST'' \<or> meth = ''PATCH'' then HIGH
      else if meth = ''GET'' \<and> event_detail_path path then NORMAL
      else LOW)"

text \<open>Requests, by a number of their own, and the two events of the response that release the
  slot. \<open>ss_open\<close> are the admitted requests whose \<open>released\<close> flag is not set; a request that
  is refused gets 503.\<close>

datatype shed_event = Arrive nat RequestPriority | ResponseFinish nat | ResponseClose nat

record shed_system =
  ss_limiter :: limiter
  ss_open :: "nat list"
  ss_seen :: "nat list"

definition releaseOnce :: "nat \<Rightarrow> shed_system \<Rightarrow> shed_system" where
  "releaseOnce i s =
     (if i \<in> set (ss_open s)
      then s\<lparr>ss_limiter := release_slot (ss_limiter s), ss_open := remove1 i (ss_open s)\<rparr> else s)"

fun shed_step :: "shed_event \<Rightarrow> shed_system \<Rightarrow> shed_system" where
  "shed_step (Arrive i p) s =
     (if i \<in> set (ss_seen s) then s
      else case tryAcquire p (ss_limiter s) of
        (True, l) \<Rightarrow> s\<lparr>ss_limiter := l, ss_open := i # ss_open s, ss_seen := i # ss_seen s\<rparr>
      | (False, l) \<Rightarrow> s\<lparr>ss_limiter := l, ss_seen := i # ss_seen s\<rparr>)"
| "shed_step (ResponseFinish i) s = releaseOnce i s"
| "shed_step (ResponseClose i) s = releaseOnce i s"

definition shed_inv :: "int \<Rightarrow> shed_system \<Rightarrow> bool" where
  "shed_inv m s \<longleftrightarrow>
     cl_maxConcurrent (ss_limiter s) = m \<and> cl_activeRequests (ss_limiter s) = int (length (ss_open s)) \<and>
     int (length (ss_open s)) \<le> m \<and> distinct (ss_open s) \<and> set (ss_open s) \<subseteq> set (ss_seen s) \<and>
     cl_totalAdmitted (ss_limiter s) + cl_totalShed (ss_limiter s) = int (length (ss_seen s))"

lemma releaseOnce_inv: "shed_inv m s \<Longrightarrow> shed_inv m (releaseOnce i s)"
proof (cases "i \<in> set (ss_open s)")
  case True
  assume inv: "shed_inv m s"
  have pos: "0 < length (ss_open s)" using True by (rule length_pos_if_in_set)
  have "length (remove1 i (ss_open s)) = length (ss_open s) - 1" using True by (simp only: length_remove1 if_True)
  then have len: "int (length (remove1 i (ss_open s))) = int (length (ss_open s)) - 1" "0 < int (length (ss_open s))"
    using pos by arith+
  show ?thesis using inv True len unfolding shed_inv_def releaseOnce_def release_slot_def by (simp add: subset_insertI2 subset_iff)
qed (simp add: releaseOnce_def)

interpretation shedder: invariant_steps shed_step "shed_inv m" for m
proof unfold_locales
  fix s a assume inv: "shed_inv m s"
  show "shed_inv m (shed_step a s)"
  proof (cases a)
    case (Arrive i p)
    then show ?thesis using inv by (auto simp: shed_inv_def tryAcquire_def)
  qed (use inv releaseOnce_inv in simp_all)
qed

section \<open>RetryPolicy\<close>

record retryError =
  re_statusCode :: "int option"
  re_code :: "string option"
  re_retryAfterSeconds :: "int option"

record retryPolicy =
  rp_maxAttempts :: nat
  rp_baseDelayMs :: int
  rp_maxDelayMs :: int
  rp_jitter :: bool

definition new_RetryPolicy :: "nat option \<Rightarrow> int option \<Rightarrow> int option \<Rightarrow> bool option \<Rightarrow> retryPolicy" where
  "new_RetryPolicy maxAttempts baseDelayMs maxDelayMs jitter =
     \<lparr>rp_maxAttempts = case_option 3 id maxAttempts, rp_baseDelayMs = case_option 50 id baseDelayMs,
      rp_maxDelayMs = case_option 1000 id maxDelayMs, rp_jitter = case_option True id jitter\<rparr>"

definition isRetryable :: "retryError \<Rightarrow> bool" where
  "isRetryable err =
     (if re_code err \<in> Some ` {''ECONNRESET'', ''ETIMEDOUT'', ''EAI_AGAIN'', ''ENOTFOUND''} then True
      else case re_statusCode err of
        None \<Rightarrow> False
      | Some s \<Rightarrow>
          if s = 0 then False
          else if s \<in> {429, 503, 504} then True
          else if 400 \<le> s \<and> s < 500 then False
          else 500 \<le> s)"

text \<open>\<open>rand\<close> is what \<open>Math.random()\<close> returns.\<close>

definition computeBackoffMs :: "retryPolicy \<Rightarrow> rat \<Rightarrow> nat \<Rightarrow> int option \<Rightarrow> int" where
  "computeBackoffMs p rand attempt retryAfterSeconds =
     (case retryAfterSeconds of
        Some n \<Rightarrow> if 0 < n then n * 1000
          else (let e = min (rp_maxDelayMs p) (rp_baseDelayMs p * 2 ^ attempt)
                in if rp_jitter p then \<lfloor>rand * of_int e\<rfloor> else e)
      | None \<Rightarrow> (let e = min (rp_maxDelayMs p) (rp_baseDelayMs p * 2 ^ attempt)
                in if rp_jitter p then \<lfloor>rand * of_int e\<rfloor> else e))"

text \<open>The loop: \<open>fn\<close> works on a state and throws a \<open>RetryError\<close> or returns; the sleeps taken
  are recorded. With no attempt allowed the code throws \<open>undefined\<close>.\<close>

function execute_from ::
    "retryPolicy \<Rightarrow> (nat \<Rightarrow> rat) \<Rightarrow> (nat \<Rightarrow> 's \<Rightarrow> (retryError + 'a) \<times> 's) \<Rightarrow> nat \<Rightarrow> 's \<Rightarrow> int list \<Rightarrow>
     (retryError option + 'a) \<times> 's \<times> int list" where
  "execute_from p rands fn attempt s sleeps =
     (if attempt < rp_maxAttempts p then
        (case fn attempt s of
           (Inr x, s') \<Rightarrow> (Inr x, s', sleeps)
         | (Inl err, s') \<Rightarrow>
             if \<not> isRetryable err then (Inl (Some err), s', sleeps)
             else if attempt + 1 = rp_maxAttempts p then (Inl (Some err), s', sleeps)
             else execute_from p rands fn (attempt + 1) s'
                    (sleeps @ [computeBackoffMs p (rands attempt) attempt (re_retryAfterSeconds err)]))
      else (Inl None, s, sleeps))"
  by pat_completeness auto
termination
  by (relation "measure (\<lambda>(p, _, _, attempt, _, _). rp_maxAttempts p - attempt)") auto

declare execute_from.simps [simp del]

definition execute_retry ::
    "retryPolicy \<Rightarrow> (nat \<Rightarrow> rat) \<Rightarrow> (nat \<Rightarrow> 's \<Rightarrow> (retryError + 'a) \<times> 's) \<Rightarrow> 's \<Rightarrow>
     (retryError option + 'a) \<times> 's \<times> int list" where
  "execute_retry p rands fn s = execute_from p rands fn 0 s []"

text \<open>The state after the first \<open>n\<close> attempts, and what the attempt after that gives.\<close>

fun after_attempts :: "(nat \<Rightarrow> 's \<Rightarrow> (retryError + 'a) \<times> 's) \<Rightarrow> nat \<Rightarrow> 's \<Rightarrow> 's" where
  "after_attempts fn 0 s = s"
| "after_attempts fn (Suc n) s = snd (fn n (after_attempts fn n s))"

definition attempt_result :: "(nat \<Rightarrow> 's \<Rightarrow> (retryError + 'a) \<times> 's) \<Rightarrow> nat \<Rightarrow> 's \<Rightarrow> retryError + 'a" where
  "attempt_result fn n s = fst (fn n (after_attempts fn n s))"

text \<open>The sleep before attempt \<open>n + 1\<close>, when attempt \<open>n\<close> failed.\<close>

definition sleep_after :: "retryPolicy \<Rightarrow> (nat \<Rightarrow> rat) \<Rightarrow> (nat \<Rightarrow> 's \<Rightarrow> (retryError + 'a) \<times> 's) \<Rightarrow> 's \<Rightarrow> nat \<Rightarrow> int" where
  "sleep_after p rands fn s n =
     (case attempt_result fn n s of
        Inl err \<Rightarrow> computeBackoffMs p (rands n) n (re_retryAfterSeconds err) | Inr _ \<Rightarrow> 0)"

lemma execute_from_result:
  assumes "k < rp_maxAttempts p"
    and "\<forall>j < k. \<exists>err. attempt_result fn j s0 = Inl err \<and> isRetryable err"
  shows "\<exists>n. k \<le> n \<and> n < rp_maxAttempts p \<and>
    (\<forall>j < n. \<exists>err. attempt_result fn j s0 = Inl err \<and> isRetryable err) \<and>
    execute_from p rands fn k (after_attempts fn k s0) (map (sleep_after p rands fn s0) [0..<k]) =
      (case attempt_result fn n s0 of Inl err \<Rightarrow> Inl (Some err) | Inr x \<Rightarrow> Inr x,
       after_attempts fn (Suc n) s0, map (sleep_after p rands fn s0) [0..<n]) \<and>
    (\<forall>err. attempt_result fn n s0 = Inl err \<and> isRetryable err \<longrightarrow> Suc n = rp_maxAttempts p)"
  using assms
proof (induction "rp_maxAttempts p - k" arbitrary: k)
  case 0
  then show ?case by simp
next
  case (Suc m)
  obtain res s1 where f: "fn k (after_attempts fn k s0) = (res, s1)" by fastforce
  have res: "attempt_result fn k s0 = res" "after_attempts fn (Suc k) s0 = s1" using f by (simp_all add: attempt_result_def)
  show ?case
  proof (cases "\<exists>err. res = Inl err \<and> isRetryable err \<and> Suc k \<noteq> rp_maxAttempts p")
    case True
    then obtain err where err: "res = Inl err" "isRetryable err" "Suc k < rp_maxAttempts p"
      using Suc.prems(1) by force
    have step: "execute_from p rands fn k (after_attempts fn k s0) (map (sleep_after p rands fn s0) [0..<k]) =
        execute_from p rands fn (Suc k) (after_attempts fn (Suc k) s0) (map (sleep_after p rands fn s0) [0..<Suc k])"
      using Suc.prems(1) f err res by (subst execute_from.simps) (simp add: sleep_after_def)
    have "\<forall>j < Suc k. \<exists>err. attempt_result fn j s0 = Inl err \<and> isRetryable err"
      using Suc.prems(2) res err by (auto simp: less_Suc_eq)
    then have "\<exists>n\<ge>Suc k. n < rp_maxAttempts p \<and>
      (\<forall>j < n. \<exists>err. attempt_result fn j s0 = Inl err \<and> isRetryable err) \<and>
      execute_from p rands fn (Suc k) (after_attempts fn (Suc k) s0) (map (sleep_after p rands fn s0) [0..<Suc k]) =
        (case attempt_result fn n s0 of Inl err \<Rightarrow> Inl (Some err) | Inr x \<Rightarrow> Inr x,
         after_attempts fn (Suc n) s0, map (sleep_after p rands fn s0) [0..<n]) \<and>
      (\<forall>err. attempt_result fn n s0 = Inl err \<and> isRetryable err \<longrightarrow> Suc n = rp_maxAttempts p)"
      by (intro Suc.hyps(1)) (use Suc.hyps(2) err(3) in auto)
    then show ?thesis unfolding step by (meson Suc_leD)
  next
    case False
    have "execute_from p rands fn k (after_attempts fn k s0) (map (sleep_after p rands fn s0) [0..<k]) =
        (case res of Inl err \<Rightarrow> Inl (Some err) | Inr x \<Rightarrow> Inr x, s1, map (sleep_after p rands fn s0) [0..<k])"
      using Suc.prems(1) f False by (subst execute_from.simps) (auto split: sum.splits)
    with Suc.prems res False show ?thesis by (intro exI [of _ k]) auto
  qed
qed

section \<open>RoundRobinLoadBalancer\<close>

record upstream =
  up_name :: string
  up_isHealthy :: bool

record balancer =
  lb_instances :: "upstream list"
  lb_currentIndex :: nat
  lb_stats :: "(string, int) jsmap"

definition registerInstance :: "string \<Rightarrow> balancer \<Rightarrow> balancer" where
  "registerInstance name lb =
     lb\<lparr>lb_instances := lb_instances lb @ [\<lparr>up_name = name, up_isHealthy = True\<rparr>],
        lb_stats := AList.update name 0 (lb_stats lb)\<rparr>"

text \<open>The first instance of that name.\<close>

fun set_health :: "string \<Rightarrow> bool \<Rightarrow> upstream list \<Rightarrow> upstream list" where
  "set_health name h [] = []"
| "set_health name h (u # us) =
     (if up_name u = name then u\<lparr>up_isHealthy := h\<rparr> # us else u # set_health name h us)"

definition killInstance :: "string \<Rightarrow> balancer \<Rightarrow> balancer" where
  "killInstance name lb = lb\<lparr>lb_instances := set_health name False (lb_instances lb)\<rparr>"

definition restoreInstance :: "string \<Rightarrow> balancer \<Rightarrow> balancer" where
  "restoreInstance name lb = lb\<lparr>lb_instances := set_health name True (lb_instances lb)\<rparr>"

definition getHealthyInstances :: "balancer \<Rightarrow> upstream list" where
  "getHealthyInstances lb = filter up_isHealthy (lb_instances lb)"

definition getNextInstance :: "balancer \<Rightarrow> upstream option \<times> balancer" where
  "getNextInstance lb =
     (let healthy = getHealthyInstances lb in
      if healthy = [] then (None, lb)
      else
        let u = healthy ! (lb_currentIndex lb mod length healthy) in
        (Some u, lb\<lparr>lb_currentIndex := (lb_currentIndex lb + 1) mod length healthy,
           lb_stats := AList.update (up_name u)
             ((case map_of (lb_stats lb) (up_name u) of None \<Rightarrow> 0 | Some n \<Rightarrow> n) + 1) (lb_stats lb)\<rparr>))"

datatype proxy_reply = Forwarded string | ServiceUnavailable

definition proxy_dispatch :: "balancer \<Rightarrow> proxy_reply \<times> balancer" where
  "proxy_dispatch lb =
     (case getNextInstance lb of
        (None, lb') \<Rightarrow> (ServiceUnavailable, lb')
      | (Some u, lb') \<Rightarrow> (Forwarded (up_name u), lb'))"

fun dispatches :: "nat \<Rightarrow> balancer \<Rightarrow> upstream option list \<times> balancer" where
  "dispatches 0 lb = ([], lb)"
| "dispatches (Suc n) lb =
     (case getNextInstance lb of (u, lb1) \<Rightarrow> (case dispatches n lb1 of (us, lb2) \<Rightarrow> (u # us, lb2)))"

lemma next_frame:
  assumes "getHealthyInstances lb \<noteq> []"
  obtains lb' where "getNextInstance lb =
      (Some (getHealthyInstances lb ! (lb_currentIndex lb mod length (getHealthyInstances lb))), lb')"
    "getHealthyInstances lb' = getHealthyInstances lb"
    "lb_currentIndex lb' = (lb_currentIndex lb + 1) mod length (getHealthyInstances lb)"
  using assms by (simp add: getNextInstance_def getHealthyInstances_def Let_def)

lemma dispatches_nth:
  assumes "getHealthyInstances lb = h" "h \<noteq> []"
  shows "fst (dispatches n lb) = map (\<lambda>i. Some (h ! ((lb_currentIndex lb + i) mod length h))) [0..<n]"
  using assms
proof (induction n arbitrary: lb)
  case 0
  then show ?case by simp
next
  case (Suc n)
  obtain lb' where s: "getNextInstance lb = (Some (h ! (lb_currentIndex lb mod length h)), lb')"
    "getHealthyInstances lb' = h" "lb_currentIndex lb' = (lb_currentIndex lb + 1) mod length h"
    using next_frame [of lb] Suc.prems by metis
  have "map (\<lambda>i. Some (h ! ((lb_currentIndex lb' + i) mod length h))) [0..<n] =
      map (\<lambda>i. Some (h ! ((lb_currentIndex lb + Suc i) mod length h))) [0..<n]"
    by (simp add: s(3) mod_add_left_eq)
  with Suc.IH [OF s(2) Suc.prems(2)] s(1) show ?case
    by (simp add: upt_conv_Cons map_Suc_upt [symmetric] case_prod_beta del: upt_Suc)
qed

lemma round_is_rotation:
  assumes "h \<noteq> []"
  shows "map (\<lambda>i. h ! ((c + i) mod length h)) [0..<length h] = rotate c h"
  using assms by (intro nth_equalityI) (auto simp: nth_rotate)

section \<open>Properties\<close>



text \<open>
  C34: the retry policy ends and stops at the right attempt. With at least one attempt allowed,
  \<open>execute\<close> makes the attempts \<open>0\<close> to \<open>n\<close> for some \<open>n\<close> below the maximum: all before the
  last failed with a retryable error, the outcome of the last is the outcome of the call, and
  if it is a retryable error the attempts were used up. Between attempts it sleeps what
  \<open>computeBackoffMs\<close> says, once each.
\<close>

theorem retry_policy_outcome:
  assumes "0 < rp_maxAttempts p"
  shows "\<exists>n < rp_maxAttempts p.
    (\<forall>j < n. \<exists>err. attempt_result fn j s = Inl err \<and> isRetryable err) \<and>
    execute_retry p rands fn s =
      (case attempt_result fn n s of Inl err \<Rightarrow> Inl (Some err) | Inr x \<Rightarrow> Inr x,
       after_attempts fn (Suc n) s, map (sleep_after p rands fn s) [0..<n]) \<and>
    (\<forall>err. attempt_result fn n s = Inl err \<and> isRetryable err \<longrightarrow> Suc n = rp_maxAttempts p)"
  using execute_from_result [of 0 p fn s rands, OF assms] by (auto simp: execute_retry_def)

definition demo_fn :: "nat \<Rightarrow> nat \<Rightarrow> (retryError + nat) \<times> nat" where
  "demo_fn k s = (if k < 2 then Inl \<lparr>re_statusCode = Some 503, re_code = None, re_retryAfterSeconds = Some 2\<rparr> else Inr s, s + 1)"

theorem retry_policy_outcome_witness:
  "\<exists>n < 3. execute_retry (new_RetryPolicy None None None None) (\<lambda>_. 0) demo_fn 0 =
     (case attempt_result demo_fn n 0 of Inl err \<Rightarrow> Inl (Some err) | Inr x \<Rightarrow> Inr x, after_attempts demo_fn (Suc n) 0,
      map (sleep_after (new_RetryPolicy None None None None) (\<lambda>_. 0) demo_fn 0) [0..<n])"
  using retry_policy_outcome [of "new_RetryPolicy None None None None" demo_fn 0 "\<lambda>_. 0"]
  by (auto simp: new_RetryPolicy_def)

text \<open>
  The back-off is bounded. With a positive base and maximum and a random number in
  \<open>[0, 1)\<close>, the delay is the server's \<open>Retry-After\<close> when it gives one, and otherwise lies
  between 0 and the smaller of the maximum and the base doubled once per attempt, strictly
  below it with jitter.
\<close>

theorem backoff_bounds:
  assumes "0 < rp_baseDelayMs p" "0 < rp_maxDelayMs p" "0 \<le> rand" "rand < 1"
  shows "if \<exists>n > 0. retryAfter = Some n
    then computeBackoffMs p rand attempt retryAfter = the retryAfter * 1000
    else 0 \<le> computeBackoffMs p rand attempt retryAfter \<and>
      computeBackoffMs p rand attempt retryAfter \<le> min (rp_maxDelayMs p) (rp_baseDelayMs p * 2 ^ attempt) \<and>
      (rp_jitter p \<longrightarrow> computeBackoffMs p rand attempt retryAfter < min (rp_maxDelayMs p) (rp_baseDelayMs p * 2 ^ attempt))"
proof (cases "\<exists>n > 0. retryAfter = Some n")
  case False
  define e where "e = min (rp_maxDelayMs p) (rp_baseDelayMs p * 2 ^ attempt)"
  have e: "0 < e" using assms(1,2) by (simp add: e_def)
  have "0 \<le> rand * of_int e" "rand * of_int e < 1 * of_int e"
    using assms(3,4) e by (simp_all add: mult_strict_right_mono del: mult_1)
  then have "0 \<le> \<lfloor>rand * of_int e\<rfloor>" "\<lfloor>rand * of_int e\<rfloor> < e" by (simp_all add: floor_less_iff)
  moreover have "computeBackoffMs p rand attempt retryAfter = (if rp_jitter p then \<lfloor>rand * of_int e\<rfloor> else e)"
    using False by (simp add: computeBackoffMs_def e_def Let_def split: option.splits)
  ultimately show ?thesis unfolding if_not_P [OF False] using e by (simp flip: e_def)
next
  case True
  then show ?thesis by (auto simp: computeBackoffMs_def)
qed

theorem backoff_bounds_witness:
  "0 \<le> computeBackoffMs (new_RetryPolicy None None None None) (1 / 2) 1 None \<and>
   computeBackoffMs (new_RetryPolicy None None None None) (1 / 2) 1 None < 100"
  using backoff_bounds [where p = "new_RetryPolicy None None None None" and rand = "1 / 2" and retryAfter = None and attempt = 1]
  by (simp add: new_RetryPolicy_def)

text \<open>
  C36: round robin is fair. While the set of healthy instances does not change, the \<open>i\<close>-th
  dispatch goes to the healthy instance after the \<open>i - 1\<close>-th, cyclically, from whatever
  position the balancer was left in; every run of as many dispatches as there are healthy
  instances uses each of them exactly once; and an unhealthy instance is never chosen.
\<close>

theorem round_robin_fair:
  assumes "getHealthyInstances lb = h" "h \<noteq> []"
  shows "fst (dispatches n lb) = map (\<lambda>i. Some (h ! ((lb_currentIndex lb + i) mod length h))) [0..<n] \<and>
    mset (fst (dispatches (length h) lb)) = mset (map Some h) \<and>
    (\<forall>u. Some u \<in> set (fst (dispatches n lb)) \<longrightarrow> u \<in> set (lb_instances lb) \<and> up_isHealthy u)"
proof -
  have all: "fst (dispatches m lb) = map (\<lambda>i. Some (h ! ((lb_currentIndex lb + i) mod length h))) [0..<m]" for m
    by (rule dispatches_nth [OF assms])
  have "fst (dispatches (length h) lb) = map Some (map (\<lambda>i. h ! ((lb_currentIndex lb + i) mod length h)) [0..<length h])"
    unfolding all by simp
  also have "\<dots> = map Some (rotate (lb_currentIndex lb) h)" by (simp only: round_is_rotation [OF assms(2)])
  finally have "mset (fst (dispatches (length h) lb)) = mset (map Some h)"
    by (metis mset_map mset_append append_take_drop_id rotate_drop_take union_commute)
  moreover have "set h \<subseteq> {u \<in> set (lb_instances lb). up_isHealthy u}" using assms(1) by (auto simp: getHealthyInstances_def)
  moreover have "h ! (j mod length h) \<in> set h" for j using assms(2) by simp
  ultimately show ?thesis unfolding all by auto
qed

definition demo_lb :: balancer where
  "demo_lb = killInstance ''b'' (registerInstance ''c'' (registerInstance ''b'' (registerInstance ''a''
     \<lparr>lb_instances = [], lb_currentIndex = 0, lb_stats = []\<rparr>)))"

theorem round_robin_fair_witness:
  "mset (fst (dispatches 2 demo_lb)) =
     mset [Some \<lparr>up_name = ''a'', up_isHealthy = True\<rparr>, Some \<lparr>up_name = ''c'', up_isHealthy = True\<rparr>]"
proof -
  have "getHealthyInstances demo_lb = [\<lparr>up_name = ''a'', up_isHealthy = True\<rparr>, \<lparr>up_name = ''c'', up_isHealthy = True\<rparr>]"
    by (simp add: demo_lb_def getHealthyInstances_def killInstance_def registerInstance_def)
  note round_robin_fair [OF this list.discI, OF refl, of 2, THEN conjunct2, THEN conjunct1]
  then show ?thesis by (simp only: list.size list.map not_Cons_self2 not_False_eq_True simp_thms numeral_2_eq_2 add_0 plus_1_eq_Suc
      One_nat_def add_Suc_right add_0_right)
qed

text \<open>At capacity every request is shed, whatever its priority.\<close>

lemma full_limiter_sheds_all:
  "cl_maxConcurrent l \<le> cl_activeRequests l \<Longrightarrow> \<not> fst (tryAcquire p l)"
  by (simp add: tryAcquire_def)

text \<open>A conflict is not retried.\<close>

lemma conflict_not_retryable:
  "\<not> isRetryable \<lparr>re_statusCode = Some 409, re_code = None, re_retryAfterSeconds = Some 1\<rparr>"
  by (simp add: isRetryable_def)

end
