(* ===== verification/LP_Http.thy ===== *)
theory LP_Http
  imports LP_CachedEvents LP_Idempotency LP_RateLimit LP_Resilience
begin

text \<open>
  The HTTP side: the event routes (\<^verbatim>\<open>src/src/modules/catalog/interface/EventController.ts\<close>),
  the error handler and the correlation identifier (\<^verbatim>\<open>src/src/middleware\<close>), and the
  pipeline of \<^verbatim>\<open>src/src/createApp.ts\<close>, which puts the load shedder, the rate limiter and the
  idempotency middleware in front of the routes.

  A request is handled from the first middleware to the \<open>finish\<close> event before the next one
  comes. Its path is given by its segments behind the host, decoded, as the router splits it;
  its body, when there is one and it parses, has the declared shape. The body of a response is
  JSON, the metrics of the cache apart, which have a fraction. Express's own answer to an
  unknown route is \<open>PlainBody\<close>, and the HEAD requests it serves through GET routes are left
  out. What an argument stands for: the fingerprint function and
  the serialisation of bodies (\<open>sha256\<close>, \<open>body_text\<close>), the database's UUIDs, the date
  parser, and per request an environment with clocks, fresh UUIDs and whether Redis answers.
\<close>

section \<open>Responses\<close>

record cacheMetrics =
  cm_hits :: int
  cm_misses :: int
  cm_errors :: int
  cm_sets :: int
  cm_dels :: int
  cm_hitRate :: rat

datatype http_body = JsonBody json | MetricsBody cacheMetrics | PlainBody

record http_response =
  hr_status :: int
  hr_headers :: "(string \<times> string) list"
  hr_body :: http_body

definition error_json :: "string \<Rightarrow> string \<Rightarrow> (string \<times> json) list \<Rightarrow> http_body" where
  "error_json code msg extra = JsonBody (JObj [(''error'', JObj ([(''code'', JStr code), (''message'', JStr msg)] @ extra))])"

section \<open>The error handler\<close>

text \<open>What reaches it: the body parser's \<open>SyntaxError\<close>, or an error of a handler.\<close>

datatype http_error = MalformedBody | Thrown js_error

fun error_name :: "js_error \<Rightarrow> string" where
  "error_name (Error _) = ''Error''"
| "error_name (InvalidTimeWindowError _) = ''InvalidTimeWindowError''"
| "error_name (InvalidMoneyError _) = ''InvalidMoneyError''"
| "error_name (InvalidCapacityError _) = ''InvalidCapacityError''"
| "error_name EmptyTicketTypesError = ''EmptyTicketTypesError''"
| "error_name (InvalidStateTransitionError _ _) = ''InvalidStateTransitionError''"
| "error_name (InsufficientInventoryError _) = ''InsufficientInventoryError''"
| "error_name (ReservationExpiredError _) = ''ReservationExpiredError''"
| "error_name (PrematureExpirationError _) = ''PrematureExpirationError''"
| "error_name (TransientError _) = ''TransientError''"
| "error_name (PermanentPoisonError _) = ''PermanentPoisonError''"
| "error_name (DatabaseError _) = ''error''"

text \<open>\<open>name.replace(/([A-Z])/g, '_$1').toUpperCase().substring(1)\<close>\<close>

definition snake_code :: "string \<Rightarrow> string" where
  "snake_code name = drop 1 (toUpperCase (concat (map (\<lambda>c.
     if 65 \<le> (of_char c :: nat) \<and> (of_char c :: nat) \<le> 90 then [CHR ''_'', c] else [c]) name)))"

fun domain_status :: "js_error \<Rightarrow> int \<times> string" where
  "domain_status (InvalidTimeWindowError m) = (400, snake_code (error_name (InvalidTimeWindowError m)))"
| "domain_status (InvalidMoneyError m) = (400, snake_code (error_name (InvalidMoneyError m)))"
| "domain_status (InvalidCapacityError m) = (400, snake_code (error_name (InvalidCapacityError m)))"
| "domain_status EmptyTicketTypesError = (409, snake_code (error_name EmptyTicketTypesError))"
| "domain_status (InvalidStateTransitionError a b) = (409, snake_code (error_name (InvalidStateTransitionError a b)))"
| "domain_status (InsufficientInventoryError m) = (409, snake_code (error_name (InsufficientInventoryError m)))"
| "domain_status _ = (400, ''DOMAIN_ERROR'')"

definition errorHandler :: "string option \<Rightarrow> date \<Rightarrow> http_error \<Rightarrow> http_response" where
  "errorHandler correlationId now err =
     (let trail = [(''timestamp'', JStr (toISOString now)), (''correlationId'', JStr (or_default correlationId ''unknown''))];
          reply = (\<lambda>status code msg. \<lparr>hr_status = status, hr_headers = [], hr_body = error_json code msg trail\<rparr>)
      in case err of
           MalformedBody \<Rightarrow> reply 400 ''MALFORMED_JSON'' ''Malformed JSON payload in request body''
         | Thrown e \<Rightarrow>
             if is_DomainError e then reply (fst (domain_status e)) (snd (domain_status e)) (message e)
             else reply 500 ''INTERNAL_SERVER_ERROR'' ''An unexpected internal error occurred'')"

definition correlation_id :: "string option \<Rightarrow> string \<Rightarrow> string" where
  "correlation_id header uuid = or_default header uuid"

section \<open>The event routes\<close>

record createEventBody =
  cb_organizerId :: "string option"
  cb_title :: "string option"
  cb_saleStartAt :: "string option"
  cb_saleEndAt :: "string option"
  cb_ticketTypes :: "ticketTypeDTO list option"

datatype request_body = NoBody | BadBody | CreateBody createEventBody | StatusBody "string option"

record request_env =
  rv_now :: date
  rv_dbNow :: date
  rv_eventId :: string
  rv_uuids :: "nat \<Rightarrow> string"
  rv_correlation :: string
  rv_readId :: nat
  rv_redisGet :: bool
  rv_redisSet :: bool
  rv_redisDel :: bool

text \<open>What the code relies on of the outside, the parameters of the routes.\<close>

record outside =
  ou_uuid_in :: uuid_reader
  ou_parse_date :: "string \<Rightarrow> date option"
  ou_sha256 :: "string \<Rightarrow> string"
  ou_body_text :: "request_body + http_body \<Rightarrow> string"

definition not_found :: "string \<Rightarrow> http_response" where
  "not_found i = \<lparr>hr_status = 404, hr_headers = [],
     hr_body = error_json ''EVENT_NOT_FOUND'' (''Event with ID '' @ [CHR 0x27] @ i @ [CHR 0x27] @ '' was not found'') []\<rparr>"

definition validation_error :: "string \<Rightarrow> http_response" where
  "validation_error msg = \<lparr>hr_status = 400, hr_headers = [], hr_body = error_json ''VALIDATION_ERROR'' msg []\<rparr>"

definition metrics_route :: "cacheService \<Rightarrow> http_response" where
  "metrics_route c = \<lparr>hr_status = 200, hr_headers = [], hr_body = MetricsBody \<lparr>cm_hits = cs_hits c, cm_misses = cs_misses c,
     cm_errors = cs_errors c, cm_sets = cs_sets c, cm_dels = cs_dels c, cm_hitRate = hitRate c\<rparr>\<rparr>"

text \<open>With a body that is not there (\<open>undefined\<close>) the destructuring throws.\<close>

definition create_route ::
    "outside \<Rightarrow> request_env \<Rightarrow> request_body \<Rightarrow> read_system \<Rightarrow> (http_error + http_response) \<times> read_system" where
  "create_route ou rv body s =
     (case body of
        CreateBody b \<Rightarrow>
          if \<not> truthy (cb_organizerId b) \<or> \<not> truthy (cb_title b) \<or> \<not> truthy (cb_saleStartAt b) \<or> \<not> truthy (cb_saleEndAt b)
          then (Inr (validation_error ''organizerId, title, saleStartAt, and saleEndAt are required fields''), s)
          else
            (case create_event (ou_uuid_in ou) (ou_parse_date ou) (rv_eventId rv) (rv_uuids rv)
                \<lparr>cr_organizerId = the (cb_organizerId b), cr_title = the (cb_title b), cr_saleStartAt = the (cb_saleStartAt b),
                 cr_saleEndAt = the (cb_saleEndAt b), cr_ticketTypes = case_option [] id (cb_ticketTypes b)\<rparr> (rs_db s) of
               (Inl err, db') \<Rightarrow> (Inl (Thrown err), s\<lparr>rs_db := db'\<rparr>)
             | (Inr d, db') \<Rightarrow>
                 (Inr \<lparr>hr_status = 201, hr_headers = [(''Location'', ''/api/events/'' @ ed_id d)], hr_body = JsonBody (dto_json d)\<rparr>,
                  s\<lparr>rs_db := db'\<rparr>))
      | StatusBody _ \<Rightarrow> (Inr (validation_error ''organizerId, title, saleStartAt, and saleEndAt are required fields''), s)
      | _ \<Rightarrow> (Inl (Thrown (Error ''Cannot destructure property of undefined'')), s))"

text \<open>The last case is a read that waits for another one, which does not happen to a read that
  runs alone (\<open>run_read_hit\<close>, \<open>run_read_miss\<close>).\<close>

definition read_route :: "outside \<Rightarrow> request_env \<Rightarrow> string \<Rightarrow> read_system \<Rightarrow> (http_error + http_response) \<times> read_system" where
  "read_route ou rv i s =
     (case run_read (ou_uuid_in ou) True 300 (rv_redisGet rv) (rv_redisSet rv) (rv_now rv) (rv_readId rv) i s of
        (Some (Answered src (Inr (Some j))), s') \<Rightarrow>
          (Inr \<lparr>hr_status = 200, hr_headers = [(''X-Cache'', if src = FromCache then ''HIT'' else ''MISS'')], hr_body = JsonBody j\<rparr>, s')
      | (Some (Answered src (Inr None)), s') \<Rightarrow> (Inr (not_found i), s')
      | (Some (Answered src (Inl err)), s') \<Rightarrow> (Inl (Thrown err), s')
      | (_, s') \<Rightarrow> (Inl (Thrown (Error ''pending'')), s'))"

definition status_route ::
    "outside \<Rightarrow> request_env \<Rightarrow> string \<Rightarrow> request_body \<Rightarrow> read_system \<Rightarrow> (http_error + http_response) \<times> read_system" where
  "status_route ou rv i body s =
     (case body of
        NoBody \<Rightarrow> (Inl (Thrown (Error ''Cannot destructure property of undefined'')), s)
      | BadBody \<Rightarrow> (Inl (Thrown (Error ''Cannot destructure property of undefined'')), s)
      | CreateBody _ \<Rightarrow> (Inr (validation_error ''Target status field is required''), s)
      | StatusBody target \<Rightarrow>
          if \<not> truthy target then (Inr (validation_error ''Target status field is required''), s)
          else
            (case patch_status (ou_uuid_in ou) (rv_redisDel rv) i (the target) s of
               (Inl err, s') \<Rightarrow> (Inl (Thrown err), s')
             | (Inr None, s') \<Rightarrow> (Inr (not_found i), s')
             | (Inr (Some d), s') \<Rightarrow> (Inr \<lparr>hr_status = 200, hr_headers = [], hr_body = JsonBody (dto_json d)\<rparr>, s')))"

definition event_router ::
    "outside \<Rightarrow> request_env \<Rightarrow> string \<Rightarrow> string list \<Rightarrow> request_body \<Rightarrow> read_system \<Rightarrow> (http_error + http_response) \<times> read_system" where
  "event_router ou rv meth segs body s =
     (if meth = ''GET'' \<and> segs = [''events'', ''cache'', ''metrics''] then (Inr (metrics_route (rs_cache s)), s)
      else if meth = ''POST'' \<and> segs = [''events''] then create_route ou rv body s
      else if meth = ''GET'' \<and> length segs = 2 \<and> hd segs = ''events'' then read_route ou rv (segs ! 1) s
      else if meth = ''PATCH'' \<and> length segs = 3 \<and> hd segs = ''events'' \<and> segs ! 2 = ''status'' then status_route ou rv (segs ! 1) body s
      else (Inr \<lparr>hr_status = 404, hr_headers = [], hr_body = PlainBody\<rparr>, s))"

section \<open>createApp\<close>

record app_request =
  qr_method :: string
  qr_segments :: "string list"
  qr_correlation :: "string option"
  qr_idempotencyKey :: header_value
  qr_userId :: "string option"
  qr_forwardedFor :: "string option"
  qr_ip :: "string option"
  qr_body :: request_body

record app_state =
  ap_instanceId :: string
  ap_reads :: read_system
  ap_limiter :: "limiter option"
  ap_rate :: "(limits \<times> buckets) option"
  ap_keys :: "(request_body + http_body) idem_table"

definition add_headers :: "(string \<times> string) list \<Rightarrow> http_response \<Rightarrow> http_response" where
  "add_headers hs r = r\<lparr>hr_headers := hs @ hr_headers r\<rparr>"

text \<open>\<open>req.path\<close> inside the mount point \<open>/api\<close>.\<close>

definition api_path :: "string list \<Rightarrow> string" where
  "api_path segs = (if segs = [] then ''/'' else concat (map (\<lambda>seg. CHR ''/'' # seg) segs))"

text \<open>The routes and, for what they pass on, the error handler.\<close>

definition routed :: "outside \<Rightarrow> request_env \<Rightarrow> app_request \<Rightarrow> app_state \<Rightarrow> http_response \<times> app_state" where
  "routed ou rv rq s =
     (case event_router ou rv (qr_method rq) (tl (qr_segments rq)) (qr_body rq) (ap_reads s) of
        (Inr r, rs) \<Rightarrow> (r, s\<lparr>ap_reads := rs\<rparr>)
      | (Inl err, rs) \<Rightarrow>
          (errorHandler (Some (correlation_id (qr_correlation rq) (rv_correlation rv))) (rv_now rv) err, s\<lparr>ap_reads := rs\<rparr>))"

text \<open>What \<open>res.json\<close> was called with.\<close>

definition captured :: "http_response \<Rightarrow> (request_body + http_body) option" where
  "captured r = (case hr_body r of PlainBody \<Rightarrow> None | b \<Rightarrow> Some (Inr b))"

definition idem_request :: "app_request \<Rightarrow> (request_body + http_body) http_request" where
  "idem_request rq = \<lparr>rq_idempotencyKey = qr_idempotencyKey rq,
     rq_body = (if qr_body rq = NoBody then None else Some (Inl (qr_body rq))), rq_userId = qr_userId rq,
     rq_baseUrl = ''/api'', rq_path = api_path (tl (qr_segments rq)), rq_method = qr_method rq\<rparr>"

definition replay_response :: "int \<Rightarrow> (request_body + http_body) option \<Rightarrow> http_response" where
  "replay_response status body = \<lparr>hr_status = status, hr_headers = [(''Idempotent-Replay'', ''true'')],
     hr_body = (case body of Some (Inr b) \<Rightarrow> b | _ \<Rightarrow> JsonBody JNull)\<rparr>"

definition idem_message :: "string \<Rightarrow> string" where
  "idem_message code = (if code = ''IDEMPOTENCY_KEY_PAYLOAD_MISMATCH''
     then ''Idempotency-Key was previously used with a different request payload.''
     else ''A request with this idempotency key is currently in progress. Please retry shortly.'')"

text \<open>The idempotency middleware around the routes, with its listener on \<open>finish\<close>. Undisturbed,
  \<open>acquire\<close> has returned after three statements (\<open>acquire_result\<close>), so the last case does not
  happen.\<close>

definition idempotent :: "outside \<Rightarrow> request_env \<Rightarrow> app_request \<Rightarrow> app_state \<Rightarrow> http_response \<times> app_state" where
  "idempotent ou rv rq s =
     (case admit (ou_sha256 ou) (ou_body_text ou) (rv_now rv) (idem_request rq) of
        PassThrough \<Rightarrow> routed ou rv rq s
      | InvalidKey \<Rightarrow>
          (\<lparr>hr_status = 400, hr_headers = [],
            hr_body = error_json ''INVALID_IDEMPOTENCY_KEY'' ''Idempotency-Key length must not exceed 255 characters.'' []\<rparr>, s)
      | TryAcquire a \<Rightarrow>
          (case acquire_steps 3 (rv_now rv) (rv_dbNow rv) a (ap_keys s) of
             (a', tbl) \<Rightarrow>
               (case aq_pc a' of
                  Returned res \<Rightarrow>
                    (case reply_of res of
                       ErrorReply status code \<Rightarrow>
                         (\<lparr>hr_status = status, hr_headers = [], hr_body = error_json code (idem_message code) []\<rparr>, s\<lparr>ap_keys := tbl\<rparr>)
                     | ReplayReply status body \<Rightarrow> (replay_response status body, s\<lparr>ap_keys := tbl\<rparr>)
                     | RunHandler \<Rightarrow>
                         (case routed ou rv rq (s\<lparr>ap_keys := tbl\<rparr>) of
                            (r, s') \<Rightarrow> (r, s'\<lparr>ap_keys := on_finish (aq_key a) (hr_status r) (captured r) (ap_keys s')\<rparr>)))
                | _ \<Rightarrow> (errorHandler (Some (correlation_id (qr_correlation rq) (rv_correlation rv))) (rv_now rv)
                    (Thrown (Error ''acquire'')), s\<lparr>ap_keys := tbl\<rparr>))))"

definition limited :: "app_request \<Rightarrow> limited_request" where
  "limited rq = \<lparr>lr_forwardedFor = qr_forwardedFor rq, lr_ip = qr_ip rq, lr_userId = qr_userId rq, lr_baseUrl = ''/api'',
     lr_path = api_path (tl (qr_segments rq))\<rparr>"

text \<open>The headers print the capacity as a whole number.\<close>

definition rate_limited :: "outside \<Rightarrow> request_env \<Rightarrow> app_request \<Rightarrow> app_state \<Rightarrow> http_response \<times> app_state" where
  "rate_limited ou rv rq s =
     (case ap_rate s of
        None \<Rightarrow> idempotent ou rv rq s
      | Some (lm, bs) \<Rightarrow>
          (case memory_consume lm (rv_now rv) (default_key (limited rq)) 1 bs of
             (res, bs') \<Rightarrow>
               let hs = [(''X-RateLimit-Limit'', show_int \<lfloor>rl_limit res\<rfloor>), (''X-RateLimit-Remaining'', show_int (rl_remaining res)),
                     (''X-RateLimit-Reset'', show_int \<lceil>of_int (rv_now rv + rl_resetMs res) / (1000 :: rat)\<rceil>)];
                   s' = s\<lparr>ap_rate := Some (lm, bs')\<rparr>
               in (case rate_limit (Inr res) of
                     NextHandler \<Rightarrow> (case idempotent ou rv rq s' of (r, s'') \<Rightarrow> (add_headers hs r, s''))
                   | TooMany secs \<Rightarrow>
                       (\<lparr>hr_status = 429, hr_headers = hs @ [(''Retry-After'', show_int secs)],
                         hr_body = error_json ''RATE_LIMIT_EXCEEDED''
                           (''Too many requests. Please retry after '' @ show_int secs @ '' seconds.'')
                           [(''retryAfterSeconds'', JNum secs)]\<rparr>, s'))))"

definition shed :: "outside \<Rightarrow> request_env \<Rightarrow> app_request \<Rightarrow> app_state \<Rightarrow> http_response \<times> app_state" where
  "shed ou rv rq s =
     (case ap_limiter s of
        None \<Rightarrow> rate_limited ou rv rq s
      | Some l \<Rightarrow>
          (case tryAcquire (default_priority (qr_method rq) (api_path (tl (qr_segments rq)))) l of
             (False, l') \<Rightarrow>
               (\<lparr>hr_status = 503, hr_headers = [(''Retry-After'', ''2'')],
                 hr_body = error_json ''SERVER_OVERLOADED''
                   ''Server is currently operating at maximum capacity. Please retry shortly.'' [(''retryAfterSeconds'', JNum 2)]\<rparr>,
                s\<lparr>ap_limiter := Some l'\<rparr>)
           | (True, l') \<Rightarrow>
               (case rate_limited ou rv rq (s\<lparr>ap_limiter := Some l'\<rparr>) of
                  (r, s') \<Rightarrow> (r, s'\<lparr>ap_limiter := map_option release_slot (ap_limiter s')\<rparr>))))"

text \<open>The whole application. A body that does not parse is refused before the middleware that
  sets the correlation identifier and the instance's name.\<close>

definition handle_request :: "outside \<Rightarrow> request_env \<Rightarrow> app_request \<Rightarrow> app_state \<Rightarrow> http_response \<times> app_state" where
  "handle_request ou rv rq s =
     (if qr_body rq = BadBody then (errorHandler None (rv_now rv) MalformedBody, s)
      else
        let cid = correlation_id (qr_correlation rq) (rv_correlation rv);
            hs = [(''X-Correlation-ID'', cid), (''X-Served-By'', ap_instanceId s)]
        in if qr_method rq = ''GET'' \<and> qr_segments rq = [''health'']
           then (\<lparr>hr_status = 200, hr_headers = hs, hr_body = JsonBody (JObj [(''status'', JStr ''UP''),
                   (''instanceId'', JStr (ap_instanceId s)), (''timestamp'', JStr (toISOString (rv_now rv)))])\<rparr>, s)
           else if qr_segments rq \<noteq> [] \<and> hd (qr_segments rq) = ''api''
           then (case shed ou rv rq s of (r, s') \<Rightarrow> (add_headers hs r, s'))
           else (\<lparr>hr_status = 404, hr_headers = hs, hr_body = PlainBody\<rparr>, s))"

end
