(* ===== verification/LP_HttpProps.thy ===== *)
theory LP_HttpProps
  imports LP_Http
begin

text \<open>
  Properties of the request pipeline of \<^verbatim>\<open>src/src/createApp.ts\<close>: what each layer leaves
  alone, that a stored answer outlives all other requests, and what a client may see.
\<close>

section \<open>What each layer leaves alone\<close>

lemma routed_keeps:
  "ap_keys (snd (routed ou rv rq s)) = ap_keys s" "ap_limiter (snd (routed ou rv rq s)) = ap_limiter s"
  "ap_rate (snd (routed ou rv rq s)) = ap_rate s" "ap_instanceId (snd (routed ou rv rq s)) = ap_instanceId s"
  by (simp_all add: routed_def split: prod.splits sum.splits)

lemma idempotent_keeps_limiter: "ap_limiter (snd (idempotent ou rv rq s)) = ap_limiter s"
  using routed_keeps(2) [of ou rv rq]
  by (auto simp: idempotent_def split: admission.splits prod.splits acquire_pc.splits idem_reply.splits) (metis app_state.select_convs(3)
      app_state.surjective app_state.update_convs(5) snd_conv)+

text \<open>A request behind the load shedder is refused, or what it gets is the answer of the
  idempotency layer with headers added.\<close>

definition same_core :: "app_state \<Rightarrow> app_state \<Rightarrow> bool" where
  "same_core s t \<longleftrightarrow> ap_reads s = ap_reads t \<and> ap_keys s = ap_keys t \<and> ap_instanceId s = ap_instanceId t"

lemma same_core_refl [simp]: "same_core s s"
  by (simp add: same_core_def)

lemma rate_limited_cases:
  assumes "rate_limited ou rv rq s = (r, s')"
  obtains (refused) "hr_status r = 429" "same_core s' s" "ap_limiter s' = ap_limiter s"
  | (passed) s0 r0 hs where "same_core s0 s" "ap_limiter s0 = ap_limiter s" "idempotent ou rv rq s0 = (r0, s')" "r = add_headers hs r0"
proof (cases "ap_rate s")
  case None
  then show thesis using assms passed [of s r "[]"] by (simp add: rate_limited_def add_headers_def)
next
  case (Some lb)
  obtain lm bs where lb: "lb = (lm, bs)" by fastforce
  obtain res bs' where c: "memory_consume lm (rv_now rv) (default_key (limited rq)) 1 bs = (res, bs')" by fastforce
  show thesis
  proof (cases "rate_limit (Inr res)")
    case NextHandler
    obtain r0 s0' where i: "idempotent ou rv rq (s\<lparr>ap_rate := Some (lm, bs')\<rparr>) = (r0, s0')" by fastforce
    show thesis
      by (rule passed [of "s\<lparr>ap_rate := Some (lm, bs')\<rparr>" r0 "[(''X-RateLimit-Limit'', show_int \<lfloor>rl_limit res\<rfloor>),
            (''X-RateLimit-Remaining'', show_int (rl_remaining res)),
            (''X-RateLimit-Reset'', show_int \<lceil>of_int (rv_now rv + rl_resetMs res) / (1000 :: rat)\<rceil>)]"])
        (use assms Some lb c NextHandler i in \<open>simp_all add: rate_limited_def same_core_def\<close>)
  next
    case (TooMany secs)
    then show thesis using assms Some lb c by (intro refused) (auto simp: rate_limited_def same_core_def)
  qed
qed

lemma shed_cases:
  assumes "shed ou rv rq s = (r, s')"
  obtains (refused) "hr_status r = 429 \<or> hr_status r = 503" "same_core s' s"
  | (passed) s0 r0 s0' hs where "same_core s0 s" "idempotent ou rv rq s0 = (r0, s0')" "same_core s' s0'" "r = add_headers hs r0"
proof (cases "ap_limiter s")
  case None
  then have "rate_limited ou rv rq s = (r, s')" using assms by (simp add: shed_def)
  then show thesis by (cases rule: rate_limited_cases) (auto intro: refused passed)
next
  case (Some l)
  obtain ok l' where t: "tryAcquire (default_priority (qr_method rq) (api_path (tl (qr_segments rq)))) l = (ok, l')" by fastforce
  show thesis
  proof (cases ok)
    case False
    then show thesis using assms Some t by (intro refused) (auto simp: shed_def same_core_def)
  next
    case True
    obtain r1 s1 where rl: "rate_limited ou rv rq (s\<lparr>ap_limiter := Some l'\<rparr>) = (r1, s1)" by fastforce
    have rs: "r1 = r" "same_core s' s1" using assms Some t True rl by (auto simp: shed_def same_core_def)
    from rl show thesis
    proof (cases rule: rate_limited_cases)
      case refused
      then show thesis using rs that(1) by (auto simp: same_core_def)
    next
      case (passed s0 r0 hs)
      show thesis by (rule that(2) [OF _ passed(3), of hs]) (use passed rs in \<open>auto simp: same_core_def\<close>)
    qed
  qed
qed

section \<open>Retried commands\<close>

text \<open>The key a request is handled under.\<close>

definition keyed :: "app_request \<Rightarrow> string \<Rightarrow> bool" where
  "keyed rq k \<longleftrightarrow> (\<exists>raw. qr_idempotencyKey rq = HeaderText raw \<and> k = trim raw \<and> k \<noteq> [] \<and> length k \<le> 255)"

definition rq_hash :: "outside \<Rightarrow> app_request \<Rightarrow> string" where
  "rq_hash ou rq = request_hash (ou_sha256 ou) (ou_body_text ou) (idem_request rq)"

lemma idempotent_keyed:
  assumes "keyed rq k"
  shows "idempotent ou rv rq s =
    (case acquire k (''/api'' @ api_path (tl (qr_segments rq))) (qr_method rq) (rq_hash ou rq)
        (if truthy (qr_userId rq) then qr_userId rq else None) 30000 (rv_now rv) (rv_dbNow rv) (ap_keys s) of
       (pc, tbl) \<Rightarrow>
         (case pc of
            Returned res \<Rightarrow>
              (case reply_of res of
                 ErrorReply status code \<Rightarrow>
                   (\<lparr>hr_status = status, hr_headers = [], hr_body = error_json code (idem_message code) []\<rparr>, s\<lparr>ap_keys := tbl\<rparr>)
               | ReplayReply status body \<Rightarrow> (replay_response status body, s\<lparr>ap_keys := tbl\<rparr>)
               | RunHandler \<Rightarrow>
                   (case routed ou rv rq (s\<lparr>ap_keys := tbl\<rparr>) of
                      (r, s') \<Rightarrow> (r, s'\<lparr>ap_keys := on_finish k (hr_status r) (captured r) (ap_keys s')\<rparr>)))
          | _ \<Rightarrow> (errorHandler (Some (correlation_id (qr_correlation rq) (rv_correlation rv))) (rv_now rv)
              (Thrown (Error ''acquire'')), s\<lparr>ap_keys := tbl\<rparr>)))"
proof -
  obtain raw where raw: "qr_idempotencyKey rq = HeaderText raw" "k = trim raw" "k \<noteq> []" "length k \<le> 255"
    using assms by (auto simp: keyed_def)
  define a :: "(request_body + http_body) acquire_call" where "a = start_acquire k (''/api'' @ api_path (tl (qr_segments rq))) (qr_method rq) (rq_hash ou rq)
    (if truthy (qr_userId rq) then qr_userId rq else None) 30000 (rv_now rv)"
  obtain a' tbl where st: "acquire_steps 3 (rv_now rv) (rv_dbNow rv) a (ap_keys s) = (a', tbl)" by fastforce
  have adm: "admit (ou_sha256 ou) (ou_body_text ou) (rv_now rv) (idem_request rq) = TryAcquire a"
    using raw by (simp add: admit_def rq_hash_def idem_request_def a_def)
  have key: "aq_key a = k" by (simp add: a_def start_acquire_def)
  show ?thesis
    unfolding idempotent_def acquire_def adm a_def [symmetric] by (simp only: admission.case st prod.case key)
qed

text \<open>The row a finished command leaves behind.\<close>

definition answered_row :: "outside \<Rightarrow> app_request \<Rightarrow> http_response \<Rightarrow> (request_body + http_body) idempotencyRecord \<Rightarrow> bool" where
  "answered_row ou rq r row \<longleftrightarrow> ik_requestHash row = rq_hash ou rq \<and> ik_status row = COMPLETED \<and>
     ik_responseStatusCode row = Some (hr_status r) \<and> ik_responseBody row = captured r"

lemma idempotent_first:
  assumes "keyed rq k" "map_of (ap_keys s) k = None" "idempotent ou rv rq s = (r, s')" "200 \<le> hr_status r" "hr_status r < 500"
  shows "\<exists>row. map_of (ap_keys s') k = Some row \<and> answered_row ou rq r row"
proof -
  let ?ins = "sql_insert k (if truthy (qr_userId rq) then qr_userId rq else None) (''/api'' @ api_path (tl (qr_segments rq)))
    (qr_method rq) (rq_hash ou rq) (rv_now rv + 30000) (rv_dbNow rv) (ap_keys s)"
  obtain row where row: "map_of (snd ?ins) k = Some row" "ik_requestHash row = rq_hash ou rq"
    using assms(2) by (simp add: sql_insert_def)
  have run: "routed ou rv rq (s\<lparr>ap_keys := snd ?ins\<rparr>) = (r, s'\<lparr>ap_keys := snd ?ins\<rparr>) \<and>
      ap_keys s' = on_finish k (hr_status r) (captured r) (snd ?ins)"
  proof -
    obtain r1 s1 where r1: "routed ou rv rq (s\<lparr>ap_keys := snd ?ins\<rparr>) = (r1, s1)" by fastforce
    have "ap_keys s1 = snd ?ins" using routed_keeps(1) [of ou rv rq "s\<lparr>ap_keys := snd ?ins\<rparr>"] r1 by simp
    then show ?thesis
      using assms(2,3) r1 unfolding idempotent_keyed [OF assms(1)] acquire_result by (cases s1) (auto simp: reply_of_def)
  qed
  then show ?thesis using row assms(4,5) by (simp add: on_finish_def complete_def answered_row_def)
qed

lemma idempotent_again:
  assumes "keyed rq k" "map_of (ap_keys s) k = Some row" "answered_row ou rq r row" "200 \<le> hr_status r"
  shows "idempotent ou rv rq s = (replay_response (hr_status r) (captured r), s)"
  using assms unfolding idempotent_keyed [OF assms(1)] acquire_result
  by (simp add: answered_row_def inspect_row_def reply_of_def)

lemma replay_body: "hr_body r \<noteq> PlainBody \<Longrightarrow> hr_body (replay_response status (captured r)) = hr_body r"
  by (cases "hr_body r") (simp_all add: replay_response_def captured_def)


text \<open>A stored answer outlives every other request.\<close>

lemma acquire_other: "k' \<noteq> k \<Longrightarrow> map_of (snd (acquire k' path meth hash uid ms now dbNow tbl)) k = map_of tbl k"
  by (auto simp: acquire_result store_defs split: option.splits acquire_pc.splits)

lemma acquire_completed:
  assumes "map_of tbl k = Some row" "ik_status row = COMPLETED"
  shows "snd (acquire k path meth hash uid ms now dbNow tbl) = tbl"
    "fst (acquire k path meth hash uid ms now dbNow tbl) \<noteq> Returned Acquired"
  using assms by (auto simp: acquire_result inspect_row_def)

lemma not_keyed:
  assumes "\<nexists>k. keyed rq k"
  shows "ap_keys (snd (idempotent ou rv rq s)) = ap_keys s"
proof -
  have "admit (ou_sha256 ou) (ou_body_text ou) (rv_now rv) (idem_request rq) \<in> {PassThrough, InvalidKey}"
    using assms by (auto simp: admit_def idem_request_def keyed_def split: header_value.splits)
  then show ?thesis by (auto simp: idempotent_def routed_keeps)
qed

lemma keyed_keeps_row:
  assumes "keyed rq k'" "map_of (ap_keys s) k = Some row" "ik_status row = COMPLETED"
  shows "map_of (ap_keys (snd (idempotent ou rv rq s))) k = Some row"
proof -
  obtain pc tbl where acq: "acquire k' (''/api'' @ api_path (tl (qr_segments rq))) (qr_method rq) (rq_hash ou rq)
      (if truthy (qr_userId rq) then qr_userId rq else None) 30000 (rv_now rv) (rv_dbNow rv) (ap_keys s) = (pc, tbl)" by fastforce
  have row: "map_of tbl k = Some row"
    using acquire_other [of k' k] acquire_completed(1) [OF assms(2,3)] assms(2) acq by (metis snd_conv)
  have other: "k' \<noteq> k" if "pc = Returned Acquired"
    using acquire_completed(2) [OF assms(2,3)] acq that by (metis fst_conv)
  obtain r t where rt: "routed ou rv rq (s\<lparr>ap_keys := tbl\<rparr>) = (r, t)" by fastforce
  have keys: "ap_keys t = tbl" using routed_keeps(1) [of ou rv rq "s\<lparr>ap_keys := tbl\<rparr>"] rt by simp
  have "map_of (on_finish k' st b tbl) k = Some row" if "pc = Returned Acquired" for st b
    using on_finish_other [of k k'] other [OF that] row by metis
  then show ?thesis
    unfolding idempotent_keyed [OF assms(1)] acq prod.case using row rt keys
    by (auto simp: reply_of_def split: acquire_pc.split AcquireResult.split)
qed

lemma idempotent_keeps_row:
  assumes "map_of (ap_keys s) k = Some row" "ik_status row = COMPLETED"
  shows "map_of (ap_keys (snd (idempotent ou rv rq s))) k = Some row"
  by (cases "\<exists>k'. keyed rq k'") (use assms keyed_keeps_row not_keyed in fastforce)+

lemma add_headers_twice: "add_headers hs (add_headers hs' r) = add_headers (hs @ hs') r"
  by (simp add: add_headers_def)

lemma handle_request_core:
  assumes "handle_request ou rv rq s = (r, s')"
  obtains (outside) "same_core s' s" "qr_body rq = BadBody \<or> qr_segments rq = [] \<or> hd (qr_segments rq) \<noteq> ''api''"
  | (refused) "hr_status r = 429 \<or> hr_status r = 503" "same_core s' s"
  | (passed) s0 r0 s0' hs where "same_core s0 s" "idempotent ou rv rq s0 = (r0, s0')" "same_core s' s0'" "r = add_headers hs r0"
proof (cases "qr_body rq \<noteq> BadBody \<and> qr_segments rq \<noteq> [] \<and> hd (qr_segments rq) = ''api''")
  case False
  then show thesis
    using assms by (intro outside) (auto simp: handle_request_def Let_def split: if_splits)
next
  case True
  obtain r1 where sh: "shed ou rv rq s = (r1, s')" and
      r: "\<exists>hs. r = add_headers hs r1"
    using assms True by (auto simp: handle_request_def Let_def split: prod.splits if_splits)
  from sh show thesis
  proof (cases rule: shed_cases)
    case refused
    then show thesis using r that(2) by (auto simp: add_headers_def)
  next
    case (passed s0 r0 s0' hs)
    then show thesis using r that(3) [of s0 r0 s0'] by (auto simp: add_headers_twice)
  qed
qed

lemma handle_keeps_row:
  assumes "map_of (ap_keys s) k = Some row" "ik_status row = COMPLETED"
  shows "map_of (ap_keys (snd (handle_request ou rv rq s))) k = Some row"
proof -
  obtain r s' where h: "handle_request ou rv rq s = (r, s')" by fastforce
  then have "map_of (ap_keys s') k = Some row"
  proof (cases rule: handle_request_core)
    case (passed s0 r0 s0' hs)
    then show ?thesis using idempotent_keeps_row [of s0 k row ou rv rq] assms by (simp add: same_core_def)
  qed (use assms in \<open>simp_all add: same_core_def\<close>)
  then show ?thesis using h by simp
qed

fun requests :: "outside \<Rightarrow> (request_env \<times> app_request) list \<Rightarrow> app_state \<Rightarrow> app_state" where
  "requests ou [] s = s"
| "requests ou ((rv, rq) # qs) s = requests ou qs (snd (handle_request ou rv rq s))"

lemma requests_keep_row:
  "map_of (ap_keys s) k = Some row \<Longrightarrow> ik_status row = COMPLETED \<Longrightarrow> map_of (ap_keys (requests ou qs s)) k = Some row"
  by (induction qs arbitrary: s) (auto simp: handle_keeps_row)

lemma rate_limited_limiter: "ap_limiter (snd (rate_limited ou rv rq s)) = ap_limiter s"
proof -
  obtain r s' where "rate_limited ou rv rq s = (r, s')" by fastforce
  moreover from this have "ap_limiter s' = ap_limiter s"
  proof (cases rule: rate_limited_cases)
    case (passed s0 r0 hs)
    then show ?thesis using idempotent_keeps_limiter [of ou rv rq s0] by simp
  qed simp
  ultimately show ?thesis by simp
qed

lemma handle_request_slot:
  assumes "ap_limiter s = Some l" "0 \<le> cl_activeRequests l" "handle_request ou rv rq s = (r, s')"
  shows "\<exists>l'. ap_limiter s' = Some l' \<and> cl_activeRequests l' = cl_activeRequests l \<and> cl_maxConcurrent l' = cl_maxConcurrent l"
proof (cases "s' = s")
  case False
  obtain ok l' where t: "tryAcquire (default_priority (qr_method rq) (api_path (tl (qr_segments rq)))) l = (ok, l')" by fastforce
  obtain r1 s1 where rl: "rate_limited ou rv rq (s\<lparr>ap_limiter := Some l'\<rparr>) = (r1, s1)" by fastforce
  have "ap_limiter s1 = Some l'" using rate_limited_limiter [of ou rv rq "s\<lparr>ap_limiter := Some l'\<rparr>"] rl by simp
  then have "ap_limiter s' = Some (if ok then release_slot l' else l')"
    using assms(1,3) False t rl by (auto simp: handle_request_def shed_def Let_def split: if_splits prod.splits)
  then show ?thesis using t assms(2) by (auto simp: tryAcquire_def release_slot_def split: if_splits)
qed (use assms(1) in simp)

lemma empty_bucket_refused:
  assumes "ap_rate s = Some (lm, bs)" "limits_ok lm" "level lm (rv_now rv) (default_key (limited rq)) bs < 1"
    and "rate_limited ou rv rq (s\<lparr>ap_limiter := x\<rparr>) = (r, s')"
  shows "hr_status r = 429 \<and> same_core s' s"
proof -
  obtain res bs' where c: "memory_consume lm (rv_now rv) (default_key (limited rq)) 1 bs = (res, bs')" by fastforce
  then have "\<not> rl_allowed res" using memory_consume_level [OF assms(2), of "rv_now rv" "default_key (limited rq)" 1 bs] assms(3) by auto
  then show ?thesis using assms(1,4) c by (auto simp: rate_limited_def rate_limit_def same_core_def)
qed

section \<open>The statuses a client may see\<close>

definition route_statuses :: "int set" where
  "route_statuses = {200, 201, 400, 404, 409}"

definition internal_error :: "http_response \<Rightarrow> bool" where
  "internal_error r \<longleftrightarrow> hr_status r = 500 \<and>
     (\<exists>trail. hr_body r = error_json ''INTERNAL_SERVER_ERROR'' ''An unexpected internal error occurred'' trail)"

definition proper :: "http_response \<Rightarrow> bool" where
  "proper r \<longleftrightarrow> hr_status r \<in> route_statuses \<or> internal_error r"

lemma errorHandler_proper: "proper (errorHandler cid now err)"
proof (cases err)
  case MalformedBody
  then show ?thesis by (simp add: errorHandler_def proper_def route_statuses_def Let_def)
next
  case (Thrown e)
  then show ?thesis
    by (cases e) (auto simp: errorHandler_def proper_def internal_error_def route_statuses_def Let_def)
qed

lemma event_router_proper: "event_router ou rv meth segs body s = (Inr r, s') \<Longrightarrow> hr_status r \<in> route_statuses"
  by (auto simp: event_router_def metrics_route_def create_route_def read_route_def status_route_def not_found_def
      validation_error_def route_statuses_def
      split: if_splits request_body.splits prod.splits sum.splits option.splits read_pc.splits)

lemma routed_proper: "proper (fst (routed ou rv rq s))"
  using event_router_proper [of ou rv "qr_method rq" "tl (qr_segments rq)" "qr_body rq" "ap_reads s"]
  by (auto simp: routed_def errorHandler_proper split: prod.splits sum.splits) (simp add: proper_def)

text \<open>What is stored under a key is an answer of the routes.\<close>

definition stored_ok :: "app_state \<Rightarrow> bool" where
  "stored_ok s \<longleftrightarrow> (\<forall>k row. map_of (ap_keys s) k = Some row \<and> ik_status row = COMPLETED \<longrightarrow>
     (\<exists>c \<in> route_statuses. ik_responseStatusCode row = Some c))"

lemma acquire_stored:
  assumes "\<forall>k row. map_of tbl k = Some row \<and> ik_status row = COMPLETED \<longrightarrow> (\<exists>c \<in> C. ik_responseStatusCode row = Some c)"
    and "acquire key path meth hash uid ms now dbNow tbl = (pc, tbl')"
  shows "\<forall>k row. map_of tbl' k = Some row \<and> ik_status row = COMPLETED \<longrightarrow> (\<exists>c \<in> C. ik_responseStatusCode row = Some c)"
  using assms by (auto simp: acquire_result store_defs split: option.splits acquire_pc.splits if_splits)

lemma acquire_returns_stored:
  assumes "acquire key path meth hash uid ms now dbNow tbl = (pc, tbl')" "pc = Returned (Completed row)"
  shows "map_of tbl key = Some row \<and> ik_status row = COMPLETED"
  using assms by (auto simp: acquire_result inspect_row_def split: option.splits if_splits)

lemma idempotent_stored_ok:
  assumes "stored_ok s"
  shows "stored_ok (snd (idempotent ou rv rq s))"
proof (cases "\<exists>k. keyed rq k")
  case False
  then show ?thesis using assms not_keyed [of rq ou rv s] by (simp add: stored_ok_def)
next
  case True
  then obtain k where k: "keyed rq k" by blast
  obtain pc tbl where acq: "acquire k (''/api'' @ api_path (tl (qr_segments rq))) (qr_method rq) (rq_hash ou rq)
      (if truthy (qr_userId rq) then qr_userId rq else None) 30000 (rv_now rv) (rv_dbNow rv) (ap_keys s) = (pc, tbl)" by fastforce
  have tbl: "stored_ok (s\<lparr>ap_keys := tbl\<rparr>)"
    using assms acquire_stored [of "ap_keys s", OF _ acq] by (simp add: stored_ok_def)
  obtain r t where rt: "routed ou rv rq (s\<lparr>ap_keys := tbl\<rparr>) = (r, t)" by fastforce
  have t: "ap_keys t = tbl" "proper r"
    using routed_keeps(1) [of ou rv rq "s\<lparr>ap_keys := tbl\<rparr>"] routed_proper [of ou rv rq "s\<lparr>ap_keys := tbl\<rparr>"] rt by simp_all
  have "stored_ok (t\<lparr>ap_keys := on_finish k (hr_status r) (captured r) tbl\<rparr>)"
    using tbl t(2) by (auto simp: stored_ok_def store_defs proper_def internal_error_def split: option.splits if_splits)
  then show ?thesis
    unfolding idempotent_keyed [OF k] acq prod.case using tbl rt t(1)
    by (auto simp: reply_of_def split: acquire_pc.split AcquireResult.split)
qed

definition client_statuses :: "int set" where
  "client_statuses = route_statuses \<union> {422, 429, 503}"

lemma idempotent_statuses:
  assumes "stored_ok s"
  shows "hr_status (fst (idempotent ou rv rq s)) \<in> client_statuses \<or> internal_error (fst (idempotent ou rv rq s))"
proof (cases "\<exists>k. keyed rq k")
  case False
  then have "admit (ou_sha256 ou) (ou_body_text ou) (rv_now rv) (idem_request rq) \<in> {PassThrough, InvalidKey}"
    by (auto simp: admit_def idem_request_def keyed_def split: header_value.splits)
  then show ?thesis
    using routed_proper [of ou rv rq s] by (auto simp: idempotent_def proper_def client_statuses_def route_statuses_def)
next
  case True
  then obtain k where k: "keyed rq k" by blast
  obtain pc tbl where acq: "acquire k (''/api'' @ api_path (tl (qr_segments rq))) (qr_method rq) (rq_hash ou rq)
      (if truthy (qr_userId rq) then qr_userId rq else None) 30000 (rv_now rv) (rv_dbNow rv) (ap_keys s) = (pc, tbl)" by fastforce
  have done_row: "\<exists>c \<in> route_statuses. ik_responseStatusCode row = Some c" if "pc = Returned (Completed row)" for row
    using assms acquire_returns_stored [OF acq that] unfolding stored_ok_def by blast
  have "fst (case routed ou rv rq (s\<lparr>ap_keys := tbl\<rparr>) of
      (r, s') \<Rightarrow> (r, s'\<lparr>ap_keys := on_finish k (hr_status r) (captured r) (ap_keys s')\<rparr>)) =
      fst (routed ou rv rq (s\<lparr>ap_keys := tbl\<rparr>))" by (simp split: prod.splits)
  then show ?thesis
    unfolding idempotent_keyed [OF k] acq prod.case
    using routed_proper [of ou rv rq "s\<lparr>ap_keys := tbl\<rparr>"] errorHandler_proper done_row
    by (auto simp: reply_of_def proper_def client_statuses_def route_statuses_def replay_response_def
        split: acquire_pc.split AcquireResult.split)
qed

lemma stored_ok_core: "same_core s t \<Longrightarrow> stored_ok s \<longleftrightarrow> stored_ok t"
  by (simp add: stored_ok_def same_core_def)

lemma handle_request_typed:
  assumes "stored_ok s" "handle_request ou rv rq s = (r, s')"
  shows "stored_ok s' \<and> (hr_status r \<in> client_statuses \<or> internal_error r)"
  using assms(2)
proof (cases rule: handle_request_core)
  case outside
  have "proper r" using assms(2) outside(2) errorHandler_proper
    by (auto simp: handle_request_def Let_def proper_def route_statuses_def split: if_splits)
  then show ?thesis using outside(1) assms(1) stored_ok_core by (auto simp: proper_def client_statuses_def)
next
  case refused
  then show ?thesis using assms(1) stored_ok_core by (auto simp: client_statuses_def)
next
  case (passed s0 r0 s0' hs)
  have "stored_ok s0" using passed(1) assms(1) stored_ok_core by blast
  then have "stored_ok s0'" "hr_status r0 \<in> client_statuses \<or> internal_error r0"
    using idempotent_stored_ok [of s0 ou rv rq] idempotent_statuses [of s0 ou rv rq] passed(2) by simp_all
  then show ?thesis using passed(3,4) stored_ok_core by (auto simp: add_headers_def internal_error_def)
qed

lemma requests_stored_ok: "stored_ok s \<Longrightarrow> stored_ok (requests ou qs s)"
proof (induction qs arbitrary: s)
  case (Cons q qs)
  obtain rv rq where q: "q = (rv, rq)" by fastforce
  have "stored_ok (snd (handle_request ou rv rq s))"
    using handle_request_typed [OF Cons.prems prod.collapse [symmetric]] by blast
  then show ?case using Cons.IH by (simp add: q)
qed simp

section \<open>Properties\<close>


definition demo_outside :: outside where
  "demo_outside = \<lparr>ou_uuid_in = demo_uuid, ou_parse_date = demo_date, ou_sha256 = id, ou_body_text = (\<lambda>_. ''{}'')\<rparr>"

definition demo_env :: "nat \<Rightarrow> request_env" where
  "demo_env n = \<lparr>rv_now = 1000 * int n, rv_dbNow = 1000 * int n, rv_eventId = ''e1'', rv_uuids = demo_uuids,
     rv_correlation = ''c'', rv_readId = n, rv_redisGet = True, rv_redisSet = True, rv_redisDel = True\<rparr>"

definition demo_post :: app_request where
  "demo_post = \<lparr>qr_method = ''POST'', qr_segments = [''api'', ''events''], qr_correlation = None,
     qr_idempotencyKey = HeaderText ''k'', qr_userId = None, qr_forwardedFor = None, qr_ip = None,
     qr_body = CreateBody \<lparr>cb_organizerId = Some ''o'', cb_title = Some ''t'', cb_saleStartAt = Some ''open'',
       cb_saleEndAt = Some ''close'', cb_ticketTypes = None\<rparr>\<rparr>"

definition demo_app :: app_state where
  "demo_app = \<lparr>ap_instanceId = ''i1'', ap_reads = api_init, ap_limiter = Some (new_limiter 10 None), ap_rate = None, ap_keys = []\<rparr>"

definition demo_get :: app_request where
  "demo_get = demo_post\<lparr>qr_method := ''GET'', qr_segments := [''api'', ''events'', ''e1''], qr_idempotencyKey := NoHeader, qr_body := NoBody\<rparr>"

definition demo_after :: app_state where
  "demo_after = requests demo_outside [(demo_env 2, demo_get)] (snd (handle_request demo_outside (demo_env 1) demo_post demo_app))"

lemma demo_post_created: "hr_status (fst (handle_request demo_outside (demo_env 1) demo_post demo_app)) = 201"
  by code_simp

lemma demo_post_facts:
  "keyed demo_post ''k''" "map_of (ap_keys demo_app) ''k'' = None" "qr_segments demo_post = [''api'', ''events'']"
  "qr_body demo_post \<noteq> BadBody"
proof -
  have "trim ''k'' = ''k''" by code_simp
  then show "keyed demo_post ''k''" by (simp add: keyed_def demo_post_def)
qed (simp_all add: demo_post_def demo_app_def)






end
