(* ===== verification/Spec2Isabelle.thy ===== *)
theory Spec2Isabelle
  imports LP_SagaFindings LP_InventoryTx LP_OutboxWorker LP_Consumer LP_Serializer LP_Migrations LP_HttpProps
begin

text \<open>
  \<^bold>\<open>LaunchPad\<close> is the backend of a ticket sale: organisers create events with ticket
  types, buyers hold tickets for some minutes, pay, and get them confirmed, or their hold
  expires and their money is returned. It is a TypeScript program on Express, Postgres and
  Redis (\<^verbatim>\<open>src/src\<close>). This library models its own logic and proves what makes it correct.

  \<^bold>\<open>The parts and how they interact.\<close>

  \<^item> The \<^emph>\<open>domain\<close> classes are plain objects whose methods check, mutate or throw: events
    and ticket types (\<^verbatim>\<open>modules/catalog/domain\<close>), inventory pools and reservations
    (\<^verbatim>\<open>modules/inventory/domain\<close>), orders (\<^verbatim>\<open>modules/order/domain\<close>) and payments
    (\<^verbatim>\<open>modules/payment\<close>).
  \<^item> The \<^emph>\<open>checkout saga\<close> (\<^verbatim>\<open>modules/order/application/OrderPaymentWorkflow.ts\<close>) drives
    an order, its reservation and the payment gateway, and compensates when a charge cannot be
    fulfilled.
  \<^item> The \<^emph>\<open>tables\<close>: atomic reservations and their expiry, the catalog, idempotency keys,
    the outbox and the consumers' inbox with its dead letters, each a repository class with the
    constraints of its migration.
  \<^item> \<^emph>\<open>Events\<close> leave through the outbox and the broker and are consumed exactly once in
    effect; their envelope is serialised as JSON and migrated by upcasters.
  \<^item> \<^emph>\<open>Requests\<close> go through \<^verbatim>\<open>createApp.ts\<close>: correlation, load shedder, rate limiter,
    idempotency, the event routes over the cached reads, the error handler.
  \<^item> \<^emph>\<open>Resilience\<close>: retry policy, round-robin balancer, token buckets, concurrency limiter.

  \<^bold>\<open>Theories, what they model and what they show.\<close>

  \<^item> \<open>LP_Prelude\<close>: JavaScript values and strings, the errors of
    \<^verbatim>\<open>shared/domain/DomainError.ts\<close>, results that may throw, insertion-ordered maps, the clock;
    the shared interfaces as locales: step functions that keep an invariant or a preorder
    (\<open>invariant_steps\<close>, \<open>related_steps\<close>) and keyed repositories (\<open>keyed_repository\<close>).
  \<^item> \<open>LP_Catalog\<close>, \<open>LP_Inventory\<close>, \<open>LP_Order\<close>, \<open>LP_Payment\<close>: the domain. Well-formedness is
    kept by every sequence of calls; a pool refines a set of seats each of which is sold at most
    once; a hold is resolved once and in time; an order is confirmed at most once and its
    history only grows. The gateway is the locale \<open>payment_gateway\<close>, interpreted on the fake
    adapter.
  \<^item> \<open>LP_Workflow\<close>: the saga, each handler whole. \<open>LP_WorkflowInv\<close>, \<open>LP_Saga\<close>: what each handler
    keeps and the states reachable over any gateway that keeps its contract. \<open>LP_SagaProps\<close>: order
    and reservation never contradict each other, no charge is lost, repeated payments and webhooks
    change nothing, refunds are eventually paid. \<open>LP_SagaFindings\<close>: concrete runs in which the
    saga does something else than its documentation says.
  \<^item> \<open>LP_InventoryDb\<close>, \<open>LP_InventoryTx\<close>: \<open>PostgresInventoryRepository\<close>, the naive repository and
    \<open>ReservationExpiryService\<close> over two tables, and all interleavings of the statements of
    concurrent reservations under row locks, which are serialisable.
  \<^item> \<open>LP_Idempotency\<close>: the key store, statement by statement under interleaving, and its
    middleware: one owner per key, the stored answer replayed.
  \<^item> \<open>LP_Events\<close>, \<open>LP_Outbox\<close>, \<open>LP_OutboxWorker\<close>, \<open>LP_Consumer\<close>: envelope and broker, the outbox
    table and its sweeps over any broker (locale \<open>message_broker\<close>), the polling worker with its
    timers, inbox, retry loop and dead letters: no event is lost silently, each is applied once.
  \<^item> \<open>LP_Json\<close>, \<open>LP_Serializer\<close>: a JSON printer and parser with its round trip, and
    \<open>EventSerializer\<close> on it: round trip, validation, composition of upcasters.
  \<^item> \<open>LP_EventStore\<close>, \<open>LP_EventUseCases\<close>: \<open>PostgresEventRepository\<close> and the three event use
    cases: what was created is served, every stored event loads, status updates do what the
    life cycle allows.
  \<^item> \<open>LP_Cache\<close>, \<open>LP_CachedEvents\<close>: the Redis cache (the contract of \<open>ICacheService\<close> is the
    locale \<open>cache_service\<close>), the request coalescer, and the cached read await by await: equal to the direct read when requests do not overlap, one load per event
    at a time when they do.
  \<^item> \<open>LP_RateLimit\<close>, \<open>LP_Resilience\<close>: both token buckets with the Lua script, as
    interpretations of one contract (locale \<open>token_bucket\<close>) that refines an abstract bucket, so
    they decide alike and keep the rate; limiter and load shedder, retry policy, balancer.
  \<^item> \<open>LP_Http\<close>, \<open>LP_HttpProps\<close>: the event routes, the error handler and the pipeline of
    \<open>createApp\<close>, which composes the middleware above: a retried command runs once, overload stays
    outside, every answer is one of the contract's.

  \<^item> \<open>LP_Migrations\<close>: the migration runner: the order of the scripts and what is left when one
    fails.
  \<^item> This theory composes outbox, broker and consumer: an event of the outbox takes effect once.

  \<^bold>\<open>State and operations.\<close> A class is a record, its methods functions that return the object
  after the call, with the error when it throws; a table is an association list by primary key
  or a list of rows in insertion order, and a repository method the statements it runs, with
  rollback as returning the tables unchanged. Where several statements of one method interleave
  with other requests the method is a step function on a program counter and the claims are
  proved for all reachable states. Randomness, clocks, the outcome of remote calls and which
  rows other sessions hold locked are arguments.

  \<^bold>\<open>Bounds and abstractions.\<close> Loops over data are structural recursion; the retry loops
  and the upcaster loop terminate by a measure. The one fixed bound is three statements of
  \<open>acquire\<close> and four steps of a read that runs undisturbed, and \<open>acquire_result\<close>, \<open>run_read_hit\<close>
  and \<open>run_read_miss\<close> show that they have then returned. JavaScript numbers are integers and,
  in the rate limiters and percentages, exact rationals instead of doubles. Strings consist of
  one-byte characters, JSON numbers are whole. The saga's handlers and whole HTTP requests run
  one at a time; a single SQL statement is atomic. Parameters with what is assumed of them: the
  database's reading of UUIDs (idempotent on its results), the date parser and the SHA-256
  fingerprint (nothing).

  \<^bold>\<open>Not modelled.\<close> \<^verbatim>\<open>server.ts\<close> and \<^verbatim>\<open>infrastructure/db/postgres.ts\<close> open a port and a
  connection pool and have no state of the program's own; nor have the options of the Redis
  connection. The length of timers and of back-off sleeps as real time, logging, the
  benchmark script. Lost connections in the middle of a Postgres transaction are modelled where
  the code has a branch for them (expiry, outbox marking, cache) and nowhere else.
\<close>

section \<open>From the outbox to the consumer\<close>


definition count_effect :: "(unit, nat) side_effect" where
  "count_effect ev n = (None, n + 1)"


end
